(* ===== verification/Prelude.thy ===== *)
theory Prelude
  imports Main "HOL-Library.Word" "HOL-Library.AList" "HOL-Library.Char_ord" "HOL-Library.List_Lexorder"
begin

text \<open>
  Shared ground of the development. A Go \<open>string\<close> and a Go \<open>[]byte\<close> are both sequences of
  bytes: they are modelled by HOL's \<open>string\<close>, whose characters are the bytes 0 to 255
  (\<open>of_char\<close> reads one, \<open>char_of\<close> makes one). A Go pair \<open>(value, error)\<close> is the sum
  \<open>'err + 'a\<close> with \<open>Inl\<close> for the error. A Go map is an association list with distinct
  keys, read with \<open>map_of\<close>.

  The theory holds the type synonyms, the two collections of rewrite rules that the component
  proofs use, and the generic lemmas on lists, sums and association lists.
\<close>

type_synonym bytes = string
type_synonym uint64 = "64 word"
type_synonym int64 = "64 word"
type_synonym uint8 = "8 word"

named_theorems go_simps \<open>definitions of small Go library functions, unfolded by the proofs\<close>
named_theorems returns \<open>when a fallible computation returns a value\<close>

section \<open>Bytes\<close>

definition byte :: "char \<Rightarrow> nat" where
  "byte c = of_char c"

lemma byte_less [simp]: "byte c < 256"
  by (simp add: byte_def)

lemma char_of_byte [simp]: "char_of (byte c) = c"
  by (simp add: byte_def)

lemma byte_char_of [simp]: "n < 256 \<Longrightarrow> byte (char_of n) = n"
  by (simp add: byte_def)

lemma byte_inject [simp]: "byte c = byte d \<longleftrightarrow> c = d"
  by (simp add: byte_def)

section \<open>Results\<close>

text \<open>Sequencing of a fallible step: an error stops the computation, as \<open>if err != nil { return err }\<close>.\<close>

fun and_then :: "'err + 'a \<Rightarrow> ('a \<Rightarrow> 'err + 'b) \<Rightarrow> 'err + 'b" where
  "and_then (Inl e) f = Inl e"
| "and_then (Inr x) f = f x"

lemma and_then_Inr [returns]: "and_then m f = Inr y \<longleftrightarrow> (\<exists>x. m = Inr x \<and> f x = Inr y)"
  by (cases m) auto

lemma and_then_Inl [returns]:
  "and_then m f = Inl e \<longleftrightarrow> m = Inl e \<or> (\<exists>x. m = Inr x \<and> f x = Inl e)"
  by (cases m) auto

lemma and_then_cong [fundef_cong]:
  "m = m' \<Longrightarrow> (\<And>x. m' = Inr x \<Longrightarrow> f x = g x) \<Longrightarrow> and_then m f = and_then m' g"
  by (cases m') auto

section \<open>Lists\<close>

lemma takeWhile_all: "\<forall>x \<in> set xs. P x \<Longrightarrow> takeWhile P (xs @ ys) = xs @ takeWhile P ys"
  by (induction xs) auto

lemma dropWhile_all: "\<forall>x \<in> set xs. P x \<Longrightarrow> dropWhile P (xs @ ys) = dropWhile P ys"
  by (induction xs) auto

lemma append_sep_inject:
  "s \<notin> set xs \<Longrightarrow> s \<notin> set xs' \<Longrightarrow> xs @ s # ys = xs' @ s # ys' \<longleftrightarrow> xs = xs' \<and> ys = ys'"
proof (induction xs arbitrary: xs')
  case Nil
  then show ?case by (cases xs') auto
next
  case (Cons x xs)
  then show ?case by (cases xs') auto
qed

lemma singleton_replicate: "[x] = replicate k y \<longleftrightarrow> k = 1 \<and> x = y"
  by (cases k) auto

section \<open>Association lists\<close>

lemma map_of_filter_key:
  "distinct (map fst m) \<Longrightarrow>
    map_of (filter (\<lambda>(k, v). P k v) m) k
      = (case map_of m k of None \<Rightarrow> None | Some v \<Rightarrow> if P k v then Some v else None)"
proof (induction m)
  case Nil
  then show ?case by simp
next
  case (Cons kv m)
  obtain a b where kv: "kv = (a, b)" by (cases kv)
  from Cons.prems have "map_of m a = None" and "distinct (map fst m)"
    by (simp_all add: kv map_of_eq_None_iff)
  with Cons.IH show ?case by (cases "k = a") (simp_all add: kv)
qed

lemma distinct_filter_fst: "distinct (map fst m) \<Longrightarrow> distinct (map fst (filter P m))"
  by (induction m) auto

lemma map_of_update_other [simp]: "k' \<noteq> k \<Longrightarrow> map_of (AList.update k v m) k' = map_of m k'"
  by (simp add: update_conv')

lemma map_of_update_same [simp]: "map_of (AList.update k v m) k = Some v"
  by (simp add: update_conv')

lemma map_of_delete_other [simp]: "k' \<noteq> k \<Longrightarrow> map_of (AList.delete k m) k' = map_of m k'"
  by (simp add: delete_conv')

lemma map_of_delete_same [simp]: "map_of (AList.delete k m) k = None"
  by (simp add: delete_conv')

end
