(* ===== verification/Utf8.thy ===== *)
theory Utf8
  imports Prelude
begin

text \<open>
  Package \<open>unicode/utf8\<close>, as \<open>encoding/json\<close> uses it. \<open>utf8_len s\<close> is the size of the rune
  that \<open>utf8.DecodeRune\<close> reads at the start of \<open>s\<close>, or 0 when the bytes there are not a valid
  encoding (Go then reports \<open>RuneError\<close> with size 1; overlong forms, surrogates and values above
  10FFFF are invalid). \<open>utf8_encode\<close> is \<open>utf8.EncodeRune\<close>. \<open>valid_utf8\<close> says that a whole
  string decodes without a \<open>RuneError\<close>.
\<close>

definition cont_byte :: "char \<Rightarrow> bool" where
  "cont_byte c \<longleftrightarrow> 128 \<le> byte c \<and> byte c \<le> 191"

text \<open>The bounds of the second byte depend on the first.\<close>

definition second_ok :: "char \<Rightarrow> char \<Rightarrow> bool" where
  "second_ok c d \<longleftrightarrow>
     (if byte c = 224 then 160 else if byte c = 240 then 144 else 128) \<le> byte d \<and>
     byte d \<le> (if byte c = 237 then 159 else if byte c = 244 then 143 else 191)"

fun utf8_len :: "string \<Rightarrow> nat" where
  "utf8_len [] = 0"
| "utf8_len (c # cs) =
     (if byte c < 128 then 1
      else if 194 \<le> byte c \<and> byte c \<le> 223 then
        (case cs of d # _ \<Rightarrow> if cont_byte d then 2 else 0 | _ \<Rightarrow> 0)
      else if 224 \<le> byte c \<and> byte c \<le> 239 then
        (case cs of d # e # _ \<Rightarrow> if second_ok c d \<and> cont_byte e then 3 else 0 | _ \<Rightarrow> 0)
      else if 240 \<le> byte c \<and> byte c \<le> 244 then
        (case cs of d # e # f # _ \<Rightarrow> if second_ok c d \<and> cont_byte e \<and> cont_byte f then 4 else 0
         | _ \<Rightarrow> 0)
      else 0)"

declare utf8_len.simps(2) [simp del]

fun valid_utf8 :: "string \<Rightarrow> bool" where
  "valid_utf8 [] = True"
| "valid_utf8 (c # cs) = (0 < utf8_len (c # cs) \<and> valid_utf8 (drop (utf8_len (c # cs) - 1) cs))"

declare valid_utf8.simps(2) [simp del]

definition utf8_encode :: "nat \<Rightarrow> string" where
  "utf8_encode r =
     (if r < 128 then [char_of r]
      else if r < 2048 then [char_of (192 + r div 64), char_of (128 + r mod 64)]
      else if r < 65536 then
        [char_of (224 + r div 4096), char_of (128 + r div 64 mod 64), char_of (128 + r mod 64)]
      else
        [char_of (240 + r div 262144), char_of (128 + r div 4096 mod 64),
         char_of (128 + r div 64 mod 64), char_of (128 + r mod 64)])"

definition replacement :: string where
  "replacement = [CHR 0xEF, CHR 0xBF, CHR 0xBD]"

lemma utf8_len_ascii [simp]: "byte c < 128 \<Longrightarrow> utf8_len (c # cs) = 1"
  by (simp add: utf8_len.simps)

lemma valid_utf8_ascii_Cons [simp]: "byte c < 128 \<Longrightarrow> valid_utf8 (c # cs) = valid_utf8 cs"
  by (simp add: valid_utf8.simps)

lemma valid_utf8_ascii: "list_all (\<lambda>c. byte c < 128) s \<Longrightarrow> valid_utf8 s"
  by (induction s) simp_all

lemma utf8_len_le: "utf8_len s \<le> length s"
  by (cases s) (auto simp: utf8_len.simps split: list.splits)

text \<open>The four shapes of a valid rune.\<close>

lemma utf8_len_cases [consumes 1, case_names one two three four]:
  assumes "0 < utf8_len (c # cs)"
  obtains "byte c < 128" "utf8_len (c # cs) = 1"
  | d r where "cs = d # r" "194 \<le> byte c" "byte c \<le> 223" "cont_byte d" "utf8_len (c # cs) = 2"
  | d e r where "cs = d # e # r" "224 \<le> byte c" "byte c \<le> 239" "second_ok c d" "cont_byte e"
      "utf8_len (c # cs) = 3"
  | d e f r where "cs = d # e # f # r" "240 \<le> byte c" "byte c \<le> 244" "second_ok c d"
      "cont_byte e" "cont_byte f" "utf8_len (c # cs) = 4"
proof -
  consider "byte c < 128" | "194 \<le> byte c" "byte c \<le> 223" | "224 \<le> byte c" "byte c \<le> 239"
    | "240 \<le> byte c" "byte c \<le> 244"
    using assms by (auto simp: utf8_len.simps split: if_splits)
  then show ?thesis
  proof cases
    case 1
    with that(1) show ?thesis by simp
  next
    case 2
    with assms that(2) show ?thesis
      by (cases cs) (auto simp: utf8_len.simps split: if_splits)
  next
    case 3
    then have "utf8_len (c # cs) = (case cs of d # e # _ \<Rightarrow> if second_ok c d \<and> cont_byte e then 3 else 0 | _ \<Rightarrow> 0)"
      by (simp add: utf8_len.simps)
    with 3 assms that(3) show ?thesis
      by (auto split: list.splits if_splits)
  next
    case 4
    then have "utf8_len (c # cs) = (case cs of d # e # f # _ \<Rightarrow>
        if second_ok c d \<and> cont_byte e \<and> cont_byte f then 4 else 0 | _ \<Rightarrow> 0)"
      by (simp add: utf8_len.simps)
    with 4 assms that(4) show ?thesis
      by (auto split: list.splits if_splits)
  qed
qed

text \<open>The rune read depends on its own bytes only.\<close>

lemma utf8_len_append:
  assumes "0 < utf8_len (c # cs)"
  shows "utf8_len (c # take (utf8_len (c # cs) - 1) cs @ x) = utf8_len (c # cs)"
  using assms by (cases rule: utf8_len_cases) (simp_all add: utf8_len.simps)

lemma valid_utf8_append: "valid_utf8 s \<Longrightarrow> valid_utf8 t \<Longrightarrow> valid_utf8 (s @ t)"
proof (induction s rule: valid_utf8.induct)
  case 1
  then show ?case by simp
next
  case (2 c cs)
  let ?n = "utf8_len (c # cs)"
  have pos: "0 < ?n" and rest: "valid_utf8 (drop (?n - 1) cs)"
    using "2.prems"(1) by (auto simp: valid_utf8.simps)
  have le: "?n - 1 \<le> length cs" using utf8_len_le [of "c # cs"] by simp
  have "utf8_len (c # cs @ t) = ?n"
    using utf8_len_append [OF pos, of "drop (?n - 1) cs @ t"]
    by (metis append.assoc append_take_drop_id)
  moreover have "valid_utf8 (drop (?n - 1) cs @ t)"
    using "2.IH" rest "2.prems"(2) by blast
  ultimately show ?case using pos le by (simp add: valid_utf8.simps)
qed

end
