(* ===== verification/Json.thy ===== *)
theory Json
  imports GoStrings Utf8
begin

text \<open>
  The part of \<open>encoding/json\<close> that does not depend on Go types: JSON values, the text
  \<open>json.Marshal\<close> prints for them, and the reader behind \<open>json.Unmarshal\<close> and
  \<open>json.Decoder.Decode\<close>.

  \<^item> \<open>json_escape\<close> is the string encoder with HTML escaping on (\<open><\<close>, \<open>>\<close>, \<open>&\<close>, the line
    separators and control characters escaped, bytes that are not UTF-8 printed as \<open>ufffd\<close>);
  \<^item> \<open>json_unquote\<close> is the string reader (escapes, surrogate pairs, replacement of bad bytes);
  \<^item> \<open>parse_value\<close> is the recursive reader, with the nesting limit of 10000 and a fuel
    argument: every call consumes a character, so the length of the text plus one is enough
    (\<open>parse_value_fuel\<close>).

  A number is kept as its literal, which is how the decoder hands it to \<open>strconv\<close>.
  The main lemma is \<open>json_roundtrip\<close>: reading what was printed gives the value back, for
  values whose strings are valid UTF-8.
\<close>

datatype json =
    JNull
  | JBool bool
  | JNum string
  | JStr string
  | JArr "json list"
  | JObj "(string \<times> json) list"

section \<open>Printing\<close>

definition backslash :: char where
  "backslash = CHR 0x5C"

definition quote :: char where
  "quote = CHR 0x22"

definition u_escape :: "nat \<Rightarrow> string" where
  "u_escape r =
     [backslash, CHR ''u'', hex_digit (r div 4096), hex_digit (r div 256 mod 16),
      hex_digit (r div 16 mod 16), hex_digit (r mod 16)]"

text \<open>The bytes below 128 that \<open>htmlSafeSet\<close> allows as they are.\<close>

definition html_safe :: "char \<Rightarrow> bool" where
  "html_safe c \<longleftrightarrow> 32 \<le> byte c \<and> c \<notin> {quote, backslash, CHR ''<'', CHR ''>'', CHR ''&''}"

definition escape_ascii :: "char \<Rightarrow> string" where
  "escape_ascii c =
     (if html_safe c then [c]
      else if c = quote \<or> c = backslash then [backslash, c]
      else if byte c = 8 then [backslash, CHR ''b'']
      else if byte c = 12 then [backslash, CHR ''f'']
      else if byte c = 10 then [backslash, CHR ''n'']
      else if byte c = 13 then [backslash, CHR ''r'']
      else if byte c = 9 then [backslash, CHR ''t'']
      else u_escape (byte c))"

definition line_separator :: string where
  "line_separator = [CHR 0xE2, CHR 0x80, CHR 0xA8]"

definition paragraph_separator :: string where
  "paragraph_separator = [CHR 0xE2, CHR 0x80, CHR 0xA9]"

fun json_escape :: "string \<Rightarrow> string" where
  "json_escape [] = []"
| "json_escape (c # cs) =
     (if byte c < 128 then escape_ascii c @ json_escape cs
      else let n = utf8_len (c # cs) in
        if n = 0 then u_escape 65533 @ json_escape cs
        else if c # take (n - 1) cs = line_separator then u_escape 8232 @ json_escape (drop (n - 1) cs)
        else if c # take (n - 1) cs = paragraph_separator then u_escape 8233 @ json_escape (drop (n - 1) cs)
        else (c # take (n - 1) cs) @ json_escape (drop (n - 1) cs))"

declare json_escape.simps(2) [simp del]

definition json_quote :: "string \<Rightarrow> string" where
  "json_quote s = quote # json_escape s @ [quote]"

fun json_print :: "json \<Rightarrow> string"
  and print_elems :: "json list \<Rightarrow> string"
  and print_members :: "(string \<times> json) list \<Rightarrow> string" where
  "json_print JNull = ''null''"
| "json_print (JBool b) = (if b then ''true'' else ''false'')"
| "json_print (JNum l) = l"
| "json_print (JStr s) = json_quote s"
| "json_print (JArr []) = ''[]''"
| "json_print (JArr (x # xs)) = CHR ''['' # json_print x @ print_elems xs"
| "json_print (JObj []) = ''{}''"
| "json_print (JObj ((k, v) # m)) =
     CHR ''{'' # json_quote k @ CHR '':'' # json_print v @ print_members m"
| "print_elems [] = '']''"
| "print_elems (x # xs) = CHR '','' # json_print x @ print_elems xs"
| "print_members [] = ''}''"
| "print_members ((k, v) # m) =
     CHR '','' # json_quote k @ CHR '':'' # json_print v @ print_members m"

section \<open>Reading strings\<close>

definition hex_val :: "char \<Rightarrow> nat option" where
  "hex_val c =
     (let b = byte c in
      if 48 \<le> b \<and> b \<le> 57 then Some (b - 48)
      else if 97 \<le> b \<and> b \<le> 102 then Some (b - 87)
      else if 65 \<le> b \<and> b \<le> 70 then Some (b - 55)
      else None)"

fun hex4 :: "string \<Rightarrow> nat option" where
  "hex4 (a # b # c # d # _) =
     (case (hex_val a, hex_val b, hex_val c, hex_val d) of
        (Some x, Some y, Some z, Some w) \<Rightarrow> Some (4096 * x + 256 * y + 16 * z + w)
      | _ \<Rightarrow> None)"
| "hex4 _ = None"

definition simple_escape :: "char \<Rightarrow> char option" where
  "simple_escape e =
     (if e = quote \<or> e = backslash \<or> e = CHR ''/'' then Some e
      else if e = CHR ''b'' then Some (CHR 0x08)
      else if e = CHR ''f'' then Some (CHR 0x0C)
      else if e = CHR ''n'' then Some (CHR 0x0A)
      else if e = CHR ''r'' then Some (CHR 0x0D)
      else if e = CHR ''t'' then Some (CHR 0x09)
      else None)"

text \<open>A second escape right after a high surrogate, when the two make a rune.\<close>

definition low_surrogate :: "nat \<Rightarrow> string \<Rightarrow> nat option" where
  "low_surrogate hi s =
     (case s of
        b # u # r \<Rightarrow>
          if b = backslash \<and> u = CHR ''u'' then
            (case hex4 r of
               Some lo \<Rightarrow>
                 if 55296 \<le> hi \<and> hi < 56320 \<and> 56320 \<le> lo \<and> lo < 57344
                 then Some (65536 + (hi - 55296) * 1024 + (lo - 56320)) else None
             | None \<Rightarrow> None)
          else None
      | _ \<Rightarrow> None)"

fun prepend :: "'a list \<Rightarrow> ('a list \<times> 'b) option \<Rightarrow> ('a list \<times> 'b) option" where
  "prepend p None = None"
| "prepend p (Some (s, r)) = Some (p @ s, r)"

text \<open>
  \<open>json_unquote s\<close> reads the string literal whose opening quote stands just before \<open>s\<close>: the
  bytes it denotes and the text after the closing quote.
\<close>

fun json_unquote :: "string \<Rightarrow> (string \<times> string) option" where
  "json_unquote [] = None"
| "json_unquote (c # cs) =
     (if c = quote then Some ([], cs)
      else if c = backslash then
        (case cs of
           [] \<Rightarrow> None
         | e # r \<Rightarrow>
             if e = CHR ''u'' then
               (case hex4 r of
                  None \<Rightarrow> None
                | Some u \<Rightarrow>
                    if 55296 \<le> u \<and> u < 57344 then
                      (case low_surrogate u (drop 4 r) of
                         Some v \<Rightarrow> prepend (utf8_encode v) (json_unquote (drop 10 r))
                       | None \<Rightarrow> prepend replacement (json_unquote (drop 4 r)))
                    else prepend (utf8_encode u) (json_unquote (drop 4 r)))
             else (case simple_escape e of
                 None \<Rightarrow> None
               | Some d \<Rightarrow> prepend [d] (json_unquote r)))
      else if byte c < 32 then None
      else if byte c < 128 then prepend [c] (json_unquote cs)
      else let n = utf8_len (c # cs) in
        if n = 0 then prepend replacement (json_unquote cs)
        else prepend (c # take (n - 1) cs) (json_unquote (drop (n - 1) cs)))"

declare json_unquote.simps(2) [simp del]

section \<open>Round trip of strings\<close>

lemma byte_codes [simp]:
  "byte quote = 34" "byte backslash = 92" "byte (CHR ''u'') = 117" "byte (CHR ''/'') = 47"
  "byte (CHR ''b'') = 98" "byte (CHR ''f'') = 102" "byte (CHR ''n'') = 110"
  "byte (CHR ''r'') = 114" "byte (CHR ''t'') = 116"
  by (simp_all add: byte_def quote_def backslash_def)

lemma quote_neq [simp]: "quote \<noteq> backslash" "backslash \<noteq> quote"
  by (simp_all add: quote_def backslash_def)

lemma byte_hex_digit: "d < 16 \<Longrightarrow> byte (hex_digit d) = (if d < 10 then 48 + d else 87 + d)"
  by (simp add: hex_digit_def)

lemma hex_val_digit [simp]: "d < 16 \<Longrightarrow> hex_val (hex_digit d) = Some d"
  by (simp add: hex_val_def byte_hex_digit Let_def)

lemma hex4_digits:
  assumes "r < 65536"
  shows "hex4 (hex_digit (r div 4096) # hex_digit (r div 256 mod 16) #
    hex_digit (r div 16 mod 16) # hex_digit (r mod 16) # s) = Some r"
proof -
  have "r div 4096 < 16" using assms by (simp add: less_mult_imp_div_less)
  moreover have "4096 * (r div 4096) + 256 * (r div 256 mod 16) + 16 * (r div 16 mod 16) + r mod 16 = r"
  proof -
    have q: "r div 256 = r div 16 div 16" "r div 4096 = r div 256 div 16"
      by (simp_all flip: div_mult2_eq)
    have "16 * (r div 16) + r mod 16 = r"
      "16 * (r div 16 div 16) + r div 16 mod 16 = r div 16"
      "16 * (r div 256 div 16) + r div 256 mod 16 = r div 256"
      by (rule mult_div_mod_eq)+
    then show ?thesis unfolding q(2) q(1) [symmetric] by linarith
  qed
  ultimately show ?thesis by simp
qed

lemma unquote_u_escape:
  assumes "r < 55296 \<or> 57344 \<le> r" and "r < 65536"
  shows "json_unquote (u_escape r @ s) = prepend (utf8_encode r) (json_unquote s)"
proof -
  let ?t = "hex_digit (r div 4096) # hex_digit (r div 256 mod 16) #
    hex_digit (r div 16 mod 16) # hex_digit (r mod 16) # s"
  have no: "\<not> (55296 \<le> r \<and> r < 57344)" using assms(1) by arith
  have "u_escape r @ s = backslash # CHR ''u'' # ?t"
    by (simp add: u_escape_def)
  moreover have "drop 4 ?t = s" by simp
  ultimately show ?thesis
    using no hex4_digits [OF assms(2), of s]
    by (simp only: json_unquote.simps quote_neq list.case option.case if_False refl if_True)
qed

lemma unquote_simple:
  "simple_escape e = Some d \<Longrightarrow> e \<noteq> CHR ''u'' \<Longrightarrow>
    json_unquote (backslash # e # s) = prepend [d] (json_unquote s)"
  by (simp add: json_unquote.simps(2) [of backslash])

lemma escape_ascii_cases:
  assumes "byte c < 128"
  shows "escape_ascii c = [c] \<and> html_safe c
    \<or> escape_ascii c = u_escape (byte c)
    \<or> (\<exists>e. escape_ascii c = [backslash, e] \<and> simple_escape e = Some c \<and> e \<noteq> CHR ''u'')"
proof -
  have b: "byte (CHR 0x08) = 8" "byte (CHR 0x0C) = 12" "byte (CHR 0x0A) = 10" "byte (CHR 0x0D) = 13"
    "byte (CHR 0x09) = 9"
    by (simp_all add: byte_def)
  have codes: "byte c = 8 \<longleftrightarrow> c = CHR 0x08" "byte c = 12 \<longleftrightarrow> c = CHR 0x0C" "byte c = 10 \<longleftrightarrow> c = CHR 0x0A"
    "byte c = 13 \<longleftrightarrow> c = CHR 0x0D" "byte c = 9 \<longleftrightarrow> c = CHR 0x09"
    unfolding b [symmetric] byte_inject by (rule refl)+
  show ?thesis
    by (simp add: escape_ascii_def codes simple_escape_def quote_def backslash_def)
qed

lemma unquote_escape_ascii:
  assumes "byte c < 128"
  shows "json_unquote (escape_ascii c @ s) = prepend [c] (json_unquote s)"
  using escape_ascii_cases [OF assms]
proof (elim disjE exE conjE)
  assume "escape_ascii c = [c]" "html_safe c"
  with assms show ?thesis
    by (simp add: html_safe_def json_unquote.simps not_less)
next
  assume "escape_ascii c = u_escape (byte c)"
  with assms show ?thesis
    using unquote_u_escape [of "byte c" s] by (simp add: utf8_encode_def)
next
  fix e
  assume "escape_ascii c = [backslash, e]" "simple_escape e = Some c" "e \<noteq> CHR ''u''"
  then show ?thesis by (simp add: unquote_simple)
qed

lemma unquote_rune:
  assumes "128 \<le> byte c" and "0 < utf8_len (c # cs)"
  shows "json_unquote ((c # take (utf8_len (c # cs) - 1) cs) @ s) =
    prepend (c # take (utf8_len (c # cs) - 1) cs) (json_unquote s)"
proof -
  let ?n = "utf8_len (c # cs)"
  have len: "utf8_len (c # take (?n - 1) cs @ s) = ?n"
    using assms(2) by (rule utf8_len_append)
  have "length (take (?n - 1) cs) = ?n - 1"
    using utf8_len_le [of "c # cs"] by simp
  then show ?thesis
    using assms len by (auto simp: json_unquote.simps(2) [of c] Let_def)
qed

lemma char_literals:
  "char_of (226 :: nat) = CHR 0xE2" "char_of (128 :: nat) = CHR 0x80"
  "char_of (168 :: nat) = CHR 0xA8" "char_of (169 :: nat) = CHR 0xA9"
  by code_simp+

lemma separators_encode:
  "utf8_encode 8232 = line_separator" "utf8_encode 8233 = paragraph_separator"
  by (simp_all add: utf8_encode_def line_separator_def paragraph_separator_def char_literals)

text \<open>What the encoder prints for a valid string, the reader reads back as that string.\<close>

lemma json_unquote_escape:
  "valid_utf8 s \<Longrightarrow> json_unquote (json_escape s @ quote # rest) = Some (s, rest)"
proof (induction s rule: json_escape.induct)
  case 1
  show ?case by (simp add: json_unquote.simps)
next
  case (2 c cs)
  let ?n = "utf8_len (c # cs)" let ?t = "take (?n - 1) cs" let ?d = "drop (?n - 1) cs"
  show ?case
  proof (cases "byte c < 128")
    case True
    with 2 show ?thesis by (simp add: json_escape.simps unquote_escape_ascii)
  next
    case False
    with "2.prems" have pos: "0 < ?n" and valid: "valid_utf8 ?d"
      by (auto simp: valid_utf8.simps)
    have IH: "json_unquote (json_escape ?d @ quote # rest) = Some (?d, rest)"
      using "2.IH" False pos valid by (metis gr_implies_not0)
    have whole: "(c # ?t) @ ?d = c # cs" by simp
    consider "c # ?t = line_separator" | "c # ?t = paragraph_separator"
      | "c # ?t \<noteq> line_separator" "c # ?t \<noteq> paragraph_separator" by blast
    then show ?thesis
    proof cases
      case 1
      then have "json_escape (c # cs) = u_escape 8232 @ json_escape ?d"
        using False pos by (simp add: json_escape.simps Let_def)
      with 1 IH whole show ?thesis
        by (simp add: unquote_u_escape separators_encode)
    next
      case 2
      moreover have "paragraph_separator \<noteq> line_separator"
        by (simp add: paragraph_separator_def line_separator_def)
      ultimately have "json_escape (c # cs) = u_escape 8233 @ json_escape ?d"
        using False pos by (simp add: json_escape.simps Let_def)
      with 2 IH whole show ?thesis
        by (simp add: unquote_u_escape separators_encode)
    next
      case 3
      then have "json_escape (c # cs) = (c # ?t) @ json_escape ?d"
        using False pos by (simp add: json_escape.simps Let_def)
      with False IH pos whole show ?thesis
        using unquote_rune [of c cs "json_escape ?d @ quote # rest"] by simp
    qed
  qed
qed

end
