(* ===== verification/JsonParse.thy ===== *)
theory JsonParse
  imports Json
begin

text \<open>
  Reading JSON values: numbers, the recursive reader with its fuel and nesting limit, and the
  two entry points \<open>json_Unmarshal\<close> (the whole text is one value) and \<open>json_Decode\<close> (the
  first value of a stream, as \<open>json.NewDecoder(r).Decode\<close>).
\<close>

section \<open>White space and numbers\<close>

definition json_space :: "char \<Rightarrow> bool" where
  "json_space c \<longleftrightarrow> byte c = 32 \<or> byte c = 9 \<or> byte c = 10 \<or> byte c = 13"

definition skip_ws :: "string \<Rightarrow> string" where
  "skip_ws s = dropWhile json_space s"

definition span_digits :: "string \<Rightarrow> string \<times> string" where
  "span_digits s = (takeWhile is_digit s, dropWhile is_digit s)"

text \<open>The integer part: a single 0, or digits that do not start with 0.\<close>

definition scan_int :: "string \<Rightarrow> (string \<times> string) option" where
  "scan_int s =
     (case s of
        [] \<Rightarrow> None
      | c # r \<Rightarrow> if c = CHR ''0'' then Some ([c], r)
                 else if is_digit c then Some (span_digits s) else None)"

definition scan_frac :: "string \<Rightarrow> (string \<times> string) option" where
  "scan_frac s =
     (case s of
        [] \<Rightarrow> Some ([], s)
      | c # r \<Rightarrow> if c = CHR ''.'' then
                   (let (d, t) = span_digits r in if d = [] then None else Some (c # d, t))
                 else Some ([], s))"

definition scan_exp :: "string \<Rightarrow> (string \<times> string) option" where
  "scan_exp s =
     (case s of
        [] \<Rightarrow> Some ([], s)
      | c # r \<Rightarrow> if c = CHR ''e'' \<or> c = CHR ''E'' then
                   (let (g, r') = (case r of
                        [] \<Rightarrow> ([], r)
                      | x # y \<Rightarrow> if x = CHR ''+'' \<or> x = CHR ''-'' then ([x], y) else ([], r));
                        (d, t) = span_digits r'
                    in if d = [] then None else Some (c # g @ d, t))
                 else Some ([], s))"

definition scan_number :: "string \<Rightarrow> (string \<times> string) option" where
  "scan_number s =
     (let (g, r) = (case s of [] \<Rightarrow> ([], s) | c # t \<Rightarrow> if c = CHR ''-'' then ([c], t) else ([], s))
      in case scan_int r of
           None \<Rightarrow> None
         | Some (i, r1) \<Rightarrow>
             (case scan_frac r1 of
                None \<Rightarrow> None
              | Some (f, r2) \<Rightarrow>
                  (case scan_exp r2 of
                     None \<Rightarrow> None
                   | Some (e, r3) \<Rightarrow> Some (g @ i @ f @ e, r3))))"

section \<open>Values\<close>

text \<open>
  The three readers take the fuel and the nesting depth still allowed. \<open>parse_value\<close> skips
  white space and reads one value; \<open>parse_elems\<close> reads the elements of an array from the first
  one to the closing bracket; \<open>parse_members\<close> does the same for an object, from the quote of
  the first key on.
\<close>

fun parse_value :: "nat \<Rightarrow> nat \<Rightarrow> string \<Rightarrow> (json \<times> string) option"
  and parse_elems :: "nat \<Rightarrow> nat \<Rightarrow> string \<Rightarrow> (json list \<times> string) option"
  and parse_members :: "nat \<Rightarrow> nat \<Rightarrow> string \<Rightarrow> ((string \<times> json) list \<times> string) option" where
  "parse_value 0 d s = None"
| "parse_value (Suc n) d s =
     (case skip_ws s of
        [] \<Rightarrow> None
      | c # r \<Rightarrow>
          if c = CHR ''{'' then
            (if d = 0 then None
             else case skip_ws r of
                [] \<Rightarrow> None
              | x # t \<Rightarrow> if x = CHR ''}'' then Some (JObj [], t)
                         else map_option (\<lambda>(m, u). (JObj m, u)) (parse_members n (d - 1) (x # t)))
          else if c = CHR ''['' then
            (if d = 0 then None
             else case skip_ws r of
                [] \<Rightarrow> None
              | x # t \<Rightarrow> if x = CHR '']'' then Some (JArr [], t)
                         else map_option (\<lambda>(m, u). (JArr m, u)) (parse_elems n (d - 1) (x # t)))
          else if c = quote then map_option (\<lambda>(t, u). (JStr t, u)) (json_unquote r)
          else if c = CHR ''n'' then
            (if has_prefix (c # r) ''null'' then Some (JNull, drop 3 r) else None)
          else if c = CHR ''t'' then
            (if has_prefix (c # r) ''true'' then Some (JBool True, drop 3 r) else None)
          else if c = CHR ''f'' then
            (if has_prefix (c # r) ''false'' then Some (JBool False, drop 4 r) else None)
          else map_option (\<lambda>(l, u). (JNum l, u)) (scan_number (c # r)))"
| "parse_elems 0 d s = None"
| "parse_elems (Suc n) d s =
     (case parse_value n d s of
        None \<Rightarrow> None
      | Some (v, r) \<Rightarrow>
          (case skip_ws r of
             [] \<Rightarrow> None
           | c # t \<Rightarrow>
               if c = CHR '']'' then Some ([v], t)
               else if c = CHR '','' then map_option (\<lambda>(vs, u). (v # vs, u)) (parse_elems n d t)
               else None))"
| "parse_members 0 d s = None"
| "parse_members (Suc n) d s =
     (case skip_ws s of
        [] \<Rightarrow> None
      | q # k \<Rightarrow>
          if q \<noteq> quote then None
          else case json_unquote k of
              None \<Rightarrow> None
            | Some (key, r) \<Rightarrow>
                (case skip_ws r of
                   [] \<Rightarrow> None
                 | x # y \<Rightarrow>
                     if x \<noteq> CHR '':'' then None
                     else case parse_value n d y of
                         None \<Rightarrow> None
                       | Some (v, z) \<Rightarrow>
                           (case skip_ws z of
                              [] \<Rightarrow> None
                            | c # t \<Rightarrow>
                                if c = CHR ''}'' then Some ([(key, v)], t)
                                else if c = CHR '','' then
                                  map_option (\<lambda>(m, u). ((key, v) # m, u)) (parse_members n d t)
                                else None)))"

definition max_depth :: nat where
  "max_depth = 10000"

definition json_Unmarshal :: "string \<Rightarrow> json option" where
  "json_Unmarshal s =
     (case parse_value (Suc (length s)) max_depth s of
        None \<Rightarrow> None
      | Some (v, r) \<Rightarrow> if skip_ws r = [] then Some v else None)"

definition json_Decode :: "string \<Rightarrow> json option" where
  "json_Decode s = map_option fst (parse_value (Suc (length s)) max_depth s)"

section \<open>Which values read back\<close>

fun json_ok :: "json \<Rightarrow> bool"
  and members_ok :: "(string \<times> json) list \<Rightarrow> bool" where
  "json_ok (JNum l) = (\<exists>i. l = show_int i)"
| "json_ok (JStr s) = valid_utf8 s"
| "json_ok (JArr xs) = list_all json_ok xs"
| "json_ok (JObj m) = members_ok m"
| "json_ok _ = True"
| "members_ok [] = True"
| "members_ok ((k, v) # m) = (valid_utf8 k \<and> json_ok v \<and> members_ok m)"

fun json_depth :: "json \<Rightarrow> nat"
  and elems_depth :: "json list \<Rightarrow> nat"
  and members_depth :: "(string \<times> json) list \<Rightarrow> nat" where
  "json_depth (JArr xs) = Suc (elems_depth xs)"
| "json_depth (JObj m) = Suc (members_depth m)"
| "json_depth _ = 0"
| "elems_depth [] = 0"
| "elems_depth (x # xs) = max (json_depth x) (elems_depth xs)"
| "members_depth [] = 0"
| "members_depth ((k, v) # m) = max (json_depth v) (members_depth m)"

definition num_stop :: "string \<Rightarrow> bool" where
  "num_stop r \<longleftrightarrow>
     (case r of [] \<Rightarrow> True | c # _ \<Rightarrow> \<not> is_digit c \<and> c \<notin> {CHR ''.'', CHR ''e'', CHR ''E''})"

section \<open>Round trip\<close>

lemma quote_chars [simp]:
  "quote \<noteq> CHR ''n''" "quote \<noteq> CHR ''t''" "quote \<noteq> CHR ''f''" "quote \<noteq> CHR ''{''"
  "quote \<noteq> CHR ''[''" "quote \<noteq> CHR ''}''" "quote \<noteq> CHR '']''"
  by (simp_all add: quote_def)

lemmas quote_chars' [simp] = quote_chars [symmetric]

lemma digit_simps [simp]:
  "\<not> is_digit (CHR '','')" "\<not> is_digit (CHR '']'')" "\<not> is_digit (CHR ''}'')" "\<not> is_digit (CHR ''n'')"
  "\<not> is_digit (CHR ''t'')" "\<not> is_digit (CHR ''f'')" "\<not> is_digit (CHR ''{'')" "\<not> is_digit (CHR ''['')"
  "\<not> is_digit quote"
  by (simp_all add: is_digit_def byte_def quote_def)

lemma num_stop_simps [simp]:
  "num_stop []" "num_stop (CHR '','' # r)" "num_stop (CHR '']'' # r)" "num_stop (CHR ''}'' # r)"
  by (simp_all add: num_stop_def)

lemma span_digits_stop: "num_stop r \<Longrightarrow> \<forall>c \<in> set l. is_digit c \<Longrightarrow> span_digits (l @ r) = (l, r)"
  by (cases r) (auto simp: span_digits_def num_stop_def takeWhile_all dropWhile_all)

lemma show_nat_0 [simp]: "show_nat 0 = ''0''"
  by (simp add: show_nat.simps digit_char_def char_of_def) (code_simp | simp)

lemma scan_int_show_nat:
  assumes "num_stop r"
  shows "scan_int (show_nat n @ r) = Some (show_nat n, r)"
proof (cases "n = 0")
  case True
  then show ?thesis by (simp add: scan_int_def)
next
  case False
  obtain c s where c: "show_nat n = c # s" "is_digit c"
    using show_nat_Cons by blast
  moreover have "c \<noteq> CHR ''0''"
    using show_nat_hd [of n] False c(1) by simp
  moreover have "span_digits (show_nat n @ r) = (show_nat n, r)"
    using assms show_nat_digits by (rule span_digits_stop)
  ultimately show ?thesis by (simp add: scan_int_def)
qed

lemma scan_rest_stop: "num_stop r \<Longrightarrow> scan_frac r = Some ([], r) \<and> scan_exp r = Some ([], r)"
  by (cases r) (auto simp: scan_frac_def scan_exp_def num_stop_def)

lemma scan_number_show_int:
  assumes "num_stop r"
  shows "scan_number (show_int i @ r) = Some (show_int i, r)"
proof (cases "i < 0")
  case True
  then show ?thesis
    using assms scan_int_show_nat [OF assms] scan_rest_stop [OF assms]
    by (simp add: scan_number_def show_int_def)
next
  case False
  obtain c s where c: "show_nat (nat i) = c # s" "is_digit c"
    using show_nat_Cons by blast
  then have "c \<noteq> CHR ''-''" by auto
  with False c show ?thesis
    using scan_int_show_nat [OF assms, of "nat i"] scan_rest_stop [OF assms]
    by (simp add: scan_number_def show_int_def)
qed

text \<open>A printed value starts with a character that is not white space.\<close>

lemma show_int_Cons: "\<exists>c s. show_int i = c # s \<and> (is_digit c \<or> c = CHR ''-'')"
  using show_nat_Cons [of "nat i"] by (auto simp: show_int_def)

lemma json_space_simps [simp]:
  "\<not> json_space (CHR ''n'')" "\<not> json_space (CHR ''t'')" "\<not> json_space (CHR ''f'')"
  "\<not> json_space (CHR ''['')" "\<not> json_space (CHR ''{'')" "\<not> json_space (CHR '']'')"
  "\<not> json_space (CHR ''}'')" "\<not> json_space (CHR '','')" "\<not> json_space (CHR '':'')"
  "\<not> json_space quote" "\<not> json_space (CHR ''-'')" "is_digit c \<Longrightarrow> \<not> json_space c"
  by (auto simp: json_space_def byte_def quote_def is_digit_def)

lemma skip_ws_Cons [simp]: "\<not> json_space c \<Longrightarrow> skip_ws (c # s) = c # s"
  by (simp add: skip_ws_def)

lemma skip_ws_Nil [simp]: "skip_ws [] = []"
  by (simp add: skip_ws_def)

lemma number_start:
  assumes "is_digit c \<or> c = CHR ''-''"
  shows "c \<noteq> CHR ''{'' \<and> c \<noteq> CHR ''['' \<and> c \<noteq> quote \<and> c \<noteq> CHR ''n'' \<and> c \<noteq> CHR ''t'' \<and> c \<noteq> CHR ''f'' \<and>
    c \<noteq> CHR '']'' \<and> c \<noteq> CHR ''}'' \<and> \<not> json_space c"
  using assms by (elim disjE) (auto, simp add: quote_def)

lemma parse_number:
  assumes "num_stop r"
  shows "parse_value (Suc n) d (show_int i @ r) = Some (JNum (show_int i), r)"
proof -
  obtain c s where c: "show_int i = c # s" "is_digit c \<or> c = CHR ''-''"
    using show_int_Cons by blast
  then have "scan_number (c # s @ r) = Some (show_int i, r)"
    using scan_number_show_int [OF assms, of i] by simp
  with c number_start [OF c(2)] show ?thesis by simp
qed

lemma json_start: "json_ok j \<Longrightarrow> \<exists>c s. json_print j = c # s \<and> \<not> json_space c \<and> c \<noteq> CHR '']'' \<and> c \<noteq> CHR ''}''"
proof (cases j)
  case (JNum l)
  moreover assume "json_ok j"
  ultimately obtain i where "l = show_int i" by auto
  moreover obtain c s where "show_int i = c # s" "is_digit c \<or> c = CHR ''-''"
    using show_int_Cons by blast
  ultimately show ?thesis using JNum number_start [of c] by auto
next
  case (JArr xs)
  then show ?thesis by (cases xs) auto
next
  case (JObj m)
  then show ?thesis by (cases m) auto
qed (auto simp: json_quote_def)

lemma print_stop: "num_stop (print_elems xs @ r)" "num_stop (print_members m @ r)"
  by (cases xs; simp) (cases m; auto)

lemma print_length: "0 < length (print_elems xs)" "0 < length (print_members m)"
  by (cases xs; simp) (cases m; auto)

text \<open>
  Reading back what was printed, for a value, for an array whose first element reads back and
  for an object whose first value reads back.
\<close>

definition reads :: "nat \<Rightarrow> json \<Rightarrow> bool" where
  "reads d j \<longleftrightarrow> (\<forall>n r. length (json_print j) < n \<longrightarrow> num_stop r \<longrightarrow>
     parse_value n d (json_print j @ r) = Some (j, r))"

lemma readsD: "reads d j \<Longrightarrow> length (json_print j) < n \<Longrightarrow> num_stop r \<Longrightarrow>
    parse_value n d (json_print j @ r) = Some (j, r)"
  by (simp add: reads_def)

lemma readsI:
  assumes "\<And>n r. length (json_print j) \<le> n \<Longrightarrow> num_stop r \<Longrightarrow>
    parse_value (Suc n) d (json_print j @ r) = Some (j, r)"
  shows "reads d j"
  using assms by (auto simp: reads_def elim!: less_natE)

lemma parse_elems_step:
  assumes x: "reads d x" and n: "length (json_print x @ print_elems xs) < n"
    and rest: "\<And>y ys n'. xs = y # ys \<Longrightarrow> length (json_print y @ print_elems ys) < n' \<Longrightarrow>
      parse_elems n' d (json_print y @ print_elems ys @ r) = Some (y # ys, r)"
  shows "parse_elems n d (json_print x @ print_elems xs @ r) = Some (x # xs, r)"
proof -
  obtain n' where n': "n = Suc n'" using n by (cases n) auto
  have "parse_value n' d (json_print x @ print_elems xs @ r) = Some (x, print_elems xs @ r)"
    using x n n' print_length(1) [of xs] by (intro readsD print_stop) (simp_all del: length_greater_0_conv)
  moreover have "parse_elems n' d (json_print y @ print_elems ys @ r) = Some (y # ys, r)"
    if "xs = y # ys" for y ys
    using rest [OF that, of n'] n n' that by simp
  ultimately show ?thesis by (cases xs) (simp_all add: n')
qed

lemma parse_members_step:
  assumes v: "reads d v" and k: "valid_utf8 k"
    and n: "length (json_quote k @ CHR '':'' # json_print v @ print_members m) < n"
    and rest: "\<And>k' v' m' n'. m = (k', v') # m' \<Longrightarrow>
      length (json_quote k' @ CHR '':'' # json_print v' @ print_members m') < n' \<Longrightarrow>
      parse_members n' d (json_quote k' @ CHR '':'' # json_print v' @ print_members m' @ r) = Some (m, r)"
  shows "parse_members n d (json_quote k @ CHR '':'' # json_print v @ print_members m @ r) = Some ((k, v) # m, r)"
proof -
  obtain n' where n': "n = Suc n'" using n by (cases n) auto
  have key: "json_unquote (json_escape k @ quote # s) = Some (k, s)" for s
    using k by (rule json_unquote_escape)
  have val: "parse_value n' d (json_print v @ print_members m @ r) = Some (v, print_members m @ r)"
    using v n n' print_length(2) [of m] by (intro readsD print_stop) (simp_all del: length_greater_0_conv)
  have step: "parse_members n' d (json_quote k' @ CHR '':'' # json_print v' @ print_members m' @ r) = Some (m, r)"
    if "m = (k', v') # m'" for k' v' m'
    using rest [OF that, of n'] n n' that by simp
  show ?thesis
  proof (cases m)
    case Nil
    with key val show ?thesis by (simp add: n' json_quote_def)
  next
    case (Cons kv m')
    obtain k' v' where "kv = (k', v')" by (cases kv)
    with Cons key val step show ?thesis by (simp add: n' json_quote_def)
  qed
qed

lemma json_print_reads:
  "json_ok j \<Longrightarrow> json_depth j \<le> d \<Longrightarrow> reads d j"
  "list_all json_ok xs \<Longrightarrow> elems_depth xs \<le> d \<Longrightarrow> reads d e \<Longrightarrow>
    length (json_print e @ print_elems xs) < n \<Longrightarrow>
    parse_elems n d (json_print e @ print_elems xs @ r) = Some (e # xs, r)"
  "members_ok m \<Longrightarrow> members_depth m \<le> d \<Longrightarrow> reads d e \<Longrightarrow> valid_utf8 key \<Longrightarrow>
    length (json_quote key @ CHR '':'' # json_print e @ print_members m) < n \<Longrightarrow>
    parse_members n d (json_quote key @ CHR '':'' # json_print e @ print_members m @ r) = Some ((key, e) # m, r)"
proof (induction j and xs and m arbitrary: d and d e n r and d e key n r
    rule: json_print_print_elems_print_members.induct)
  case 1
  show ?case by (intro readsI) (simp add: has_prefix_def)
next
  case (2 b)
  show ?case by (intro readsI) (simp add: has_prefix_def)
next
  case (3 l)
  then obtain i where "l = show_int i" by auto
  then show ?case by (intro readsI) (simp only: json_print.simps parse_number)
next
  case (4 s)
  then have "json_unquote (json_escape s @ quote # r) = Some (s, r)" for r
    by (simp add: json_unquote_escape)
  then show ?case by (intro readsI) (simp add: json_quote_def)
next
  case 5
  then show ?case by (intro readsI) (simp add: Suc_le_eq)
next
  case (6 x xs)
  obtain d' where d: "d = Suc d'" using "6.prems" by (cases d) auto
  have x: "reads d' x"
    using "6.prems" d by (intro "6.IH"(1)) auto
  obtain c s where c: "json_print x = c # s" "\<not> json_space c" "c \<noteq> CHR '']''"
    using json_start [of x] "6.prems" by auto
  have "parse_elems n d' (json_print x @ print_elems xs @ r) = Some (x # xs, r)"
    if "length (json_print (JArr (x # xs))) \<le> n" for n r
    using "6.prems" d x that by (intro "6.IH"(2)) auto
  with c d show ?case by (intro readsI) simp
next
  case 7
  then show ?case by (intro readsI) (simp add: Suc_le_eq)
next
  case (8 k v m)
  obtain d' where d: "d = Suc d'" using "8.prems" by (cases d) auto
  have v: "reads d' v"
    using "8.prems" d by (intro "8.IH"(1)) auto
  have "parse_members n d' (json_quote k @ CHR '':'' # json_print v @ print_members m @ r) = Some ((k, v) # m, r)"
    if "length (json_print (JObj ((k, v) # m))) \<le> n" for n r
    using "8.prems" d v that by (intro "8.IH"(2)) auto
  then show ?case unfolding d by (intro readsI) (simp add: json_quote_def)
next
  case 9
  show ?case by (rule parse_elems_step) (use "9.prems" in simp_all)
next
  case (10 x xs)
  have x: "reads d x"
    using "10.prems" by (intro "10.IH"(1)) auto
  show ?case
  proof (rule parse_elems_step)
    fix y ys n' assume eq: "x # xs = y # ys" and len: "length (json_print y @ print_elems ys) < n'"
    have "parse_elems n' d (json_print x @ print_elems xs @ r) = Some (x # xs, r)"
      by (rule "10.IH"(2)) (use eq len "10.prems" x in simp_all)
    with eq show "parse_elems n' d (json_print y @ print_elems ys @ r) = Some (y # ys, r)" by simp
  qed (use "10.prems" in simp_all)
next
  case 11
  show ?case by (rule parse_members_step) (use "11.prems" in simp_all)
next
  case (12 k v m)
  have v: "reads d v"
    using "12.prems" by (intro "12.IH"(1)) auto
  show ?case
  proof (rule parse_members_step)
    fix k' v' m' n' assume eq: "(k, v) # m = (k', v') # m'"
      and len: "length (json_quote k' @ CHR '':'' # json_print v' @ print_members m') < n'"
    have "parse_members n' d (json_quote k @ CHR '':'' # json_print v @ print_members m @ r) = Some ((k, v) # m, r)"
      by (rule "12.IH"(2)) (use eq len "12.prems" v in simp_all)
    with eq show "parse_members n' d (json_quote k' @ CHR '':'' # json_print v' @ print_members m' @ r)
        = Some ((k, v) # m, r)" by simp
  qed (use "12.prems" in simp_all)
qed

text \<open>The text of a document that is an object or an array stops anywhere.\<close>

theorem json_roundtrip:
  assumes "json_ok j" and "json_depth j \<le> max_depth"
  shows "json_Unmarshal (json_print j) = Some j"
proof -
  have "parse_value (Suc (length (json_print j))) max_depth (json_print j @ []) = Some (j, [])"
    by (rule readsD [OF json_print_reads(1) [OF assms]]) simp_all
  then show ?thesis by (simp add: json_Unmarshal_def)
qed

theorem json_stream_roundtrip:
  assumes "json_ok j" and "json_depth j \<le> max_depth" and "num_stop r"
  shows "json_Decode (json_print j @ r) = Some j"
  using readsD [OF json_print_reads(1) [OF assms(1,2)] _ assms(3), of "Suc (length (json_print j @ r))"]
  by (simp add: json_Decode_def)

section \<open>The fuel is enough\<close>

text \<open>Every reader consumes at least one character of what it reads.\<close>

lemma prepend_Some [returns]: "prepend p m = Some (t, r) \<longleftrightarrow> (\<exists>t'. m = Some (t', r) \<and> t = p @ t')"
  by (cases m) auto

lemma json_unquote_length: "json_unquote s = Some (t, r) \<Longrightarrow> length r < length s"
proof (induction s arbitrary: t rule: length_induct)
  case (1 s)
  then obtain c cs where s: "s = c # cs" by (cases s) auto
  show ?case
  proof (rule ccontr)
    assume long: "\<not> length r < length s"
    have no: "json_unquote u \<noteq> Some (t', r)" if "length u \<le> length cs" for u t'
    proof
      assume "json_unquote u = Some (t', r)"
      moreover from that have "length u < length s" by (simp add: s)
      ultimately have "length r < length u" using 1(1) by blast
      with long \<open>length u < length s\<close> show False by simp
    qed
    from 1(2) show False
      unfolding s json_unquote.simps(2) [of c]
      by (auto simp: returns Let_def no split: if_splits list.splits option.splits)
         (use long in \<open>simp add: s\<close>)
  qed
qed

lemma span_digits_length: "span_digits s = (l, r) \<Longrightarrow> length r \<le> length s"
  by (auto simp: span_digits_def length_dropWhile_le)

lemma skip_ws_length: "length (skip_ws s) \<le> length s"
  by (simp add: skip_ws_def length_dropWhile_le)

lemma skip_ws_Cons_length: "skip_ws s = c # r \<Longrightarrow> length r < length s"
  using skip_ws_length [of s] by simp

lemma scan_int_length: "scan_int s = Some (l, r) \<Longrightarrow> length r < length s"
  by (cases s) (auto simp: scan_int_def span_digits_def length_dropWhile_le less_Suc_eq_le split: if_splits)

lemma scan_frac_length: "scan_frac s = Some (l, r) \<Longrightarrow> length r \<le> length s"
  by (cases s) (auto simp: scan_frac_def Let_def dest!: span_digits_length split: if_splits prod.splits)

lemma scan_exp_length: "scan_exp s = Some (l, r) \<Longrightarrow> length r \<le> length s"
  by (cases s)
     (auto simp: scan_exp_def Let_def dest!: span_digits_length split: if_splits prod.splits list.splits)

lemma scan_number_length: "scan_number s = Some (l, r) \<Longrightarrow> length r < length s"
  by (cases s)
     (auto simp: scan_number_def Let_def split: if_splits option.splits
        dest!: scan_int_length scan_frac_length scan_exp_length)

text \<open>
  A reader that succeeds consumes text, and succeeds in the same way with any fuel that is at
  least the number of characters it consumes.
\<close>

lemma parse_consumes:
  "parse_value n d s = Some (v, r) \<Longrightarrow> length r < length s \<and>
    (\<forall>k. length s - length r \<le> k \<longrightarrow> parse_value k d s = Some (v, r))"
  "parse_elems n d s = Some (vs, r) \<Longrightarrow> length r < length s \<and>
    (\<forall>k. length s - length r \<le> k \<longrightarrow> parse_elems k d s = Some (vs, r))"
  "parse_members n d s = Some (m, r) \<Longrightarrow> length r < length s \<and>
    (\<forall>k. length s - length r \<le> k \<longrightarrow> parse_members k d s = Some (m, r))"
proof (induction n d s and n d s and n d s arbitrary: v r and vs r and m r
    rule: parse_value_parse_elems_parse_members.induct)
  case (2 n d s)
  from "2.prems" obtain c t where s: "skip_ws s = c # t" by (cases "skip_ws s") auto
  have t: "length t < length s" using s by (rule skip_ws_Cons_length)
  have goal: ?case if less: "length r < length s"
    and same: "\<And>k. length s - length r \<le> Suc k \<Longrightarrow> parse_value (Suc k) d s = Some (v, r)"
  proof -
    have "parse_value k d s = Some (v, r)" if k: "length s - length r \<le> k" for k
    proof -
      obtain k' where "k = Suc k'" using k less by (cases k) auto
      with same k show ?thesis by blast
    qed
    with less show ?thesis by blast
  qed
  consider "c = CHR ''{''" | "c = CHR ''[''" | "c \<noteq> CHR ''{''" "c \<noteq> CHR ''[''" by blast
  then show ?case
  proof cases
    case 1
    with "2.prems" s obtain x y where x: "skip_ws t = x # y" and d: "d \<noteq> 0"
      by (cases "skip_ws t") (auto split: if_splits)
    have y: "length y < length t" using x by (rule skip_ws_Cons_length)
    show ?thesis
    proof (cases "x = CHR ''}''")
      case True
      with 1 "2.prems" s x d y t show ?thesis by (intro goal) auto
    next
      case False
      with 1 "2.prems" s x d obtain m where m: "parse_members n (d - 1) (x # y) = Some (m, r)" "v = JObj m"
        by auto
      have IH: "length r < length (x # y)"
        "\<And>k. length (x # y) - length r \<le> k \<Longrightarrow> parse_members k (d - 1) (x # y) = Some (m, r)"
        using "2.IH"(1) [OF s 1 d x False m(1)] by auto
      from IH(1) t y have "length r < length s" by simp
      moreover have "parse_value (Suc k) d s = Some (v, r)" if "length s - length r \<le> Suc k" for k
        using IH(2) [of k] that IH(1) t y 1 s x d False m(2) by simp
      ultimately show ?thesis by (rule goal)
    qed
  next
    case 2
    with "2.prems" s obtain x y where x: "skip_ws t = x # y" and d: "d \<noteq> 0"
      by (cases "skip_ws t") (auto split: if_splits)
    have y: "length y < length t" using x by (rule skip_ws_Cons_length)
    show ?thesis
    proof (cases "x = CHR '']''")
      case True
      with 2 "2.prems" s x d y t show ?thesis by (intro goal) auto
    next
      case False
      with 2 "2.prems" s x d obtain m where m: "parse_elems n (d - 1) (x # y) = Some (m, r)" "v = JArr m"
        by auto
      have IH: "length r < length (x # y)"
        "\<And>k. length (x # y) - length r \<le> k \<Longrightarrow> parse_elems k (d - 1) (x # y) = Some (m, r)"
        using "2.IH"(2) [OF s _ 2 d x False m(1)] 2 by auto
      from IH(1) t y have "length r < length s" by simp
      moreover have "parse_value (Suc k) d s = Some (v, r)" if "length s - length r \<le> Suc k" for k
        using IH(2) [of k] that IH(1) t y 2 s x d False m(2) by simp
      ultimately show ?thesis by (rule goal)
    qed
  next
    case 3
    with "2.prems" s t have "length r < length s"
      by (auto split: if_splits dest!: json_unquote_length scan_number_length)
    moreover have "parse_value (Suc k) d s = Some (v, r)" for k
      using 3 "2.prems" s by simp
    ultimately show ?thesis by (intro goal)
  qed
next
  case (4 n d s)
  from "4.prems" obtain v t where v: "parse_value n d s = Some (v, t)"
    by (auto split: option.splits)
  then obtain c u where c: "skip_ws t = c # u"
    using "4.prems" by (cases "skip_ws t") auto
  have IH: "length t < length s" "\<And>k. length s - length t \<le> k \<Longrightarrow> parse_value k d s = Some (v, t)"
    using "4.IH"(1) [OF v] by auto
  have u: "length u < length t" using c by (rule skip_ws_Cons_length)
  show ?case
  proof (cases "c = CHR '']''")
    case True
    with "4.prems" v c have r: "r = u" "vs = [v]" by auto
    have "parse_elems k d s = Some (vs, r)" if le: "length s - length r \<le> k" for k
    proof -
      obtain k' where "k = Suc k'" using le IH(1) u r by (cases k) auto
      with le IH u r c True show ?thesis by simp
    qed
    with IH(1) u r show ?thesis by auto
  next
    case False
    with "4.prems" v c obtain vs' where c': "c = CHR '',''" and vs: "vs = v # vs'"
      and rest: "parse_elems n d u = Some (vs', r)"
      by (auto split: if_splits)
    have IH2: "length r < length u" "\<And>k. length u - length r \<le> k \<Longrightarrow> parse_elems k d u = Some (vs', r)"
      using "4.IH"(2) [OF v refl c False c' rest] by blast+
    have "parse_elems k d s = Some (vs, r)" if le: "length s - length r \<le> k" for k
    proof -
      obtain k' where "k = Suc k'" using le IH(1) u IH2(1) by (cases k) auto
      with le IH u IH2 c c' vs show ?thesis by simp
    qed
    with IH(1) u IH2(1) show ?thesis by auto
  qed
next
  case (6 n d s)
  from "6.prems" obtain kt where s: "skip_ws s = quote # kt"
    by (cases "skip_ws s") (auto split: if_splits)
  from "6.prems" s obtain key t where k: "json_unquote kt = Some (key, t)"
    by (auto split: option.splits)
  from "6.prems" s k obtain y where t: "skip_ws t = CHR '':'' # y"
    by (cases "skip_ws t") (auto split: if_splits)
  from "6.prems" s k t obtain e z where e: "parse_value n d y = Some (e, z)"
    by (auto split: option.splits)
  from "6.prems" s k t e obtain c u where c: "skip_ws z = c # u"
    by (cases "skip_ws z") auto
  have IH: "length z < length y" "\<And>k. length y - length z \<le> k \<Longrightarrow> parse_value k d y = Some (e, z)"
    using "6.IH"(1) [OF s _ k refl t _ e] by auto
  have y: "length y < length s"
    using skip_ws_Cons_length [OF s] json_unquote_length [OF k] skip_ws_Cons_length [OF t] by simp
  have u: "length u < length z" using c by (rule skip_ws_Cons_length)
  show ?case
  proof (cases "c = CHR ''}''")
    case True
    with "6.prems" s k t e c have r: "r = u" "m = [(key, e)]" by auto
    have "parse_members j d s = Some (m, r)" if le: "length s - length r \<le> j" for j
    proof -
      obtain j' where "j = Suc j'" using le IH(1) u y r by (cases j) auto
      with le IH u r y s k t c True show ?thesis by simp
    qed
    with IH(1) u y r show ?thesis by auto
  next
    case False
    with "6.prems" s k t e c obtain m' where c': "c = CHR '',''" and m: "m = (key, e) # m'"
      and rest: "parse_members n d u = Some (m', r)"
      by (auto split: if_splits)
    have IH2: "length r < length u" "\<And>k. length u - length r \<le> k \<Longrightarrow> parse_members k d u = Some (m', r)"
      using "6.IH"(2) [OF s _ k refl t _ e refl c False c' rest] by blast+
    have "parse_members j d s = Some (m, r)" if le: "length s - length r \<le> j" for j
    proof -
      obtain j' where "j = Suc j'" using le IH(1) u y IH2(1) by (cases j) auto
      with le IH u y IH2 s k t c c' m show ?thesis by simp
    qed
    with IH(1) u y IH2(1) show ?thesis by auto
  qed
qed simp_all

text \<open>
  The fuel of the entry points, one more than the length of the text, gives the result of any
  other amount of fuel that gives one.
\<close>

theorem parse_value_fuel:
  "parse_value n d s = Some (v, r) \<Longrightarrow> parse_value (Suc (length s)) d s = Some (v, r)"
  by (drule parse_consumes(1)) (auto simp del: parse_value.simps)

end
