(* ===== verification/JsonStruct.thy ===== *)
theory JsonStruct
  imports JsonParse
begin

text \<open>
  How \<open>encoding/json\<close> moves between JSON objects and Go structs. A struct type is a table of its
  field names with, for each, a setter from a JSON value. \<open>dec_struct\<close> follows \<open>(*decodeState).object\<close>:
  members in order, an exact match of the name first and then one up to case, unknown names skipped,
  \<open>null\<close> leaves the field as it is. A setter that refuses a value (\<open>UnmarshalTypeError\<close>) makes the whole
  decoding fail: Go goes on with the other members, but the callers here discard what was read.
\<close>

text \<open>
  \<open>foldName\<close>: upper case; besides ASCII letters, only the long s (C5 BF) and the Kelvin sign
  (E2 84 AA) fold to an ASCII letter, and field names are ASCII.
\<close>

fun fold_name :: "string \<Rightarrow> string" where
  "fold_name [] = []"
| "fold_name (c # cs) =
     (if byte c < 128 then upper_char c # fold_name cs
      else if c = CHR 0xC5 \<and> take 1 cs = [CHR 0xBF] then CHR ''S'' # fold_name (drop 1 cs)
      else if c = CHR 0xE2 \<and> take 2 cs = [CHR 0x84, CHR 0xAA] then CHR ''K'' # fold_name (drop 2 cs)
      else c # fold_name cs)"

type_synonym 'a setter = "json \<Rightarrow> 'a \<Rightarrow> 'a option"
type_synonym 'a fields = "(string \<times> 'a setter) list"

definition find_field :: "'a fields \<Rightarrow> string \<Rightarrow> 'a setter option" where
  "find_field tbl k =
     (case map_of tbl k of
        Some f \<Rightarrow> Some f
      | None \<Rightarrow> map_of (map (\<lambda>(n, f). (fold_name n, f)) tbl) (fold_name k))"

fun dec_members :: "'a fields \<Rightarrow> (string \<times> json) list \<Rightarrow> 'a \<Rightarrow> 'a option" where
  "dec_members tbl [] x = Some x"
| "dec_members tbl ((k, v) # m) x =
     (case find_field tbl k of
        None \<Rightarrow> dec_members tbl m x
      | Some f \<Rightarrow> (case f v x of None \<Rightarrow> None | Some y \<Rightarrow> dec_members tbl m y))"

definition dec_struct :: "'a fields \<Rightarrow> 'a setter" where
  "dec_struct tbl j x =
     (case j of JNull \<Rightarrow> Some x | JObj m \<Rightarrow> dec_members tbl m x | _ \<Rightarrow> None)"

section \<open>Setters of the basic kinds\<close>

definition dec_string :: "(string \<Rightarrow> 'a \<Rightarrow> 'a) \<Rightarrow> 'a setter" where
  "dec_string upd j x = (case j of JStr s \<Rightarrow> Some (upd s x) | JNull \<Rightarrow> Some x | _ \<Rightarrow> None)"

definition dec_bool :: "(bool \<Rightarrow> 'a \<Rightarrow> 'a) \<Rightarrow> 'a setter" where
  "dec_bool upd j x = (case j of JBool b \<Rightarrow> Some (upd b x) | JNull \<Rightarrow> Some x | _ \<Rightarrow> None)"

definition dec_uint64 :: "(uint64 \<Rightarrow> 'a \<Rightarrow> 'a) \<Rightarrow> 'a setter" where
  "dec_uint64 upd j x =
     (case j of
        JNum l \<Rightarrow> map_option (\<lambda>n. upd (of_nat n) x) (parse_uint 64 l)
      | JNull \<Rightarrow> Some x | _ \<Rightarrow> None)"

definition dec_uint8 :: "(uint8 \<Rightarrow> 'a \<Rightarrow> 'a) \<Rightarrow> 'a setter" where
  "dec_uint8 upd j x =
     (case j of
        JNum l \<Rightarrow> map_option (\<lambda>n. upd (of_nat n) x) (parse_uint 8 l)
      | JNull \<Rightarrow> Some x | _ \<Rightarrow> None)"

definition dec_int :: "(int \<Rightarrow> 'a \<Rightarrow> 'a) \<Rightarrow> 'a setter" where
  "dec_int upd j x =
     (case j of
        JNum l \<Rightarrow> map_option (\<lambda>n. upd n x) (parse_int 64 l)
      | JNull \<Rightarrow> Some x | _ \<Rightarrow> None)"

text \<open>A \<open>map[string]interface{}\<close>: members are stored by key, \<open>null\<close> makes the map nil.\<close>

fun put_members :: "(string \<times> json) list \<Rightarrow> (string \<times> json) list \<Rightarrow> (string \<times> json) list" where
  "put_members [] m = m"
| "put_members ((k, v) # kvs) m = put_members kvs (AList.update k v m)"

definition dec_map ::
  "('a \<Rightarrow> (string \<times> json) list) \<Rightarrow> ((string \<times> json) list \<Rightarrow> 'a \<Rightarrow> 'a) \<Rightarrow> 'a setter" where
  "dec_map get upd j x =
     (case j of
        JObj m \<Rightarrow> Some (upd (put_members m (get x)) x)
      | JNull \<Rightarrow> Some (upd [] x) | _ \<Rightarrow> None)"

definition dec_sub :: "('a \<Rightarrow> 'b) \<Rightarrow> ('b \<Rightarrow> 'a \<Rightarrow> 'a) \<Rightarrow> 'b setter \<Rightarrow> 'a setter" where
  "dec_sub get upd dec j x = map_option (\<lambda>y. upd y x) (dec j (get x))"

section \<open>Printing fields\<close>

definition omit_str :: "string \<Rightarrow> string \<Rightarrow> (string \<times> json) list" where
  "omit_str k s = (if s = [] then [] else [(k, JStr s)])"

definition num64 :: "uint64 \<Rightarrow> json" where
  "num64 w = JNum (show_nat (unat w))"

definition num8 :: "uint8 \<Rightarrow> json" where
  "num8 w = JNum (show_nat (unat w))"

definition num_int :: "int \<Rightarrow> json" where
  "num_int i = JNum (show_int i)"

definition int64_range :: "int \<Rightarrow> bool" where
  "int64_range i \<longleftrightarrow> - (2 ^ 63) \<le> i \<and> i < 2 ^ 63"

lemma show_nat_int: "show_nat n = show_int (int n)"
  by (simp add: show_int_def)

lemma json_ok_num [simp]: "json_ok (num64 w)" "json_ok (num8 v)" "json_ok (num_int i)"
  unfolding num64_def num8_def num_int_def json_ok.simps by (blast intro: show_nat_int)+

lemma depth_num [simp]: "json_depth (num64 w) = 0" "json_depth (num8 v) = 0" "json_depth (num_int i) = 0"
  by (simp_all add: num64_def num8_def num_int_def)

lemma members_ok_append [simp]: "members_ok (m @ n) \<longleftrightarrow> members_ok m \<and> members_ok n"
  by (induction m) auto

lemma members_depth_append [simp]: "members_depth (m @ n) = max (members_depth m) (members_depth n)"
  by (induction m) auto

lemma omit_str_ok [simp]: "valid_utf8 k \<Longrightarrow> valid_utf8 s \<Longrightarrow> members_ok (omit_str k s)"
  by (simp add: omit_str_def)

lemma omit_str_depth [simp]: "members_depth (omit_str k s) = 0"
  by (simp add: omit_str_def)

lemma dec_string_JStr [simp]: "dec_string upd (JStr s) x = Some (upd s x)"
  by (simp add: dec_string_def)

lemma dec_bool_JBool [simp]: "dec_bool upd (JBool b) x = Some (upd b x)"
  by (simp add: dec_bool_def)

lemma dec_uint64_num [simp]: "dec_uint64 upd (num64 w) x = Some (upd w x)"
proof -
  have "unat w < 2 ^ 64" by (rule order_less_le_trans [OF unsigned_less]) simp
  then show ?thesis by (simp only: dec_uint64_def num64_def json.case parse_uint_show_nat) simp
qed

lemma dec_uint8_num [simp]: "dec_uint8 upd (num8 w) x = Some (upd w x)"
proof -
  have "unat w < 2 ^ 8" by (rule order_less_le_trans [OF unsigned_less]) simp
  then show ?thesis by (simp only: dec_uint8_def num8_def json.case parse_uint_show_nat) simp
qed

lemma dec_int_num [simp]: "int64_range i \<Longrightarrow> dec_int upd (num_int i) x = Some (upd i x)"
  by (simp add: dec_int_def num_int_def int64_range_def)

lemma dec_members_append:
  "dec_members tbl (m @ n) x =
     (case dec_members tbl m x of None \<Rightarrow> None | Some y \<Rightarrow> dec_members tbl n y)"
  by (induction m arbitrary: x) (auto split: option.splits)

end
