(* ===== verification/Types.thy ===== *)
theory Types
  imports JsonStruct
begin

text \<open>
  \<open>facilitator/types.go\<close>: the wire types as records (field prefixes \<open>a_\<close>, \<open>pp_\<close>, \<open>pr_\<close> ... stand for
  the receivers the code reads them through), the scheme and error-code constants, and for each
  struct the two directions of \<open>encoding/json\<close> under its tags: \<open><type>_json\<close> is what \<open>json.Marshal\<close>
  prints (\<open>omitempty\<close> included), \<open><type>_fields\<close> is the table the decoder uses.
\<close>

definition Scheme :: string where
  "Scheme = ''exact_cosmos_authz''"

definition ErrInvalidSignature :: string where "ErrInvalidSignature = ''invalid_signature''"
definition ErrInvalidAuthorization :: string where "ErrInvalidAuthorization = ''invalid_authorization''"
definition ErrNonceAlreadyUsed :: string where "ErrNonceAlreadyUsed = ''nonce_already_used''"
definition ErrExpiredAuthorization :: string where "ErrExpiredAuthorization = ''expired_authorization''"
definition ErrInsufficientGrant :: string where "ErrInsufficientGrant = ''insufficient_grant''"
definition ErrInsufficientFunds :: string where "ErrInsufficientFunds = ''insufficient_funds''"
definition ErrBroadcastFailed :: string where "ErrBroadcastFailed = ''broadcast_failed''"
definition ErrUnexpected :: string where "ErrUnexpected = ''unexpected_settle_error''"

lemmas error_codes = ErrInvalidSignature_def ErrInvalidAuthorization_def ErrNonceAlreadyUsed_def
  ErrExpiredAuthorization_def ErrInsufficientGrant_def ErrInsufficientFunds_def
  ErrBroadcastFailed_def ErrUnexpected_def

section \<open>The structs\<close>

record RequirementsExtra =
  x_Facilitator :: string
  x_ChainID :: string
  x_Decimals :: uint8
  x_Symbol :: string

record PaymentRequirements =
  pr_Scheme :: string
  pr_Network :: string
  pr_MaxAmountRequired :: string
  pr_Asset :: string
  pr_PayTo :: string
  pr_Resource :: string
  pr_Description :: string
  pr_MimeType :: string
  pr_MaxTimeoutSeconds :: uint64
  pr_OutputSchema :: "(string \<times> json) list"
  pr_Extra :: RequirementsExtra

record Authorization =
  a_From :: string
  a_To :: string
  a_Denom :: string
  a_Amount :: string
  a_Nonce :: string
  a_ValidAfter :: uint64
  a_ValidBefore :: uint64
  a_Resource :: string
  a_ChainID :: string

record CosmosPayload =
  c_From :: string
  c_PublicKey :: string
  c_Signature :: string
  c_Authorization :: Authorization

record PaymentPayload =
  pp_X402Version :: int
  pp_Scheme :: string
  pp_Network :: string
  pp_Payload :: CosmosPayload

record VerifyRequest =
  vr_X402Version :: int
  vr_PaymentPayload :: PaymentPayload
  vr_PaymentRequirements :: PaymentRequirements

type_synonym SettleRequest = VerifyRequest

record VerifyResponse =
  v_IsValid :: bool
  v_InvalidReason :: string
  v_Payer :: string

record SettleResponse =
  s_Success :: bool
  s_ErrorReason :: string
  s_Transaction :: string
  s_Network :: string
  s_Payer :: string

section \<open>Zero values\<close>

definition RequirementsExtra_zero :: RequirementsExtra where
  "RequirementsExtra_zero = \<lparr>x_Facilitator = [], x_ChainID = [], x_Decimals = 0, x_Symbol = []\<rparr>"

definition PaymentRequirements_zero :: PaymentRequirements where
  "PaymentRequirements_zero =
     \<lparr>pr_Scheme = [], pr_Network = [], pr_MaxAmountRequired = [], pr_Asset = [], pr_PayTo = [],
      pr_Resource = [], pr_Description = [], pr_MimeType = [], pr_MaxTimeoutSeconds = 0,
      pr_OutputSchema = [], pr_Extra = RequirementsExtra_zero\<rparr>"

definition Authorization_zero :: Authorization where
  "Authorization_zero =
     \<lparr>a_From = [], a_To = [], a_Denom = [], a_Amount = [], a_Nonce = [], a_ValidAfter = 0,
      a_ValidBefore = 0, a_Resource = [], a_ChainID = []\<rparr>"

definition CosmosPayload_zero :: CosmosPayload where
  "CosmosPayload_zero =
     \<lparr>c_From = [], c_PublicKey = [], c_Signature = [], c_Authorization = Authorization_zero\<rparr>"

definition PaymentPayload_zero :: PaymentPayload where
  "PaymentPayload_zero =
     \<lparr>pp_X402Version = 0, pp_Scheme = [], pp_Network = [], pp_Payload = CosmosPayload_zero\<rparr>"

definition VerifyRequest_zero :: VerifyRequest where
  "VerifyRequest_zero =
     \<lparr>vr_X402Version = 0, vr_PaymentPayload = PaymentPayload_zero,
      vr_PaymentRequirements = PaymentRequirements_zero\<rparr>"

definition VerifyResponse_zero :: VerifyResponse where
  "VerifyResponse_zero = \<lparr>v_IsValid = False, v_InvalidReason = [], v_Payer = []\<rparr>"

definition SettleResponse_zero :: SettleResponse where
  "SettleResponse_zero =
     \<lparr>s_Success = False, s_ErrorReason = [], s_Transaction = [], s_Network = [], s_Payer = []\<rparr>"

lemmas zero_defs = RequirementsExtra_zero_def PaymentRequirements_zero_def Authorization_zero_def
  CosmosPayload_zero_def PaymentPayload_zero_def VerifyRequest_zero_def VerifyResponse_zero_def
  SettleResponse_zero_def

section \<open>json.Marshal\<close>

definition RequirementsExtra_json :: "RequirementsExtra \<Rightarrow> json" where
  "RequirementsExtra_json x = JObj (
     [(''facilitator'', JStr (x_Facilitator x)), (''chainId'', JStr (x_ChainID x))]
     @ (if x_Decimals x = 0 then [] else [(''decimals'', num8 (x_Decimals x))])
     @ omit_str ''symbol'' (x_Symbol x))"

text \<open>A Go map is printed with its keys sorted; the program never prints a non-nil \<open>OutputSchema\<close>.\<close>

definition PaymentRequirements_json :: "PaymentRequirements \<Rightarrow> json" where
  "PaymentRequirements_json pr = JObj (
     [(''scheme'', JStr (pr_Scheme pr)), (''network'', JStr (pr_Network pr)),
      (''maxAmountRequired'', JStr (pr_MaxAmountRequired pr)), (''asset'', JStr (pr_Asset pr)),
      (''payTo'', JStr (pr_PayTo pr)), (''resource'', JStr (pr_Resource pr))]
     @ omit_str ''description'' (pr_Description pr)
     @ omit_str ''mimeType'' (pr_MimeType pr)
     @ [(''maxTimeoutSeconds'', num64 (pr_MaxTimeoutSeconds pr))]
     @ (if pr_OutputSchema pr = [] then []
        else [(''outputSchema'', JObj (sort_key fst (pr_OutputSchema pr)))])
     @ [(''extra'', RequirementsExtra_json (pr_Extra pr))])"

definition Authorization_json :: "Authorization \<Rightarrow> json" where
  "Authorization_json a = JObj
     [(''from'', JStr (a_From a)), (''to'', JStr (a_To a)), (''denom'', JStr (a_Denom a)),
      (''amount'', JStr (a_Amount a)), (''nonce'', JStr (a_Nonce a)),
      (''validAfter'', num64 (a_ValidAfter a)), (''validBefore'', num64 (a_ValidBefore a)),
      (''resource'', JStr (a_Resource a)), (''chainId'', JStr (a_ChainID a))]"

definition CosmosPayload_json :: "CosmosPayload \<Rightarrow> json" where
  "CosmosPayload_json c = JObj
     [(''from'', JStr (c_From c)), (''publicKey'', JStr (c_PublicKey c)),
      (''signature'', JStr (c_Signature c)),
      (''authorization'', Authorization_json (c_Authorization c))]"

definition PaymentPayload_json :: "PaymentPayload \<Rightarrow> json" where
  "PaymentPayload_json pp = JObj
     [(''x402Version'', num_int (pp_X402Version pp)), (''scheme'', JStr (pp_Scheme pp)),
      (''network'', JStr (pp_Network pp)), (''payload'', CosmosPayload_json (pp_Payload pp))]"

definition VerifyRequest_json :: "VerifyRequest \<Rightarrow> json" where
  "VerifyRequest_json r = JObj
     [(''x402Version'', num_int (vr_X402Version r)),
      (''paymentPayload'', PaymentPayload_json (vr_PaymentPayload r)),
      (''paymentRequirements'', PaymentRequirements_json (vr_PaymentRequirements r))]"

definition VerifyResponse_json :: "VerifyResponse \<Rightarrow> json" where
  "VerifyResponse_json v = JObj (
     [(''isValid'', JBool (v_IsValid v))]
     @ omit_str ''invalidReason'' (v_InvalidReason v) @ omit_str ''payer'' (v_Payer v))"

definition SettleResponse_json :: "SettleResponse \<Rightarrow> json" where
  "SettleResponse_json s = JObj (
     [(''success'', JBool (s_Success s))]
     @ omit_str ''errorReason'' (s_ErrorReason s) @ omit_str ''transaction'' (s_Transaction s)
     @ omit_str ''network'' (s_Network s) @ omit_str ''payer'' (s_Payer s))"

section \<open>json.Unmarshal\<close>

definition RequirementsExtra_fields :: "RequirementsExtra fields" where
  "RequirementsExtra_fields =
     [(''facilitator'', dec_string (\<lambda>s. x_Facilitator_update (\<lambda>_. s))),
      (''chainId'', dec_string (\<lambda>s. x_ChainID_update (\<lambda>_. s))),
      (''decimals'', dec_uint8 (\<lambda>s. x_Decimals_update (\<lambda>_. s))),
      (''symbol'', dec_string (\<lambda>s. x_Symbol_update (\<lambda>_. s)))]"

definition PaymentRequirements_fields :: "PaymentRequirements fields" where
  "PaymentRequirements_fields =
     [(''scheme'', dec_string (\<lambda>s. pr_Scheme_update (\<lambda>_. s))),
      (''network'', dec_string (\<lambda>s. pr_Network_update (\<lambda>_. s))),
      (''maxAmountRequired'', dec_string (\<lambda>s. pr_MaxAmountRequired_update (\<lambda>_. s))),
      (''asset'', dec_string (\<lambda>s. pr_Asset_update (\<lambda>_. s))),
      (''payTo'', dec_string (\<lambda>s. pr_PayTo_update (\<lambda>_. s))),
      (''resource'', dec_string (\<lambda>s. pr_Resource_update (\<lambda>_. s))),
      (''description'', dec_string (\<lambda>s. pr_Description_update (\<lambda>_. s))),
      (''mimeType'', dec_string (\<lambda>s. pr_MimeType_update (\<lambda>_. s))),
      (''maxTimeoutSeconds'', dec_uint64 (\<lambda>s. pr_MaxTimeoutSeconds_update (\<lambda>_. s))),
      (''outputSchema'', dec_map pr_OutputSchema (\<lambda>s. pr_OutputSchema_update (\<lambda>_. s))),
      (''extra'', dec_sub pr_Extra (\<lambda>s. pr_Extra_update (\<lambda>_. s)) (dec_struct RequirementsExtra_fields))]"

definition Authorization_fields :: "Authorization fields" where
  "Authorization_fields =
     [(''from'', dec_string (\<lambda>s. a_From_update (\<lambda>_. s))),
      (''to'', dec_string (\<lambda>s. a_To_update (\<lambda>_. s))),
      (''denom'', dec_string (\<lambda>s. a_Denom_update (\<lambda>_. s))),
      (''amount'', dec_string (\<lambda>s. a_Amount_update (\<lambda>_. s))),
      (''nonce'', dec_string (\<lambda>s. a_Nonce_update (\<lambda>_. s))),
      (''validAfter'', dec_uint64 (\<lambda>s. a_ValidAfter_update (\<lambda>_. s))),
      (''validBefore'', dec_uint64 (\<lambda>s. a_ValidBefore_update (\<lambda>_. s))),
      (''resource'', dec_string (\<lambda>s. a_Resource_update (\<lambda>_. s))),
      (''chainId'', dec_string (\<lambda>s. a_ChainID_update (\<lambda>_. s)))]"

definition CosmosPayload_fields :: "CosmosPayload fields" where
  "CosmosPayload_fields =
     [(''from'', dec_string (\<lambda>s. c_From_update (\<lambda>_. s))),
      (''publicKey'', dec_string (\<lambda>s. c_PublicKey_update (\<lambda>_. s))),
      (''signature'', dec_string (\<lambda>s. c_Signature_update (\<lambda>_. s))),
      (''authorization'', dec_sub c_Authorization (\<lambda>s. c_Authorization_update (\<lambda>_. s))
          (dec_struct Authorization_fields))]"

definition PaymentPayload_fields :: "PaymentPayload fields" where
  "PaymentPayload_fields =
     [(''x402Version'', dec_int (\<lambda>s. pp_X402Version_update (\<lambda>_. s))),
      (''scheme'', dec_string (\<lambda>s. pp_Scheme_update (\<lambda>_. s))),
      (''network'', dec_string (\<lambda>s. pp_Network_update (\<lambda>_. s))),
      (''payload'', dec_sub pp_Payload (\<lambda>s. pp_Payload_update (\<lambda>_. s)) (dec_struct CosmosPayload_fields))]"

definition VerifyRequest_fields :: "VerifyRequest fields" where
  "VerifyRequest_fields =
     [(''x402Version'', dec_int (\<lambda>s. vr_X402Version_update (\<lambda>_. s))),
      (''paymentPayload'', dec_sub vr_PaymentPayload (\<lambda>s. vr_PaymentPayload_update (\<lambda>_. s))
          (dec_struct PaymentPayload_fields)),
      (''paymentRequirements'', dec_sub vr_PaymentRequirements (\<lambda>s. vr_PaymentRequirements_update (\<lambda>_. s))
          (dec_struct PaymentRequirements_fields))]"

definition VerifyResponse_fields :: "VerifyResponse fields" where
  "VerifyResponse_fields =
     [(''isValid'', dec_bool (\<lambda>s. v_IsValid_update (\<lambda>_. s))),
      (''invalidReason'', dec_string (\<lambda>s. v_InvalidReason_update (\<lambda>_. s))),
      (''payer'', dec_string (\<lambda>s. v_Payer_update (\<lambda>_. s)))]"

definition SettleResponse_fields :: "SettleResponse fields" where
  "SettleResponse_fields =
     [(''success'', dec_bool (\<lambda>s. s_Success_update (\<lambda>_. s))),
      (''errorReason'', dec_string (\<lambda>s. s_ErrorReason_update (\<lambda>_. s))),
      (''transaction'', dec_string (\<lambda>s. s_Transaction_update (\<lambda>_. s))),
      (''network'', dec_string (\<lambda>s. s_Network_update (\<lambda>_. s))),
      (''payer'', dec_string (\<lambda>s. s_Payer_update (\<lambda>_. s)))]"

text \<open>The two entry points, for a struct with its table and zero value.\<close>

definition Unmarshal :: "'a fields \<Rightarrow> 'a \<Rightarrow> string \<Rightarrow> 'a option" where
  "Unmarshal tbl zero s = Option.bind (json_Unmarshal s) (\<lambda>j. dec_struct tbl j zero)"

definition Decode :: "'a fields \<Rightarrow> 'a \<Rightarrow> string \<Rightarrow> 'a option" where
  "Decode tbl zero s = Option.bind (json_Decode s) (\<lambda>j. dec_struct tbl j zero)"

end
