(* ===== verification/Base64.thy ===== *)
theory Base64
  imports Prelude
begin

text \<open>
  \<open>encoding/base64\<close>'s \<open>StdEncoding\<close>: \<open>EncodeToString\<close> with padding, and
  \<open>DecodeString\<close>, which drops line feeds and carriage returns wherever they stand, requires
  the padding, and ignores the unused low bits of the last character. \<open>None\<close> is the error
  \<open>CorruptInputError\<close>. The main lemma is the round trip \<open>base64_roundtrip\<close>; the length of an
  encoding and its alphabet are what the header checks rely on.
\<close>

definition b64_char :: "nat \<Rightarrow> char" where
  "b64_char n =
     (if n < 26 then char_of (65 + n)
      else if n < 52 then char_of (71 + n)
      else if n < 62 then char_of (n - 4)
      else if n = 62 then CHR ''+'' else CHR ''/'')"

definition b64_val :: "char \<Rightarrow> nat option" where
  "b64_val c =
     (let b = byte c in
      if 65 \<le> b \<and> b \<le> 90 then Some (b - 65)
      else if 97 \<le> b \<and> b \<le> 122 then Some (b - 71)
      else if 48 \<le> b \<and> b \<le> 57 then Some (b + 4)
      else if c = CHR ''+'' then Some 62
      else if c = CHR ''/'' then Some 63
      else None)"

definition b64_pad :: char where
  "b64_pad = CHR ''=''"

fun base64_Encode :: "bytes \<Rightarrow> string" where
  "base64_Encode [] = []"
| "base64_Encode [a] =
     [b64_char (byte a div 4), b64_char (byte a mod 4 * 16), b64_pad, b64_pad]"
| "base64_Encode [a, b] =
     [b64_char (byte a div 4), b64_char (byte a mod 4 * 16 + byte b div 16),
      b64_char (byte b mod 16 * 4), b64_pad]"
| "base64_Encode (a # b # c # r) =
     b64_char (byte a div 4) # b64_char (byte a mod 4 * 16 + byte b div 16) #
     b64_char (byte b mod 16 * 4 + byte c div 64) # b64_char (byte c mod 64) # base64_Encode r"

fun b64_quanta :: "string \<Rightarrow> bytes option" where
  "b64_quanta [] = Some []"
| "b64_quanta (c0 # c1 # c2 # c3 # r) =
     (case (b64_val c0, b64_val c1) of
        (Some v0, Some v1) \<Rightarrow>
          let x = char_of (v0 * 4 + v1 div 16) in
          if c2 = b64_pad then (if c3 = b64_pad \<and> r = [] then Some [x] else None)
          else (case b64_val c2 of
              None \<Rightarrow> None
            | Some v2 \<Rightarrow>
                let y = char_of (v1 mod 16 * 16 + v2 div 4) in
                if c3 = b64_pad then (if r = [] then Some [x, y] else None)
                else (case b64_val c3 of
                    None \<Rightarrow> None
                  | Some v3 \<Rightarrow>
                      (case b64_quanta r of
                         None \<Rightarrow> None
                       | Some t \<Rightarrow> Some (x # y # char_of (v2 mod 4 * 64 + v3) # t))))
      | _ \<Rightarrow> None)"
| "b64_quanta _ = None"

definition is_newline :: "char \<Rightarrow> bool" where
  "is_newline c \<longleftrightarrow> byte c = 10 \<or> byte c = 13"

definition base64_Decode :: "string \<Rightarrow> bytes option" where
  "base64_Decode s = b64_quanta (filter (\<lambda>c. \<not> is_newline c) s)"

section \<open>Round trip\<close>

lemma byte_b64_char:
  "n < 64 \<Longrightarrow> byte (b64_char n) =
     (if n < 26 then 65 + n else if n < 52 then 71 + n else if n < 62 then n - 4
      else if n = 62 then 43 else 47)"
  by (auto simp: b64_char_def byte_def)

lemma byte_literals: "byte (CHR ''+'') = 43" "byte (CHR ''/'') = 47" "byte (CHR ''='') = 61"
  by (simp_all add: byte_def)

lemma b64_char_codes: "n < 62 \<Longrightarrow> byte (b64_char n) \<noteq> 43 \<and> byte (b64_char n) \<noteq> 47"
  by (simp add: byte_b64_char) arith

lemma b64_val_char [simp]: "n < 64 \<Longrightarrow> b64_val (b64_char n) = Some n"
proof -
  assume n: "n < 64"
  show ?thesis
  proof (cases "n < 62")
    case True
    then have "b64_char n \<noteq> CHR ''+''" "b64_char n \<noteq> CHR ''/''"
      using byte_literals by (metis b64_char_codes)+
    with n True show ?thesis by (simp add: b64_val_def byte_b64_char Let_def) arith
  next
    case False
    with n have "n = 62 \<or> n = 63" by arith
    then show ?thesis by (auto simp: b64_val_def b64_char_def byte_literals)
  qed
qed

lemma b64_char_special: "n < 64 \<Longrightarrow> b64_char n \<noteq> b64_pad \<and> \<not> is_newline (b64_char n)"
proof -
  assume "n < 64"
  then have "byte (b64_char n) \<noteq> 61 \<and> byte (b64_char n) \<noteq> 10 \<and> byte (b64_char n) \<noteq> 13"
    by (simp add: byte_b64_char) arith
  then show ?thesis by (auto simp: is_newline_def b64_pad_def byte_literals)
qed

lemma b64_char_not_pad [simp]: "n < 64 \<Longrightarrow> b64_char n \<noteq> b64_pad"
  by (simp add: b64_char_special)

lemma b64_char_not_newline [simp]: "n < 64 \<Longrightarrow> \<not> is_newline (b64_char n)"
  by (simp add: b64_char_special)

lemma b64_pad_not_newline [simp]: "\<not> is_newline b64_pad"
  by (simp add: is_newline_def b64_pad_def byte_literals)

lemma byte_div_less [simp]: "0 < m \<Longrightarrow> 256 \<le> m * k \<Longrightarrow> byte a div m < k"
  by (metis byte_less less_mult_imp_div_less mult.commute order_less_le_trans)

lemma byte_quotients [simp]:
  "byte b div 16 div 16 = 0" "byte b div 16 mod 16 = byte b div 16"
  "byte c div 64 div 4 = 0" "byte c div 64 mod 4 = byte c div 64"
  by simp_all

lemma sextet_bounds [simp]:
  "byte a mod 4 * 16 < 64" "byte a mod 4 * 16 + byte b div 16 < 64"
  "byte b mod 16 * 4 < 64" "byte b mod 16 * 4 + byte c div 64 < 64"
proof -
  have "byte a mod 4 < 4" "byte b div 16 < 16" "byte b mod 16 < 16" "byte c div 64 < 4" by simp_all
  then show "byte a mod 4 * 16 < 64" "byte a mod 4 * 16 + byte b div 16 < 64"
    "byte b mod 16 * 4 < 64" "byte b mod 16 * 4 + byte c div 64 < 64" by linarith+
qed

lemma base64_Encode_no_newline: "filter (\<lambda>c. \<not> is_newline c) (base64_Encode b) = base64_Encode b"
  by (induction b rule: base64_Encode.induct) simp_all

lemma b64_quanta_Encode: "b64_quanta (base64_Encode b) = Some b"
  by (induction b rule: base64_Encode.induct) (simp_all add: Let_def)

lemma base64_roundtrip [simp]: "base64_Decode (base64_Encode b) = Some b"
  by (simp add: base64_Decode_def base64_Encode_no_newline b64_quanta_Encode)

lemma base64_Encode_inject [simp]: "base64_Encode a = base64_Encode b \<longleftrightarrow> a = b"
  by (metis base64_roundtrip option.inject)

lemma base64_Encode_eq_Nil [simp]: "base64_Encode b = [] \<longleftrightarrow> b = []"
  by (cases b rule: base64_Encode.cases) auto

lemma three_more_div: "(5 + n) div 3 = Suc (Suc (Suc n) div 3)"
  by presburger

lemma length_base64_Encode: "length (base64_Encode b) = 4 * ((length b + 2) div 3)"
  by (induction b rule: base64_Encode.induct) (simp_all add: three_more_div)

section \<open>The alphabet of an encoding\<close>

definition b64_text :: "char \<Rightarrow> bool" where
  "b64_text c \<longleftrightarrow> b64_val c \<noteq> None \<or> c = b64_pad"

lemma b64_text_char [simp]: "n < 64 \<Longrightarrow> b64_text (b64_char n)" "b64_text b64_pad"
  by (simp_all add: b64_text_def)

lemma base64_Encode_text: "list_all b64_text (base64_Encode b)"
  by (induction b rule: base64_Encode.induct) simp_all

end
