(* ===== verification/Wire.thy ===== *)
theory Wire
  imports Types Base64
begin

text \<open>
  The wire format round trips: for each struct of \<open>types.go\<close> whose strings are valid UTF-8, decoding
  what \<open>json.Marshal\<close> printed gives the struct back, and the base64 header encodings built on it
  are inverse to each other. The locale \<open>wire_type\<close> states what a type's printer and field table
  must satisfy; its lemmas give the text-level round trips for every type at once.
\<close>

section \<open>Structs whose strings are valid UTF-8\<close>

definition valid_Extra :: "RequirementsExtra \<Rightarrow> bool" where
  "valid_Extra x \<longleftrightarrow> list_all valid_utf8 [x_Facilitator x, x_ChainID x, x_Symbol x]"

definition valid_Requirements :: "PaymentRequirements \<Rightarrow> bool" where
  "valid_Requirements pr \<longleftrightarrow>
     list_all valid_utf8 [pr_Scheme pr, pr_Network pr, pr_MaxAmountRequired pr, pr_Asset pr,
       pr_PayTo pr, pr_Resource pr, pr_Description pr, pr_MimeType pr]
     \<and> pr_OutputSchema pr = [] \<and> valid_Extra (pr_Extra pr)"

definition valid_Authorization :: "Authorization \<Rightarrow> bool" where
  "valid_Authorization a \<longleftrightarrow>
     list_all valid_utf8 [a_From a, a_To a, a_Denom a, a_Amount a, a_Nonce a, a_Resource a, a_ChainID a]"

definition valid_CosmosPayload :: "CosmosPayload \<Rightarrow> bool" where
  "valid_CosmosPayload c \<longleftrightarrow>
     list_all valid_utf8 [c_From c, c_PublicKey c, c_Signature c] \<and> valid_Authorization (c_Authorization c)"

definition valid_Payload :: "PaymentPayload \<Rightarrow> bool" where
  "valid_Payload pp \<longleftrightarrow>
     int64_range (pp_X402Version pp) \<and> list_all valid_utf8 [pp_Scheme pp, pp_Network pp]
     \<and> valid_CosmosPayload (pp_Payload pp)"

definition valid_Request :: "VerifyRequest \<Rightarrow> bool" where
  "valid_Request r \<longleftrightarrow>
     int64_range (vr_X402Version r) \<and> valid_Payload (vr_PaymentPayload r)
     \<and> valid_Requirements (vr_PaymentRequirements r)"

definition valid_VerifyResponse :: "VerifyResponse \<Rightarrow> bool" where
  "valid_VerifyResponse v \<longleftrightarrow> list_all valid_utf8 [v_InvalidReason v, v_Payer v]"

definition valid_SettleResponse :: "SettleResponse \<Rightarrow> bool" where
  "valid_SettleResponse s \<longleftrightarrow>
     list_all valid_utf8 [s_ErrorReason s, s_Transaction s, s_Network s, s_Payer s]"

section \<open>The interface of a wire type\<close>

locale wire_type =
  fixes to_json :: "'a \<Rightarrow> json"
    and fields :: "'a fields"
    and zero :: 'a
    and valid :: "'a \<Rightarrow> bool"
  assumes printable: "valid x \<Longrightarrow> json_ok (to_json x)"
    and shallow: "valid x \<Longrightarrow> json_depth (to_json x) \<le> 4"
    and decodes: "valid x \<Longrightarrow> dec_struct fields (to_json x) zero = Some x"
begin

lemma depth_limit: "valid x \<Longrightarrow> json_depth (to_json x) \<le> max_depth"
  using shallow [of x] by (simp add: max_depth_def)

lemma Unmarshal_Marshal: "valid x \<Longrightarrow> Unmarshal fields zero (json_print (to_json x)) = Some x"
  by (simp add: Unmarshal_def json_roundtrip printable depth_limit decodes)

lemma Decode_Marshal:
  "valid x \<Longrightarrow> num_stop r \<Longrightarrow> Decode fields zero (json_print (to_json x) @ r) = Some x"
  by (simp add: Decode_def json_stream_roundtrip printable depth_limit decodes)

lemma print_inject:
  "valid x \<Longrightarrow> valid y \<Longrightarrow> json_print (to_json x) = json_print (to_json y) \<Longrightarrow> x = y"
  by (metis Unmarshal_Marshal option.inject)

text \<open>A header value is the base64 of the JSON text.\<close>

lemma header_roundtrip:
  "valid x \<Longrightarrow>
    Option.bind (base64_Decode (base64_Encode (json_print (to_json x)))) (Unmarshal fields zero) = Some x"
  by (simp add: Unmarshal_Marshal)

end

section \<open>Every wire type keeps the interface\<close>

text \<open>ASCII literals, such as the member names, are valid UTF-8.\<close>

lemma valid_utf8_name [simp]: "list_all (\<lambda>c. of_char c < (128::nat)) s \<Longrightarrow> valid_utf8 s"
  by (rule valid_utf8_ascii) (simp add: byte_def)

lemma dec_sub_step [simp]: "dec j (get x) = Some y \<Longrightarrow> dec_sub get upd dec j x = Some (upd y x)"
  by (simp add: dec_sub_def)

lemmas decode_simps = dec_members_append find_field_def omit_str_def zero_defs

lemma extra_depth: "json_depth (RequirementsExtra_json x) = 1"
  by (simp add: RequirementsExtra_json_def)

interpretation extra: wire_type RequirementsExtra_json RequirementsExtra_fields RequirementsExtra_zero valid_Extra
proof unfold_locales
  fix x assume v: "valid_Extra x"
  then show "json_ok (RequirementsExtra_json x)"
    by (simp add: RequirementsExtra_json_def valid_Extra_def)
  show "json_depth (RequirementsExtra_json x) \<le> 4"
    using v by (simp add: extra_depth)
  show "dec_struct RequirementsExtra_fields (RequirementsExtra_json x) RequirementsExtra_zero = Some x"
    using v by (simp add: RequirementsExtra_json_def valid_Extra_def dec_struct_def RequirementsExtra_fields_def decode_simps)
qed

lemma requirements_depth: "valid_Requirements x \<Longrightarrow> json_depth (PaymentRequirements_json x) = 2"
  by (simp add: PaymentRequirements_json_def valid_Requirements_def extra_depth)

interpretation requirements: wire_type PaymentRequirements_json PaymentRequirements_fields PaymentRequirements_zero valid_Requirements
proof unfold_locales
  fix x assume v: "valid_Requirements x"
  then show "json_ok (PaymentRequirements_json x)"
    by (simp add: PaymentRequirements_json_def valid_Requirements_def extra.printable)
  show "json_depth (PaymentRequirements_json x) \<le> 4"
    using v by (simp add: requirements_depth)
  show "dec_struct PaymentRequirements_fields (PaymentRequirements_json x) PaymentRequirements_zero = Some x"
    using v extra.decodes by (simp add: PaymentRequirements_json_def valid_Requirements_def dec_struct_def PaymentRequirements_fields_def decode_simps)
qed

lemma authorization_depth: "json_depth (Authorization_json x) = 1"
  by (simp add: Authorization_json_def)

interpretation authorization: wire_type Authorization_json Authorization_fields Authorization_zero valid_Authorization
proof unfold_locales
  fix x assume v: "valid_Authorization x"
  then show "json_ok (Authorization_json x)"
    by (simp add: Authorization_json_def valid_Authorization_def)
  show "json_depth (Authorization_json x) \<le> 4"
    using v by (simp add: authorization_depth)
  show "dec_struct Authorization_fields (Authorization_json x) Authorization_zero = Some x"
    using v by (simp add: Authorization_json_def valid_Authorization_def dec_struct_def Authorization_fields_def decode_simps)
qed

lemma cosmos_payload_depth: "json_depth (CosmosPayload_json x) = 2"
  by (simp add: CosmosPayload_json_def authorization_depth)

interpretation cosmos_payload: wire_type CosmosPayload_json CosmosPayload_fields CosmosPayload_zero valid_CosmosPayload
proof unfold_locales
  fix x assume v: "valid_CosmosPayload x"
  then show "json_ok (CosmosPayload_json x)"
    by (simp add: CosmosPayload_json_def valid_CosmosPayload_def authorization.printable)
  show "json_depth (CosmosPayload_json x) \<le> 4"
    using v by (simp add: cosmos_payload_depth)
  show "dec_struct CosmosPayload_fields (CosmosPayload_json x) CosmosPayload_zero = Some x"
    using v authorization.decodes by (simp add: CosmosPayload_json_def valid_CosmosPayload_def dec_struct_def CosmosPayload_fields_def decode_simps)
qed

lemma payload_depth: "json_depth (PaymentPayload_json x) = 3"
  by (simp add: PaymentPayload_json_def cosmos_payload_depth)

interpretation payload: wire_type PaymentPayload_json PaymentPayload_fields PaymentPayload_zero valid_Payload
proof unfold_locales
  fix x assume v: "valid_Payload x"
  then show "json_ok (PaymentPayload_json x)"
    by (simp add: PaymentPayload_json_def valid_Payload_def cosmos_payload.printable)
  show "json_depth (PaymentPayload_json x) \<le> 4"
    using v by (simp add: payload_depth)
  show "dec_struct PaymentPayload_fields (PaymentPayload_json x) PaymentPayload_zero = Some x"
    using v cosmos_payload.decodes by (simp add: PaymentPayload_json_def valid_Payload_def dec_struct_def PaymentPayload_fields_def decode_simps)
qed

lemma request_depth: "valid_Request x \<Longrightarrow> json_depth (VerifyRequest_json x) = 4"
  by (simp add: VerifyRequest_json_def valid_Request_def payload_depth requirements_depth)

interpretation request: wire_type VerifyRequest_json VerifyRequest_fields VerifyRequest_zero valid_Request
proof unfold_locales
  fix x assume v: "valid_Request x"
  then show "json_ok (VerifyRequest_json x)"
    by (simp add: VerifyRequest_json_def valid_Request_def payload.printable requirements.printable)
  show "json_depth (VerifyRequest_json x) \<le> 4"
    using v by (simp add: request_depth)
  show "dec_struct VerifyRequest_fields (VerifyRequest_json x) VerifyRequest_zero = Some x"
    using v payload.decodes requirements.decodes by (simp add: VerifyRequest_json_def valid_Request_def dec_struct_def VerifyRequest_fields_def decode_simps)
qed

lemma verify_response_depth: "json_depth (VerifyResponse_json x) = 1"
  by (simp add: VerifyResponse_json_def)

interpretation verify_response: wire_type VerifyResponse_json VerifyResponse_fields VerifyResponse_zero valid_VerifyResponse
proof unfold_locales
  fix x assume v: "valid_VerifyResponse x"
  then show "json_ok (VerifyResponse_json x)"
    by (simp add: VerifyResponse_json_def valid_VerifyResponse_def)
  show "json_depth (VerifyResponse_json x) \<le> 4"
    using v by (simp add: verify_response_depth)
  show "dec_struct VerifyResponse_fields (VerifyResponse_json x) VerifyResponse_zero = Some x"
    using v by (simp add: VerifyResponse_json_def valid_VerifyResponse_def dec_struct_def VerifyResponse_fields_def decode_simps)
qed

lemma settle_response_depth: "json_depth (SettleResponse_json x) = 1"
  by (simp add: SettleResponse_json_def)

interpretation settle_response: wire_type SettleResponse_json SettleResponse_fields SettleResponse_zero valid_SettleResponse
proof unfold_locales
  fix x assume v: "valid_SettleResponse x"
  then show "json_ok (SettleResponse_json x)"
    by (simp add: SettleResponse_json_def valid_SettleResponse_def)
  show "json_depth (SettleResponse_json x) \<le> 4"
    using v by (simp add: settle_response_depth)
  show "dec_struct SettleResponse_fields (SettleResponse_json x) SettleResponse_zero = Some x"
    using v by (simp add: SettleResponse_json_def valid_SettleResponse_def dec_struct_def SettleResponse_fields_def decode_simps)
qed

end
