(* ===== verification/GoErrors.thy ===== *)
theory GoErrors
  imports Prelude
begin

text \<open>
  Go's error values. Each constructor is one way the program makes an error: \<open>errors.New\<close>,
  the sentinel \<open>ErrNonceUsed\<close>, the string type \<open>chainError\<close>, the struct
  \<open>verifyError\<close>, and \<open>fmt.Errorf\<close>, whose format and operands are kept as the source
  writes them (the rendered text is never inspected by the program). \<open>Foreign\<close> is an error
  value of code outside the repository, known by its text; \<open>CorruptInputError\<close> is the error
  of \<open>encoding/base64\<close>, without its offset.

  \<open>errors_Is\<close> and \<open>errors_As_verifyError\<close> walk the chain of wrapped errors: the operands
  of the verb \<open>%w\<close>, never those of \<open>%v\<close>.
\<close>

datatype goerr =
    ErrNew string
  | ErrNonceUsed
  | ChainError string
  | VerifyError (Code: string) (Message: errmsg)
  | Errorf string "errarg list"
  | CorruptInputError
  | Foreign string
and errarg =
    AInt int
  | AStr string
  | AErrW goerr
  | AErrV goerr
and errmsg =
    MsgText string
  | MsgCat string goerr
  | MsgFmt string "errarg list"

text \<open>Besides returning, a program ends by \<open>log.Fatal\<close> (its format and operands) or by a panic (its value).\<close>

datatype exit = Fatal goerr | Panic goerr

fun errors_Is :: "goerr \<Rightarrow> goerr \<Rightarrow> bool"
  and arg_Is :: "errarg \<Rightarrow> goerr \<Rightarrow> bool" where
  "errors_Is (Errorf f args) target = (Errorf f args = target \<or> list_ex (\<lambda>a. arg_Is a target) args)"
| "errors_Is e target = (e = target)"
| "arg_Is (AErrW e) target = errors_Is e target"
| "arg_Is _ target = False"

fun errors_As_verifyError :: "goerr \<Rightarrow> goerr option"
  and arg_As_verifyError :: "errarg \<Rightarrow> goerr option"
  and args_As_verifyError :: "errarg list \<Rightarrow> goerr option" where
  "errors_As_verifyError (VerifyError c m) = Some (VerifyError c m)"
| "errors_As_verifyError (Errorf f args) = args_As_verifyError args"
| "errors_As_verifyError _ = None"
| "arg_As_verifyError (AErrW e) = errors_As_verifyError e"
| "arg_As_verifyError _ = None"
| "args_As_verifyError [] = None"
| "args_As_verifyError (a # args) =
     (case arg_As_verifyError a of Some v \<Rightarrow> Some v | None \<Rightarrow> args_As_verifyError args)"

lemma errors_Is_refl [simp]: "errors_Is e e"
  by (cases e) auto

end
