(* ===== verification/GoTime.thy ===== *)
theory GoTime
  imports Prelude
begin

text \<open>
  Package \<open>time\<close>, as far as the program uses it. A \<open>time.Time\<close> is a pair of the internal
  seconds since January 1 of the year 1 (an \<open>int64\<close>, so its arithmetic wraps) and the
  nanoseconds within the second. The zero value is the pair of zeros, tested by \<open>IsZero\<close>;
  \<open>Unix\<close> and \<open>time.Unix\<close> shift the seconds to and from January 1, 1970. The monotonic
  reading that \<open>time.Now\<close> adds plays no role: every comparison of the program has an operand
  without one, except those of the polling loop, which \<open>Noble\<close> treats as ticks.
\<close>

record gotime =
  t_sec :: int64
  t_nsec :: nat

definition unixToInternal :: int64 where
  "unixToInternal = 62135596800"

definition zero_time :: gotime where
  "zero_time = \<lparr>t_sec = 0, t_nsec = 0\<rparr>"

definition IsZero :: "gotime \<Rightarrow> bool" where
  "IsZero t \<longleftrightarrow> t_sec t = 0 \<and> t_nsec t = 0"

definition After :: "gotime \<Rightarrow> gotime \<Rightarrow> bool" where
  "After t u \<longleftrightarrow> sint (t_sec u) < sint (t_sec t) \<or> t_sec t = t_sec u \<and> t_nsec u < t_nsec t"

definition Unix :: "gotime \<Rightarrow> int64" where
  "Unix t = t_sec t - unixToInternal"

definition time_Unix :: "int64 \<Rightarrow> gotime" where
  "time_Unix sec = \<lparr>t_sec = sec + unixToInternal, t_nsec = 0\<rparr>"

lemma Unix_time_Unix [simp]: "Unix (time_Unix s) = s"
  by (simp add: Unix_def time_Unix_def)

lemma IsZero_zero_time [simp]: "IsZero zero_time"
  by (simp add: IsZero_def zero_time_def)

text \<open>Times are ordered by their seconds, then by their nanoseconds; \<open>After\<close> is the order of instants.\<close>

instantiation gotime_ext :: (linorder) linorder
begin

definition less_eq_gotime_ext :: "'a gotime_ext \<Rightarrow> 'a gotime_ext \<Rightarrow> bool" where
  "less_eq_gotime_ext t u \<longleftrightarrow>
     sint (t_sec t) < sint (t_sec u)
     \<or> t_sec t = t_sec u \<and> (t_nsec t < t_nsec u \<or> t_nsec t = t_nsec u \<and> gotime.more t \<le> gotime.more u)"

definition less_gotime_ext :: "'a gotime_ext \<Rightarrow> 'a gotime_ext \<Rightarrow> bool" where
  "less_gotime_ext t u \<longleftrightarrow>
     sint (t_sec t) < sint (t_sec u)
     \<or> t_sec t = t_sec u \<and> (t_nsec t < t_nsec u \<or> t_nsec t = t_nsec u \<and> gotime.more t < gotime.more u)"

instance
proof
  fix t u v :: "'a gotime_ext"
  show "t < u \<longleftrightarrow> t \<le> u \<and> \<not> u \<le> t" and "t \<le> t" and "t \<le> u \<Longrightarrow> u \<le> v \<Longrightarrow> t \<le> v"
    by (auto simp: less_eq_gotime_ext_def less_gotime_ext_def)
  show "t \<le> u \<Longrightarrow> u \<le> t \<Longrightarrow> t = u"
    by (cases t; cases u) (auto simp: less_eq_gotime_ext_def)
  have "sint (t_sec t) = sint (t_sec u) \<Longrightarrow> t_sec t = t_sec u" by (rule signed_word_eqI)
  then show "t \<le> u \<or> u \<le> t"
    using linorder_less_linear [of "sint (t_sec t)" "sint (t_sec u)"] linear [of "gotime.more t" "gotime.more u"]
    by (auto simp: less_eq_gotime_ext_def)
qed

end

lemma After_less: "After t u \<longleftrightarrow> u < t"
  by (auto simp: After_def less_gotime_ext_def)

text \<open>
  \<open>time.Unix(int64(n), 0)\<close> is a faithful date only while the shift stays inside \<open>int64\<close>: up to
  this bound the internal seconds are the number itself plus the distance of the two epochs.
\<close>

definition unix_limit :: nat where
  "unix_limit = 9223372036854775808 - 62135596800"

lemma sint_time_Unix:
  assumes "unat s < unix_limit"
  shows "sint (t_sec (time_Unix s)) = int (unat s) + 62135596800"
proof -
  have "unat (s + unixToInternal) = unat s + 62135596800"
    using assms by (subst unat_add_lem [THEN iffD1]) (simp_all add: unix_limit_def unixToInternal_def)
  then have u: "uint (s + unixToInternal) = int (unat s) + 62135596800"
    by (metis of_nat_add of_nat_numeral uint_nat)
  have "uint (s + unixToInternal) < 9223372036854775808"
    using assms unfolding u unix_limit_def by linarith
  moreover have "- (2 ^ 63) \<le> uint (s + unixToInternal)"
    by (rule order_trans [OF _ uint_ge_0]) simp
  ultimately have "sint (s + unixToInternal) = uint (s + unixToInternal)"
    by (simp add: sint_uint signed_take_bit_int_eq_self)
  with u show ?thesis by (simp add: time_Unix_def)
qed

lemma sint_negative:
  assumes "9223372036854775808 \<le> uint (w::int64)"
  shows "sint w < 0"
proof (rule ccontr)
  assume "\<not> sint w < 0"
  moreover have lt: "sint w < 9223372036854775808" using sint_lt [of w] by simp
  moreover have "uint w = sint w mod 18446744073709551616" by (simp add: uint_sint take_bit_eq_mod)
  ultimately have "uint w = sint w" by (simp add: mod_pos_pos_trivial)
  with assms lt show False by simp
qed

lemma sint_le_uint: "sint (w::int64) \<le> uint w"
proof (cases "sint w < 0")
  case True
  then show ?thesis using uint_ge_0 [of w] by linarith
next
  case False
  moreover have "sint w < 9223372036854775808" using sint_lt [of w] by simp
  moreover have "uint w = sint w mod 18446744073709551616" by (simp add: uint_sint take_bit_eq_mod)
  ultimately show ?thesis by (simp add: mod_pos_pos_trivial)
qed

text \<open>From the bound on, the sum wraps, and the date is before the Unix epoch.\<close>

lemma sint_time_Unix_wraps:
  assumes "unix_limit \<le> unat s"
  shows "sint (t_sec (time_Unix s)) < 62135596800"
proof -
  have u: "uint (s + unixToInternal) = (uint s + 62135596800) mod 18446744073709551616"
    by (simp add: uint_word_ariths unixToInternal_def)
  have s: "9223372036854775808 - 62135596800 \<le> uint s" "uint s < 18446744073709551616"
  proof -
    have "9223372036854775808 - 62135596800 \<le> int (unat s)" using assms unfolding unix_limit_def by linarith
    then show "9223372036854775808 - 62135596800 \<le> uint s" by (simp only: uint_nat)
    show "uint s < 18446744073709551616" using uint_lt2p [of s] by simp
  qed
  show ?thesis
  proof (cases "uint s + 62135596800 < 18446744073709551616")
    case True
    then have "uint (s + unixToInternal) = uint s + 62135596800" using u uint_ge_0 [of s] by simp
    with s have "sint (s + unixToInternal) < 0" by (intro sint_negative) simp
    then show ?thesis by (simp add: time_Unix_def)
  next
    case False
    then have "uint (s + unixToInternal) = uint s + 62135596800 - 18446744073709551616"
      using u s by (simp add: mod_pos_pos_trivial flip: minus_mod_self2 [of "uint s + 62135596800" 18446744073709551616])
    with s sint_le_uint [of "s + unixToInternal"] show ?thesis by (simp add: time_Unix_def)
  qed
qed

end
