(* ===== verification/Sdk.thy ===== *)
theory Sdk
  imports GoErrors GoTime GoStrings
begin

text \<open>
  The third-party packages the program calls, as parameters: \<open>cosmos-sdk\<close> (cryptography, bech32,
  coins, transactions), \<open>go-bip39\<close> with \<open>crypto/hd\<close>, and the gRPC and CometBFT endpoints. Each package is a record
  of the functions the source calls, with the arguments the source gives; nothing is assumed of them
  here, and a theorem that relies on a documented behaviour names it as a hypothesis.

  The structures of \<open>cosmos-sdk\<close> that the source fills in field by field (coins, messages, the
  transaction a builder holds) are records of what the source puts there. An address in its byte
  form, a key and a packed \<open>Any\<close> are opaque byte strings.

  The world of a chain client is its clock (nanoseconds since the Unix epoch), the process-wide bech32
  configuration, the log of the calls made so far, and the rest of the outside \<open>'x\<close>, which the
  endpoints may change as they like; each of their answers says how long it took.
\<close>

section \<open>Cryptography\<close>

record cosmos_sdk =
  SortJSON :: "bytes \<Rightarrow> goerr + bytes"
  PubKeySize :: nat
  VerifySignature :: "bytes \<Rightarrow> bytes \<Rightarrow> bytes \<Rightarrow> bool" \<comment> \<open>key, message, signature\<close>
  Address :: "bytes \<Rightarrow> bytes" \<comment> \<open>of a public key\<close>
  ConvertAndEncode :: "string \<Rightarrow> bytes \<Rightarrow> goerr + string"
  PubKey :: "bytes \<Rightarrow> bytes" \<comment> \<open>of a private key\<close>
  Sign :: "bytes \<Rightarrow> bytes \<Rightarrow> goerr + bytes" \<comment> \<open>private key, message\<close>
  IsMnemonicValid :: "string \<Rightarrow> bool"
  NewSeed :: "string \<Rightarrow> string \<Rightarrow> bytes"
  ComputeMastersFromSeed :: "bytes \<Rightarrow> bytes \<times> bytes"
  DerivePrivateKeyForPath :: "bytes \<Rightarrow> bytes \<Rightarrow> string \<Rightarrow> goerr + bytes"
  NewMnemonic :: "bytes \<Rightarrow> goerr + string"

definition wrap :: "string \<Rightarrow> goerr + 'a \<Rightarrow> goerr + 'a" where
  "wrap fmt m = (case m of Inl err \<Rightarrow> Inl (Errorf fmt [AErrW err]) | Inr x \<Rightarrow> Inr x)"

lemma wrap_simps [simp]: "wrap fmt (Inl err) = Inl (Errorf fmt [AErrW err])" "wrap fmt (Inr x) = Inr x"
  by (simp_all add: wrap_def)

lemma wrap_Inr [returns]: "wrap fmt m = Inr x \<longleftrightarrow> m = Inr x"
  by (cases m) simp_all

definition hd_path :: string where
  "hd_path = ''m/44'' @ [CHR 0x27] @ ''/118'' @ [CHR 0x27] @ ''/0'' @ [CHR 0x27] @ ''/0/0''"

section \<open>Coins and transactions\<close>

record coin =
  coin_Denom :: string
  coin_Amount :: string \<comment> \<open>the text that \<open>Amount.String()\<close> gives\<close>

datatype authz_authorization = SendAuthorization "coin list" | OtherAuthorization

type_synonym any = bytes

record grant =
  g_Authorization :: any
  g_Expiration :: "gotime option"

datatype sdk_msg =
    MsgSend string string "coin list" \<comment> \<open>\<open>FromAddress\<close>, \<open>ToAddress\<close>, \<open>Amount\<close>\<close>
  | MsgExec bytes "sdk_msg list" \<comment> \<open>grantee, messages\<close>
  | MsgGrant bytes bytes authz_authorization "gotime option"

datatype sign_mode = SIGN_MODE_DIRECT

record signature_v2 =
  sig_PubKey :: bytes
  sig_SignMode :: sign_mode
  sig_Signature :: "bytes option"
  sig_Sequence :: uint64

record tx =
  tx_Msgs :: "sdk_msg list"
  tx_GasLimit :: uint64
  tx_FeeAmount :: "coin list"
  tx_FeePayer :: "bytes option"
  tx_Memo :: string
  tx_Signatures :: "signature_v2 list"

definition NewTxBuilder :: tx where
  "NewTxBuilder =
     \<lparr>tx_Msgs = [], tx_GasLimit = 0, tx_FeeAmount = [], tx_FeePayer = None, tx_Memo = [], tx_Signatures = []\<rparr>"

record signer_data =
  sd_ChainID :: string
  sd_AccountNumber :: uint64
  sd_Sequence :: uint64
  sd_PubKey :: bytes
  sd_Address :: string

text \<open>
  What the source takes out of a \<open>codec.Codec\<close> and a \<open>client.TxConfig\<close>: the content of a packed \<open>Any\<close>, whether the
  builder takes the messages and signatures, the bytes to sign and the encoding.
\<close>

record codec =
  UnpackAuthorization :: "any \<Rightarrow> goerr + authz_authorization"
  UnpackAccount :: "any \<Rightarrow> goerr + uint64 \<times> uint64" \<comment> \<open>account number, sequence\<close>

record tx_config =
  MsgsError :: "sdk_msg list \<Rightarrow> goerr option"
  SignaturesError :: "signature_v2 list \<Rightarrow> goerr option"
  GetSignBytes :: "signer_data \<Rightarrow> tx \<Rightarrow> goerr + bytes"
  TxEncoder :: "tx \<Rightarrow> goerr + bytes"

text \<open>How a codec is made: \<open>'r\<close> is an interface registry, and a module registers its interfaces in it.\<close>

datatype resolver = HybridResolver

record interface_registry_options =
  ProtoFiles :: resolver
  AddressCodec :: string \<comment> \<open>the prefix of the bech32 codec\<close>
  ValidatorAddressCodec :: string

datatype sdk_module = Module_std | Module_crypto | Module_auth | Module_bank | Module_authz

datatype sign_modes = DefaultSignModes

record 'r codec_sdk =
  NewInterfaceRegistryWithOptions :: "interface_registry_options \<Rightarrow> goerr + 'r"
  RegisterInterfaces :: "sdk_module \<Rightarrow> 'r \<Rightarrow> 'r"
  NewProtoCodec :: "'r \<Rightarrow> codec"
  NewTxConfig :: "codec \<Rightarrow> sign_modes \<Rightarrow> tx_config"

record tx_sdk =
  ParseCoinNormalized :: "string \<Rightarrow> goerr + coin"
  ParseCoinsNormalized :: "string \<Rightarrow> goerr + coin list"
  NewCoins :: "coin list \<Rightarrow> coin list"
  NewInt64Coin :: "string \<Rightarrow> int64 \<Rightarrow> coin"
  AccAddressFromBech32 :: "string \<Rightarrow> string \<Rightarrow> goerr + bytes" \<comment> \<open>configured prefix, address\<close>
  NewMsgGrant :: "bytes \<Rightarrow> bytes \<Rightarrow> authz_authorization \<Rightarrow> gotime \<Rightarrow> goerr + sdk_msg"
  MsgSendTypeURL :: string \<comment> \<open>\<open>sdk.MsgTypeURL(&banktypes.MsgSend{})\<close>\<close>

text \<open>The setters of a builder that can fail store their argument when they do not.\<close>

definition SetMsgs :: "tx_config \<Rightarrow> sdk_msg list \<Rightarrow> tx \<Rightarrow> goerr + tx" where
  "SetMsgs X ms b =
     (case MsgsError X ms of Some err \<Rightarrow> Inl err | None \<Rightarrow> Inr (b\<lparr>tx_Msgs := ms\<rparr>))"

definition SetSignatures :: "tx_config \<Rightarrow> signature_v2 list \<Rightarrow> tx \<Rightarrow> goerr + tx" where
  "SetSignatures X sigs b =
     (case SignaturesError X sigs of Some err \<Rightarrow> Inl err | None \<Rightarrow> Inr (b\<lparr>tx_Signatures := sigs\<rparr>))"

lemma SetMsgs_Inr [returns]: "SetMsgs X ms b = Inr b' \<longleftrightarrow> MsgsError X ms = None \<and> b' = b\<lparr>tx_Msgs := ms\<rparr>"
  by (auto simp: SetMsgs_def split: option.splits)

lemma SetSignatures_Inr [returns]:
  "SetSignatures X ss b = Inr b' \<longleftrightarrow> SignaturesError X ss = None \<and> b' = b\<lparr>tx_Signatures := ss\<rparr>"
  by (auto simp: SetSignatures_def split: option.splits)

section \<open>Endpoints and the world\<close>

record broadcast_result =
  br_Code :: nat
  br_Log :: string
  br_Hash :: bytes

record tx_result =
  tr_Height :: int
  tr_Code :: nat
  tr_Log :: string

text \<open>
  An endpoint answers with the text of an error or with a value, the nanoseconds it took, and the new
  outside. \<open>elapse\<close> is the time that passes before the clock is read, \<open>ctx_Done\<close> the decision of a
  \<open>select\<close> between the request's context and a timer that fires at the given time.
\<close>

record 'x network =
  Grants :: "string \<Rightarrow> string \<Rightarrow> string \<Rightarrow> 'x \<Rightarrow> (string + grant list) \<times> nat \<times> 'x"
  Balance :: "string \<Rightarrow> string \<Rightarrow> 'x \<Rightarrow> (string + coin option) \<times> nat \<times> 'x"
  Account :: "string \<Rightarrow> 'x \<Rightarrow> (string + any) \<times> nat \<times> 'x"
  BroadcastTxSync :: "bytes \<Rightarrow> 'x \<Rightarrow> (string + broadcast_result) \<times> nat \<times> 'x"
  Tx :: "bytes \<Rightarrow> 'x \<Rightarrow> (string + tx_result option) \<times> nat \<times> 'x"
  NewGRPC :: "string \<Rightarrow> bool \<Rightarrow> 'x \<Rightarrow> string option \<times> nat \<times> 'x"
  NewRPC :: "string \<Rightarrow> string \<Rightarrow> 'x \<Rightarrow> string option \<times> nat \<times> 'x"
  elapse :: "'x \<Rightarrow> nat \<times> 'x"
  ctx_Done :: "nat \<Rightarrow> 'x \<Rightarrow> goerr option \<times> 'x"

record payment =
  pay_from :: string
  pay_to :: string
  pay_text :: string \<comment> \<open>the amount with its denomination, as given to the coin parser\<close>

datatype rpc =
    CallGrants string string string
  | CallBalance string string
  | CallAccount string
  | is_CallBroadcast: CallBroadcast (broadcast_payment: "payment option") tx
  | is_CallTx: CallTx bytes
  | CallNewGRPC string bool
  | CallNewRPC string string
  | CallClose

record bech32_config =
  account_prefix :: "string \<times> string"
  validator_prefix :: "string \<times> string"
  consensus_prefix :: "string \<times> string"

record 'x world =
  w_clock :: nat
  w_config :: bech32_config
  w_calls :: "rpc list"
  w_ext :: 'x

definition call :: "rpc \<Rightarrow> ('x \<Rightarrow> 'r \<times> nat \<times> 'x) \<Rightarrow> 'x world \<Rightarrow> 'r \<times> 'x world" where
  "call c f w =
     (let (r, d, x) = f (w_ext w)
      in (r, w\<lparr>w_clock := w_clock w + d, w_calls := w_calls w @ [c], w_ext := x\<rparr>))"

definition second :: nat where
  "second = 1000000000"

definition gotime_of :: "nat \<Rightarrow> gotime" where
  "gotime_of n = \<lparr>t_sec = of_nat (n div second) + unixToInternal, t_nsec = n mod second\<rparr>"

definition read_clock :: "'x network \<Rightarrow> 'x world \<Rightarrow> nat \<times> 'x world" where
  "read_clock N w =
     (let (d, x) = elapse N (w_ext w); now = w_clock w + d in (now, w\<lparr>w_clock := now, w_ext := x\<rparr>))"

definition time_Now :: "'x network \<Rightarrow> 'x world \<Rightarrow> gotime \<times> 'x world" where
  "time_Now N w = (let (now, w1) = read_clock N w in (gotime_of now, w1))"

lemma Unix_gotime_of: "Unix (gotime_of n) = of_nat (n div second)"
  by (simp add: Unix_def gotime_of_def)

lemma w_calls_call [simp]: "w_calls (snd (call c f w)) = w_calls w @ [c]"
  by (simp add: call_def Let_def split: prod.splits)

lemma w_calls_time_Now [simp]: "w_calls (snd (time_Now N w)) = w_calls w"
  by (simp add: time_Now_def read_clock_def Let_def split: prod.splits)

lemma w_calls_read_clock [simp]: "w_calls (snd (read_clock N w)) = w_calls w"
  by (simp add: read_clock_def Let_def split: prod.splits)

lemma callE:
  assumes "call c f w = (r, w1)"
  shows "w_calls w1 = w_calls w @ [c]" and "w_clock w \<le> w_clock w1" and "w_config w1 = w_config w"
  using assms by (auto simp: call_def Let_def split: prod.splits)

lemma read_clockE:
  assumes "read_clock N w = (now, w1)"
  shows "w_calls w1 = w_calls w" and "w_clock w \<le> w_clock w1" and "now = w_clock w1" and "w_config w1 = w_config w"
  using assms by (auto simp: read_clock_def Let_def split: prod.splits)

section \<open>Payments handed to a chain\<close>

definition sent_in :: "rpc list \<Rightarrow> payment list" where
  "sent_in cs = concat (map (\<lambda>c. case c of CallBroadcast (Some p) _ \<Rightarrow> [p] | _ \<Rightarrow> []) cs)"

definition sent_payments :: "'x world \<Rightarrow> payment list" where
  "sent_payments w = sent_in (w_calls w)"

lemma sent_in_simps [simp]:
  "sent_in [] = []" "sent_in (cs @ ds) = sent_in cs @ sent_in ds"
  "sent_in (CallBroadcast (Some p) t # cs) = p # sent_in cs" "sent_in (CallBroadcast None t # cs) = sent_in cs"
  "sent_in (CallGrants a b c # cs) = sent_in cs" "sent_in (CallBalance a b # cs) = sent_in cs"
  "sent_in (CallAccount a # cs) = sent_in cs" "sent_in (CallTx h # cs) = sent_in cs"
  "sent_in (CallNewGRPC a u # cs) = sent_in cs" "sent_in (CallNewRPC a b # cs) = sent_in cs"
  "sent_in (CallClose # cs) = sent_in cs"
  by (simp_all add: sent_in_def)

lemma sent_time_Now [simp]: "sent_payments (snd (time_Now N w)) = sent_payments w"
  by (simp add: sent_payments_def)

end
