(* ===== verification/Sha256.thy ===== *)
theory Sha256
  imports Prelude
begin

text \<open>
  \<open>crypto/sha256\<close>: \<open>Sum256\<close>, executable, on 32-bit words. The two tables are the fractional parts
  of the cube and square roots of the first primes, as the standard defines them.
\<close>

unbundle bit_operations_syntax

type_synonym uint32 = "32 word"

definition round_constants :: "uint32 list" where
  "round_constants =
   [1116352408, 1899447441, 3049323471, 3921009573, 961987163, 1508970993,
    2453635748, 2870763221, 3624381080, 310598401, 607225278, 1426881987,
    1925078388, 2162078206, 2614888103, 3248222580, 3835390401, 4022224774,
    264347078, 604807628, 770255983, 1249150122, 1555081692, 1996064986,
    2554220882, 2821834349, 2952996808, 3210313671, 3336571891, 3584528711,
    113926993, 338241895, 666307205, 773529912, 1294757372, 1396182291,
    1695183700, 1986661051, 2177026350, 2456956037, 2730485921, 2820302411,
    3259730800, 3345764771, 3516065817, 3600352804, 4094571909, 275423344,
    430227734, 506948616, 659060556, 883997877, 958139571, 1322822218,
    1537002063, 1747873779, 1955562222, 2024104815, 2227730452, 2361852424,
    2428436474, 2756734187, 3204031479, 3329325298]"

definition initial_hash :: "uint32 list" where
  "initial_hash =
   [1779033703, 3144134277, 1013904242, 2773480762, 1359893119, 2600822924,
    528734635, 1541459225]"

section \<open>Padding\<close>

definition big_endian :: "nat \<Rightarrow> nat \<Rightarrow> bytes" where
  "big_endian k n = map (\<lambda>i. char_of (n div 256 ^ i mod 256)) (rev [0..<k])"

definition padded :: "bytes \<Rightarrow> bytes" where
  "padded msg =
     msg @ [CHR 0x80] @ replicate ((119 - length msg mod 64) mod 64) (CHR 0x00)
     @ big_endian 8 (8 * length msg)"

section \<open>One block\<close>

fun words_of :: "bytes \<Rightarrow> uint32 list" where
  "words_of (a # b # c # d # r) =
     of_nat (((byte a * 256 + byte b) * 256 + byte c) * 256 + byte d) # words_of r"
| "words_of _ = []"

definition small_sigma0 :: "uint32 \<Rightarrow> uint32" where
  "small_sigma0 x = word_rotr 7 x XOR word_rotr 18 x XOR drop_bit 3 x"

definition small_sigma1 :: "uint32 \<Rightarrow> uint32" where
  "small_sigma1 x = word_rotr 17 x XOR word_rotr 19 x XOR drop_bit 10 x"

definition big_sigma0 :: "uint32 \<Rightarrow> uint32" where
  "big_sigma0 x = word_rotr 2 x XOR word_rotr 13 x XOR word_rotr 22 x"

definition big_sigma1 :: "uint32 \<Rightarrow> uint32" where
  "big_sigma1 x = word_rotr 6 x XOR word_rotr 11 x XOR word_rotr 25 x"

text \<open>
  The schedule is kept as a window of the last sixteen words, the oldest first; each round uses
  the oldest one and appends the next.
\<close>

definition next_word :: "uint32 list \<Rightarrow> uint32" where
  "next_word w = small_sigma1 (w ! 14) + w ! 9 + small_sigma0 (w ! 1) + w ! 0"

fun compress :: "uint32 list \<Rightarrow> uint32 list \<Rightarrow> uint32 list \<Rightarrow> uint32 list" where
  "compress (k # ks) w [a, b, c, d, e, f, g, h] =
     (let t1 = h + big_sigma1 e + ((e AND f) XOR (NOT e AND g)) + k + w ! 0;
          t2 = big_sigma0 a + ((a AND b) XOR (a AND c) XOR (b AND c))
      in compress ks (tl w @ [next_word w]) [t1 + t2, a, b, c, d + t1, e, f, g])"
| "compress _ w st = st"

definition absorb :: "uint32 list \<Rightarrow> bytes \<Rightarrow> uint32 list" where
  "absorb st block = map2 (+) st (compress round_constants (words_of block) st)"

fun blocks :: "nat \<Rightarrow> bytes \<Rightarrow> bytes list" where
  "blocks 0 s = []"
| "blocks (Suc n) s = take 64 s # blocks n (drop 64 s)"

definition Sum256 :: "bytes \<Rightarrow> bytes" where
  "Sum256 msg =
     (let p = padded msg
      in concat (map (\<lambda>w. big_endian 4 (unat w)) (fold (\<lambda>b st. absorb st b) (blocks (length p div 64) p) initial_hash)))"

lemma length_big_endian [simp]: "length (big_endian k n) = k"
  by (simp add: big_endian_def)

lemma pad_length:
  fixes r :: nat
  assumes "r < 64"
  shows "r + (1 + ((119 - r) mod 64 + 8)) = (if r \<le> 55 then 64 else 128)"
proof (cases "r \<le> 55")
  case True
  then have "(119 - r) mod 64 = 55 - r" by (simp add: le_mod_geq)
  with True show ?thesis by simp
next
  case False
  with assms show ?thesis by simp
qed

lemma length_padded: "64 dvd length (padded msg)"
proof -
  define r q where "r = length msg mod 64" and "q = length msg div 64"
  have len: "length msg = 64 * q + r" by (simp add: r_def q_def)
  have pad: "r + (1 + ((119 - r) mod 64 + 8)) = (if r \<le> 55 then 64 else 128)"
    by (rule pad_length) (simp add: r_def)
  have "length (padded msg) = length msg + (1 + ((119 - r) mod 64 + 8))"
    by (simp add: padded_def r_def)
  also have "\<dots> = 64 * q + (r + (1 + ((119 - r) mod 64 + 8)))"
    unfolding len by (rule add.assoc)
  also have "\<dots> = 64 * q + (if r \<le> 55 then 64 else 128)"
    by (simp only: pad)
  finally show ?thesis by simp
qed

lemma length_compress: "length st = 8 \<Longrightarrow> length (compress ks w st) = 8"
  by (induction ks w st rule: compress.induct) (simp_all add: Let_def)

lemma length_absorb: "length st = 8 \<Longrightarrow> length (absorb st b) = 8"
  by (simp add: absorb_def length_compress)

lemma length_Sum256 [simp]: "length (Sum256 msg) = 32"
proof -
  have "length (fold (\<lambda>b st. absorb st b) bs st) = 8" if "length st = 8" for bs st
    using that by (induction bs arbitrary: st) (simp_all add: length_absorb)
  from this [of initial_hash] show ?thesis
    by (simp add: Sum256_def Let_def length_concat o_def initial_hash_def sum_list_triv)
qed

end
