(* ===== verification/Adr036.thy ===== *)
theory Adr036
  imports Wire Sdk Sha256
begin

text \<open>
  \<open>facilitator/adr036.go\<close>: the bytes a payer signs and the verification of the signature. The
  functions of \<open>cosmos-sdk\<close> that the file calls are fields of the record \<open>cosmos_sdk\<close>, a parameter
  of every definition. Of \<open>sdk.SortJSON\<close> the theorems use what its comment documents (keys sorted,
  white space removed), restricted to the numbers that survive its detour through \<open>float64\<close>: that is
  \<open>sorts_json\<close>. \<open>sort_text\<close> is a function that satisfies it.
\<close>

section \<open>The code\<close>

record adr036Fee =
  f_Amount :: "json list"
  f_Gas :: string

record adr036SignMsgValue =
  v_Data :: string
  v_Signer :: string

record adr036SignMsg =
  m_Type :: string
  m_Value :: adr036SignMsgValue

record adr036SignDoc =
  d_AccountNumber :: string
  d_ChainID :: string
  d_Fee :: adr036Fee
  d_Memo :: string
  d_Msgs :: "adr036SignMsg list"
  d_Sequence :: string

definition adr036Fee_json :: "adr036Fee \<Rightarrow> json" where
  "adr036Fee_json f = JObj [(''amount'', JArr (f_Amount f)), (''gas'', JStr (f_Gas f))]"

definition adr036SignMsgValue_json :: "adr036SignMsgValue \<Rightarrow> json" where
  "adr036SignMsgValue_json v = JObj [(''data'', JStr (v_Data v)), (''signer'', JStr (v_Signer v))]"

definition adr036SignMsg_json :: "adr036SignMsg \<Rightarrow> json" where
  "adr036SignMsg_json m =
     JObj [(''type'', JStr (m_Type m)), (''value'', adr036SignMsgValue_json (m_Value m))]"

definition adr036SignDoc_json :: "adr036SignDoc \<Rightarrow> json" where
  "adr036SignDoc_json d = JObj
     [(''account_number'', JStr (d_AccountNumber d)), (''chain_id'', JStr (d_ChainID d)),
      (''fee'', adr036Fee_json (d_Fee d)), (''memo'', JStr (d_Memo d)),
      (''msgs'', JArr (map adr036SignMsg_json (d_Msgs d))), (''sequence'', JStr (d_Sequence d))]"

text \<open>\<open>json.Marshal\<close> cannot fail on these structs: they hold strings and numbers only.\<close>

definition CanonicalAuthorizationJSON :: "cosmos_sdk \<Rightarrow> Authorization \<Rightarrow> goerr + bytes" where
  "CanonicalAuthorizationJSON S a =
     (let bz = json_print (Authorization_json a) in
      case SortJSON S bz of
        Inl err \<Rightarrow> Inl (Errorf ''sort authorization json: %w'' [AErrW err])
      | Inr sorted_bz \<Rightarrow> Inr sorted_bz)"

definition sign_doc :: "string \<Rightarrow> string \<Rightarrow> adr036SignDoc" where
  "sign_doc b64data signer =
     \<lparr>d_AccountNumber = ''0'', d_ChainID = [],
      d_Fee = \<lparr>f_Amount = [], f_Gas = ''0''\<rparr>, d_Memo = [],
      d_Msgs = [\<lparr>m_Type = ''sign/MsgSignData'', m_Value = \<lparr>v_Data = b64data, v_Signer = signer\<rparr>\<rparr>],
      d_Sequence = ''0''\<rparr>"

definition adr036Preimage :: "cosmos_sdk \<Rightarrow> Authorization \<Rightarrow> goerr + bytes" where
  "adr036Preimage S a =
     (case CanonicalAuthorizationJSON S a of
        Inl err \<Rightarrow> Inl err
      | Inr innerJSON \<Rightarrow>
          let b64data = base64_Encode innerJSON;
              doc = sign_doc b64data (a_From a);
              bz = json_print (adr036SignDoc_json doc)
          in SortJSON S bz)"

definition ADR036Preimage :: "cosmos_sdk \<Rightarrow> Authorization \<Rightarrow> goerr + bytes" where
  "ADR036Preimage S a = adr036Preimage S a"

definition ADR036SignBytes :: "cosmos_sdk \<Rightarrow> Authorization \<Rightarrow> goerr + bytes" where
  "ADR036SignBytes S a =
     (case adr036Preimage S a of
        Inl err \<Rightarrow> Inl err
      | Inr preimage \<Rightarrow> Inr (Sum256 preimage))"

definition VerifyADR036 ::
  "cosmos_sdk \<Rightarrow> string \<Rightarrow> string \<Rightarrow> Authorization \<Rightarrow> string \<Rightarrow> goerr + string" where
  "VerifyADR036 S pubKeyB64 signatureB64 a accountPrefix =
     (case base64_Decode pubKeyB64 of
        None \<Rightarrow> Inl (Errorf ''decode pubkey: %w'' [AErrW CorruptInputError])
      | Some pubKeyBz \<Rightarrow>
          if length pubKeyBz \<noteq> PubKeySize S then
            Inl (Errorf ''pubkey length: got %d, want %d'' [AInt (int (length pubKeyBz)), AInt (int (PubKeySize S))])
          else
     (case base64_Decode signatureB64 of
        None \<Rightarrow> Inl (Errorf ''decode signature: %w'' [AErrW CorruptInputError])
      | Some sig \<Rightarrow>
          if length sig \<noteq> 64 then
            Inl (Errorf ''signature length: got %d, want 64'' [AInt (int (length sig))])
          else
     (case adr036Preimage S a of
        Inl err \<Rightarrow> Inl err
      | Inr preimage \<Rightarrow>
          if \<not> VerifySignature S pubKeyBz preimage sig then
            Inl (ErrNew ''signature verification failed'')
          else
     (case ConvertAndEncode S accountPrefix (Address S pubKeyBz) of
        Inl err \<Rightarrow> Inl (Errorf ''bech32 encode: %w'' [AErrW err])
      | Inr addr \<Rightarrow>
          if addr \<noteq> a_From a then
            Inl (Errorf ''pubkey/from mismatch: signed by %s, claims %s'' [AStr addr, AStr (a_From a)])
          else Inr addr))))"

section \<open>What SortJSON promises\<close>

fun sort_json :: "json \<Rightarrow> json"
  and sort_elems :: "json list \<Rightarrow> json list"
  and sort_members :: "(string \<times> json) list \<Rightarrow> (string \<times> json) list" where
  "sort_json (JArr xs) = JArr (sort_elems xs)"
| "sort_json (JObj m) = JObj (sort_key fst (sort_members m))"
| "sort_json j = j"
| "sort_elems [] = []"
| "sort_elems (x # xs) = sort_json x # sort_elems xs"
| "sort_members [] = []"
| "sort_members ((k, v) # m) = (k, sort_json v) # sort_members m"

text \<open>Integers up to 2 to the 53 are exact in \<open>float64\<close>; a Go map keeps one value per key.\<close>

fun exact_json :: "json \<Rightarrow> bool"
  and exact_elems :: "json list \<Rightarrow> bool"
  and exact_members :: "(string \<times> json) list \<Rightarrow> bool" where
  "exact_json (JNum l) = (\<exists>n \<le> 2 ^ 53. l = show_nat n)"
| "exact_json (JArr xs) = exact_elems xs"
| "exact_json (JObj m) = (distinct (map fst m) \<and> exact_members m)"
| "exact_json _ = True"
| "exact_elems [] = True"
| "exact_elems (x # xs) = (exact_json x \<and> exact_elems xs)"
| "exact_members [] = True"
| "exact_members ((k, v) # m) = (exact_json v \<and> exact_members m)"

definition sortable :: "json \<Rightarrow> bool" where
  "sortable j \<longleftrightarrow> json_ok j \<and> exact_json j \<and> json_depth j \<le> max_depth"

definition sorts_json :: "(bytes \<Rightarrow> goerr + bytes) \<Rightarrow> bool" where
  "sorts_json f \<longleftrightarrow> (\<forall>j. sortable j \<longrightarrow> f (json_print j) = Inr (json_print (sort_json j)))"

definition sort_text :: "bytes \<Rightarrow> goerr + bytes" where
  "sort_text s =
     (case json_Unmarshal s of
        None \<Rightarrow> Inl (Foreign ''invalid JSON'')
      | Some j \<Rightarrow> Inr (json_print (sort_json j)))"

lemma sorts_json_sort_text: "sorts_json sort_text"
  by (simp add: sorts_json_def sortable_def sort_text_def json_roundtrip)

lemma sorts_jsonD: "sorts_json f \<Longrightarrow> sortable j \<Longrightarrow> f (json_print j) = Inr (json_print (sort_json j))"
  by (simp add: sorts_json_def)

section \<open>The canonical form\<close>

definition exact_times :: "Authorization \<Rightarrow> bool" where
  "exact_times a \<longleftrightarrow> unat (a_ValidAfter a) \<le> 2 ^ 53 \<and> unat (a_ValidBefore a) \<le> 2 ^ 53"

definition Canonical_json :: "Authorization \<Rightarrow> json" where
  "Canonical_json a = JObj
     [(''amount'', JStr (a_Amount a)), (''chainId'', JStr (a_ChainID a)), (''denom'', JStr (a_Denom a)),
      (''from'', JStr (a_From a)), (''nonce'', JStr (a_Nonce a)), (''resource'', JStr (a_Resource a)),
      (''to'', JStr (a_To a)), (''validAfter'', num64 (a_ValidAfter a)),
      (''validBefore'', num64 (a_ValidBefore a))]"

lemma sort_json_num64 [simp]: "sort_json (num64 w) = num64 w"
  by (simp add: num64_def)

lemma num64_inject [simp]: "num64 v = num64 w \<longleftrightarrow> v = w"
  by (simp add: num64_def word_unat_eq_iff)

lemma sort_Authorization: "sort_json (Authorization_json a) = Canonical_json a"
  by (simp add: Authorization_json_def Canonical_json_def less_eq_char_def)

lemma Canonical_json_inject: "Canonical_json a = Canonical_json b \<longleftrightarrow> a = b"
  by (auto simp: Canonical_json_def)

lemma sortable_Authorization: "valid_Authorization a \<Longrightarrow> exact_times a \<Longrightarrow> sortable (Authorization_json a)"
  using authorization.printable [of a] authorization.depth_limit [of a]
  by (auto simp: sortable_def Authorization_json_def num64_def exact_times_def)

lemma json_ok_Canonical: "valid_Authorization a \<Longrightarrow> json_ok (Canonical_json a)"
  by (simp add: Canonical_json_def valid_Authorization_def)

lemma depth_Canonical: "json_depth (Canonical_json a) = 1"
  by (simp add: Canonical_json_def)

text \<open>The canonical text: the members in the order of their names.\<close>

lemma CanonicalAuthorizationJSON_eq:
  assumes "sorts_json (SortJSON S)" and "valid_Authorization a" and "exact_times a"
  shows "CanonicalAuthorizationJSON S a = Inr (json_print (Canonical_json a))"
  using sorts_jsonD [OF assms(1) sortable_Authorization [OF assms(2,3)]]
  by (simp add: CanonicalAuthorizationJSON_def sort_Authorization)


section \<open>The preimage\<close>

abbreviation doc_json :: "string \<Rightarrow> string \<Rightarrow> json" where
  "doc_json data signer \<equiv> adr036SignDoc_json (sign_doc data signer)"

lemmas doc_defs = adr036SignDoc_json_def sign_doc_def adr036Fee_json_def adr036SignMsg_json_def
  adr036SignMsgValue_json_def

lemma sort_doc: "sort_json (doc_json data signer) = doc_json data signer"
  by (simp add: doc_defs less_eq_char_def)

lemma doc_json_inject: "doc_json data signer = doc_json data' signer' \<longleftrightarrow> data = data' \<and> signer = signer'"
  by (simp add: doc_defs)

lemma valid_utf8_base64 [simp]: "valid_utf8 (base64_Encode b)"
proof (rule valid_utf8_ascii)
  have "byte c < 128" if "b64_text c" for c
    using that by (auto simp: b64_text_def b64_val_def b64_pad_def byte_literals Let_def split: if_splits)
  then show "list_all (\<lambda>c. byte c < 128) (base64_Encode b)"
    using base64_Encode_text [of b] by (simp add: list_all_iff)
qed

lemma sortable_doc: "valid_utf8 signer \<Longrightarrow> sortable (doc_json (base64_Encode b) signer)"
  by (simp add: sortable_def doc_defs max_depth_def)

definition preimage_text :: "Authorization \<Rightarrow> bytes" where
  "preimage_text a = json_print (doc_json (base64_Encode (json_print (Canonical_json a))) (a_From a))"

lemma adr036Preimage_eq:
  assumes "sorts_json (SortJSON S)" and "valid_Authorization a" and "exact_times a"
  shows "adr036Preimage S a = Inr (preimage_text a)"
proof -
  have "valid_utf8 (a_From a)" using assms(2) by (simp add: valid_Authorization_def)
  from sorts_jsonD [OF assms(1) sortable_doc [OF this]] show ?thesis
    by (simp add: adr036Preimage_def CanonicalAuthorizationJSON_eq [OF assms] sort_doc preimage_text_def)
qed

lemma preimage_text_inject:
  assumes "valid_Authorization a" and "valid_Authorization b"
    and eq: "preimage_text a = preimage_text b"
  shows "a = b"
proof -
  let ?d = "\<lambda>x. doc_json (base64_Encode (json_print (Canonical_json x))) (a_From x)"
  have "sortable (?d a)" and "sortable (?d b)"
    using assms(1,2) by (simp_all add: sortable_doc valid_Authorization_def)
  then have "Some (?d a) = Some (?d b)"
    using eq by (metis json_roundtrip preimage_text_def sortable_def)
  then have "json_print (Canonical_json a) = json_print (Canonical_json b)"
    by (simp add: doc_json_inject)
  moreover have "json_Unmarshal (json_print (Canonical_json x)) = Some (Canonical_json x)"
    if "valid_Authorization x" for x
    using that by (simp add: json_roundtrip json_ok_Canonical depth_Canonical max_depth_def)
  ultimately show ?thesis
    using assms(1,2) by (metis Canonical_json_inject option.inject)
qed

section \<open>The verification\<close>

lemma VerifyADR036_Inr [returns]:
  "VerifyADR036 S pk sg a prefix = Inr addr \<longleftrightarrow>
    (\<exists>pkb sgb pre. base64_Decode pk = Some pkb \<and> length pkb = PubKeySize S
      \<and> base64_Decode sg = Some sgb \<and> length sgb = 64
      \<and> adr036Preimage S a = Inr pre \<and> VerifySignature S pkb pre sgb
      \<and> ConvertAndEncode S prefix (Address S pkb) = Inr (a_From a) \<and> addr = a_From a)"
  by (auto simp: VerifyADR036_def split: option.splits sum.splits if_splits)

text \<open>The client's side: sign the preimage, encode key and signature.\<close>

lemma VerifyADR036_accepts:
  assumes "adr036Preimage S a = Inr pre"
    and "length key = PubKeySize S" and "length sig = 64"
    and "VerifySignature S key pre sig" and "ConvertAndEncode S prefix (Address S key) = Inr (a_From a)"
  shows "VerifyADR036 S (base64_Encode key) (base64_Encode sig) a prefix = Inr (a_From a)"
  using assms by (simp add: VerifyADR036_Inr)

end
