(* ===== verification/Http.thy ===== *)
theory Http
  imports GoStrings
begin

text \<open>
  The part of \<open>net/http\<close> the handlers use. A request is what the handlers read of it; a header is an
  association list under canonical names. The writer remembers the headers, the status once
  \<open>WriteHeader\<close> has been called, the headers as they were at that moment (later changes are not sent)
  and the body; a body written first sends status 200.
\<close>

type_synonym header = "(string \<times> string) list"

definition lower_char :: "char \<Rightarrow> char" where
  "lower_char c = (if 65 \<le> byte c \<and> byte c \<le> 90 then char_of (byte c + 32) else c)"

text \<open>\<open>CanonicalMIMEHeaderKey\<close>: upper case at the start and after a hyphen, lower case elsewhere.\<close>

fun canonical_from :: "bool \<Rightarrow> string \<Rightarrow> string" where
  "canonical_from up [] = []"
| "canonical_from up (c # cs) =
     (if up then upper_char c else lower_char c) # canonical_from (c = CHR ''-'') cs"

definition canonical :: "string \<Rightarrow> string" where
  "canonical k = canonical_from True k"

definition header_Set :: "string \<Rightarrow> string \<Rightarrow> header \<Rightarrow> header" where
  "header_Set k v h = AList.update (canonical k) v h"

definition header_Get :: "header \<Rightarrow> string \<Rightarrow> string" where
  "header_Get h k = (case map_of h (canonical k) of None \<Rightarrow> [] | Some v \<Rightarrow> v)"

record http_request =
  r_Method :: string
  r_Host :: string
  r_Path :: string
  r_TLS :: bool
  r_Header :: header
  r_Body :: string

record writer =
  rw_header :: header
  rw_sent :: "(nat \<times> header) option"
  rw_body :: string

definition new_writer :: writer where
  "new_writer = \<lparr>rw_header = [], rw_sent = None, rw_body = []\<rparr>"

definition set_header :: "string \<Rightarrow> string \<Rightarrow> writer \<Rightarrow> writer" where
  "set_header k v w = w\<lparr>rw_header := header_Set k v (rw_header w)\<rparr>"

definition write_header :: "nat \<Rightarrow> writer \<Rightarrow> writer" where
  "write_header status w =
     (case rw_sent w of None \<Rightarrow> w\<lparr>rw_sent := Some (status, rw_header w)\<rparr> | Some _ \<Rightarrow> w)"

definition write_body :: "string \<Rightarrow> writer \<Rightarrow> writer" where
  "write_body b w = (let w1 = write_header 200 w in w1\<lparr>rw_body := rw_body w1 @ b\<rparr>)"

text \<open>What the peer receives: the server sends status 200 if the handler wrote nothing.\<close>

record http_response =
  hr_Status :: nat
  hr_Header :: header
  hr_Body :: string

definition response :: "writer \<Rightarrow> http_response" where
  "response w =
     (case rw_sent w of
        None \<Rightarrow> \<lparr>hr_Status = 200, hr_Header = rw_header w, hr_Body = rw_body w\<rparr>
      | Some (status, h) \<Rightarrow> \<lparr>hr_Status = status, hr_Header = h, hr_Body = rw_body w\<rparr>)"

definition newline :: string where
  "newline = [CHR 0x0A]"

definition http_Error :: "string \<Rightarrow> nat \<Rightarrow> writer \<Rightarrow> writer" where
  "http_Error msg code w =
     write_body (msg @ newline) (write_header code
       (set_header ''X-Content-Type-Options'' ''nosniff''
         (set_header ''Content-Type'' ''text/plain; charset=utf-8'' w)))"

lemma header_Get_Set [simp]:
  "header_Get (header_Set k v h) k' = (if canonical k = canonical k' then v else header_Get h k')"
  by (simp add: header_Get_def header_Set_def)

lemma header_Get_Nil [simp]: "header_Get [] k = []"
  by (simp add: header_Get_def)

lemma writer_simps [simp]:
  "rw_header (set_header k v w) = header_Set k v (rw_header w)" "rw_sent (set_header k v w) = rw_sent w"
  "rw_body (set_header k v w) = rw_body w" "rw_body (write_header st w) = rw_body w"
  "rw_header (write_header st w) = rw_header w"
  "rw_sent (write_header st w) = (case rw_sent w of None \<Rightarrow> Some (st, rw_header w) | Some p \<Rightarrow> Some p)"
  "rw_body (write_body b w) = rw_body w @ b"
  "rw_sent (write_body b w) = (case rw_sent w of None \<Rightarrow> Some (200, rw_header w) | Some p \<Rightarrow> Some p)"
  "rw_header new_writer = []" "rw_sent new_writer = None" "rw_body new_writer = []"
  by (simp_all add: set_header_def write_header_def write_body_def new_writer_def Let_def split: option.splits)

text \<open>A response whose status was written once carries the headers set before.\<close>

end
