(* ===== verification/Keys.thy ===== *)
theory Keys
  imports Adr036 GoTime Http
begin

text \<open>
  What the command-line programs of the repository share: they derive a key from a mnemonic (\<open>deriveKey\<close> has
  one copy per program), draw a nonce (\<open>freshNonce\<close>) and sign an authorization.
\<close>

text \<open>A string flag of package \<open>flag\<close>: what the command line gives for it, or its default.\<close>

definition flag_or :: "(string \<Rightarrow> string option) \<Rightarrow> string \<Rightarrow> string \<Rightarrow> string" where
  "flag_or flag name def = (case flag name of Some v \<Rightarrow> v | None \<Rightarrow> def)"

section \<open>Keys\<close>

text \<open>\<open>deriveKey\<close>: the copies differ in how they make the error of an invalid mnemonic.\<close>

definition derive_trimmed :: "goerr \<Rightarrow> cosmos_sdk \<Rightarrow> string \<Rightarrow> string \<Rightarrow> goerr + bytes \<times> string" where
  "derive_trimmed invalid S mnemonic0 prefix =
     (let mnemonic = trim_space mnemonic0 in
      if \<not> IsMnemonicValid S mnemonic then Inl invalid
      else
        let seed = NewSeed S mnemonic [];
            (master, ch) = ComputeMastersFromSeed S seed in
        case DerivePrivateKeyForPath S master ch hd_path of
          Inl err \<Rightarrow> Inl err
        | Inr keyBz \<Rightarrow>
            let priv = keyBz in
            (case ConvertAndEncode S prefix (Address S (PubKey S priv)) of
               Inl err \<Rightarrow> Inl err
             | Inr addr \<Rightarrow> Inr (priv, addr)))"

lemma derive_trimmed_Inr:
  assumes "derive_trimmed invalid S mnemonic prefix = Inr (priv, addr)"
  shows "ConvertAndEncode S prefix (Address S (PubKey S priv)) = Inr addr"
    and "\<exists>master ch. DerivePrivateKeyForPath S master ch hd_path = Inr priv"
  using assms by (auto simp: derive_trimmed_def Let_def split: if_splits prod.splits sum.splits)

lemma derive_trimmed_invalid:
  "derive_trimmed invalid S mnemonic prefix = Inr r \<Longrightarrow> derive_trimmed invalid' S mnemonic prefix = Inr r"
  by (simp add: derive_trimmed_def Let_def split: if_splits)

section \<open>Nonces\<close>

text \<open>\<open>rand\<close> is \<open>rand.Read\<close> of \<open>crypto/rand\<close> on a buffer of the given length.\<close>

definition fresh_nonce :: "(nat \<Rightarrow> 'y \<Rightarrow> (goerr + bytes) \<times> 'y) \<Rightarrow> 'y \<Rightarrow> (exit + string) \<times> 'y" where
  "fresh_nonce rand y =
     (case rand 32 y of
        (Inl err, y1) \<Rightarrow> (Inl (Panic err), y1)
      | (Inr b, y1) \<Rightarrow> (Inr (''0x'' @ hex_EncodeToString b), y1))"

lemma fresh_nonce_Inr:
  "fresh_nonce rand y = (Inr n, y1) \<longleftrightarrow> (\<exists>b. rand 32 y = (Inr b, y1) \<and> n = ''0x'' @ hex_EncodeToString b)"
  by (auto simp: fresh_nonce_def split: sum.splits prod.splits)

section \<open>Signing\<close>

text \<open>
  The documented behaviour of the signature scheme: the public half of a derived key has the size the package names,
  a signature has 64 bytes and verifies under the key's public half.
\<close>

definition signature_scheme :: "cosmos_sdk \<Rightarrow> bool" where
  "signature_scheme S \<longleftrightarrow>
     (\<forall>master ch path priv. DerivePrivateKeyForPath S master ch path = Inr priv \<longrightarrow> length (PubKey S priv) = PubKeySize S)
     \<and> (\<forall>priv msg sig. Sign S priv msg = Inr sig \<longrightarrow> length sig = 64 \<and> VerifySignature S (PubKey S priv) msg sig)"

definition sign_authorization :: "cosmos_sdk \<Rightarrow> bytes \<Rightarrow> Authorization \<Rightarrow> goerr + bytes \<times> bytes" where
  "sign_authorization S priv auth =
     (case ADR036Preimage S auth of
        Inl err \<Rightarrow> Inl err
      | Inr preimage \<Rightarrow>
     (case Sign S priv preimage of
        Inl err \<Rightarrow> Inl err
      | Inr sig \<Rightarrow> Inr (sig, PubKey S priv)))"

lemma sign_authorization_Inr:
  "sign_authorization S priv auth = Inr (sig, pk) \<longleftrightarrow>
    (\<exists>preimage. ADR036Preimage S auth = Inr preimage \<and> Sign S priv preimage = Inr sig \<and> pk = PubKey S priv)"
  by (auto simp: sign_authorization_def split: sum.splits)

text \<open>What a payer signs with a derived key, the facilitator's \<open>VerifyADR036\<close> accepts.\<close>

lemma signed_verifies:
  assumes "signature_scheme S" and "derive_trimmed invalid S mnemonic prefix = Inr (priv, a_From auth)"
    and "sign_authorization S priv auth = Inr (sig, pk)"
  shows "VerifyADR036 S (base64_Encode pk) (base64_Encode sig) auth prefix = Inr (a_From auth)"
proof -
  obtain pre where pre: "adr036Preimage S auth = Inr pre" and sig: "Sign S priv pre = Inr sig" and pk: "pk = PubKey S priv"
    using assms(3) by (auto simp: sign_authorization_Inr ADR036Preimage_def)
  have "length (PubKey S priv) = PubKeySize S" and "length sig = 64 \<and> VerifySignature S (PubKey S priv) pre sig"
    using assms(1) sig derive_trimmed_Inr(2) [OF assms(2)] unfolding signature_scheme_def by blast+
  with derive_trimmed_Inr(1) [OF assms(2)] pre show ?thesis by (simp add: VerifyADR036_Inr pk)
qed

end
