(* ===== verification/Middleware.thy ===== *)
theory Middleware
  imports Wire GoErrors Http
begin

text \<open>
  \<open>middleware/middleware.go\<close>: the handler that asks for a payment before it lets a request through.
  The protected handler \<open>next\<close> and the HTTP client's \<open>Do\<close> work on a state \<open>'y\<close> of everything behind the
  middleware. \<open>new_request_error\<close> is the error of \<open>http.NewRequestWithContext\<close> for a URL, \<open>json_error\<close> the text
  of the JSON decoder's error for a text.
\<close>

record http_client =
  hc_Timeout :: nat \<comment> \<open>seconds\<close>

record out_request =
  o_Method :: string
  o_URL :: string
  o_Header :: header
  o_Body :: string

record Config =
  mw_PayTo :: string
  mw_Asset :: string
  mw_Amount :: string
  mw_Network :: string
  mw_FacilitatorURL :: string
  mw_FacilitatorAddr :: string
  mw_MaxTimeoutSeconds :: uint64
  mw_Description :: string
  mw_MimeType :: string
  mw_Decimals :: uint8
  mw_Symbol :: string
  mw_HTTPClient :: "http_client option"

record 'y http_env =
  Do :: "http_client option \<Rightarrow> out_request \<Rightarrow> 'y \<Rightarrow> (goerr + nat \<times> string) \<times> 'y"
  new_request_error :: "string \<Rightarrow> goerr option"
  json_error :: "string \<Rightarrow> string"

section \<open>The code\<close>

definition with_defaults :: "Config \<Rightarrow> Config" where
  "with_defaults cfg =
     (let cfg1 = (if mw_MaxTimeoutSeconds cfg = 0 then cfg\<lparr>mw_MaxTimeoutSeconds := 60\<rparr> else cfg)
      in if mw_HTTPClient cfg1 = None then cfg1\<lparr>mw_HTTPClient := Some \<lparr>hc_Timeout = 30\<rparr>\<rparr> else cfg1)"

definition buildRequirements :: "Config \<Rightarrow> http_request \<Rightarrow> PaymentRequirements" where
  "buildRequirements cfg r =
     (let scheme = (if r_TLS r \<or> header_Get (r_Header r) ''X-Forwarded-Proto'' = ''https'' then ''https'' else ''http'');
          resource = scheme @ ''://'' @ r_Host r @ r_Path r;
          chainID = (if length (mw_Network cfg) > 7 \<and> take 7 (mw_Network cfg) = ''cosmos:''
                     then drop 7 (mw_Network cfg) else mw_Network cfg) in
      \<lparr>pr_Scheme = Scheme, pr_Network = mw_Network cfg, pr_MaxAmountRequired = mw_Amount cfg,
       pr_Asset = mw_Asset cfg, pr_PayTo = mw_PayTo cfg, pr_Resource = resource,
       pr_Description = mw_Description cfg, pr_MimeType = mw_MimeType cfg,
       pr_MaxTimeoutSeconds = mw_MaxTimeoutSeconds cfg, pr_OutputSchema = [],
       pr_Extra = \<lparr>x_Facilitator = mw_FacilitatorAddr cfg, x_ChainID = chainID,
                   x_Decimals = mw_Decimals cfg, x_Symbol = mw_Symbol cfg\<rparr>\<rparr>)"

definition writeRequired :: "PaymentRequirements \<Rightarrow> writer \<Rightarrow> writer" where
  "writeRequired req w =
     (let b = json_print (PaymentRequirements_json req) in
      write_header 402
        (set_header ''Access-Control-Expose-Headers'' ''PAYMENT-REQUIRED, PAYMENT-RESPONSE''
          (set_header ''PAYMENT-REQUIRED'' (base64_Encode b) w)))"

definition writeFailure :: "PaymentRequirements \<Rightarrow> string \<Rightarrow> writer \<Rightarrow> writer" where
  "writeFailure req code w =
     (let reqBytes = json_print (PaymentRequirements_json req);
          resp = SettleResponse_zero\<lparr>s_Success := False, s_ErrorReason := code, s_Network := pr_Network req\<rparr>;
          respBytes = json_print (SettleResponse_json resp) in
      write_header 402
        (set_header ''Access-Control-Expose-Headers'' ''PAYMENT-REQUIRED, PAYMENT-RESPONSE''
          (set_header ''PAYMENT-RESPONSE'' (base64_Encode respBytes)
            (set_header ''PAYMENT-REQUIRED'' (base64_Encode reqBytes) w))))"

definition setResponseHeader :: "SettleResponse \<Rightarrow> writer \<Rightarrow> writer" where
  "setResponseHeader resp w =
     (let b = json_print (SettleResponse_json resp) in
      set_header ''Access-Control-Expose-Headers'' ''PAYMENT-RESPONSE''
        (set_header ''PAYMENT-RESPONSE'' (base64_Encode b) w))"

definition decodePayload :: "(string \<Rightarrow> string) \<Rightarrow> string \<Rightarrow> goerr + PaymentPayload" where
  "decodePayload jerr hdr =
     (case base64_Decode hdr of
        None \<Rightarrow> Inl (Errorf ''base64: %w'' [AErrW CorruptInputError])
      | Some raw \<Rightarrow>
     (case Unmarshal PaymentPayload_fields PaymentPayload_zero raw of
        None \<Rightarrow> Inl (Errorf ''json: %w'' [AErrW (Foreign (jerr raw))])
      | Some pp \<Rightarrow> if pp_Scheme pp \<noteq> Scheme then Inl (ErrNew ''scheme mismatch'') else Inr pp))"

definition settle_body :: "PaymentPayload \<Rightarrow> PaymentRequirements \<Rightarrow> string" where
  "settle_body payload requirements = json_print (VerifyRequest_json
     \<lparr>vr_X402Version = 2, vr_PaymentPayload = payload, vr_PaymentRequirements = requirements\<rparr>)"

definition callSettle ::
  "'y http_env \<Rightarrow> Config \<Rightarrow> PaymentPayload \<Rightarrow> PaymentRequirements \<Rightarrow> 'y \<Rightarrow> (goerr + SettleResponse) \<times> 'y" where
  "callSettle H cfg payload requirements y =
     (let body = settle_body payload requirements; url = mw_FacilitatorURL cfg @ ''/settle'' in
      case new_request_error H url of
        Some err \<Rightarrow> (Inl err, y)
      | None \<Rightarrow>
          let req = \<lparr>o_Method = ''POST'', o_URL = url,
                     o_Header = header_Set ''Content-Type'' ''application/json'' [], o_Body = body\<rparr> in
         (case Do H (mw_HTTPClient cfg) req y of
            (Inl err, y1) \<Rightarrow> (Inl err, y1)
          | (Inr (_, text), y1) \<Rightarrow>
             (case Decode SettleResponse_fields SettleResponse_zero text of
                None \<Rightarrow> (Inl (Errorf ''decode settle response: %w'' [AErrW (Foreign (json_error H text))]), y1)
              | Some resp \<Rightarrow> (Inr resp, y1))))"

definition Paid ::
  "'y http_env \<Rightarrow> Config \<Rightarrow> (writer \<Rightarrow> http_request \<Rightarrow> 'y \<Rightarrow> writer \<times> 'y) \<Rightarrow> writer \<Rightarrow> http_request \<Rightarrow>
    'y \<Rightarrow> writer \<times> 'y" where
  "Paid H cfg0 next w r y =
     (let cfg = with_defaults cfg0;
          requirements = buildRequirements cfg r;
          sigHeader = header_Get (r_Header r) ''PAYMENT-SIGNATURE'' in
      if sigHeader = [] then (writeRequired requirements w, y)
      else
     (case decodePayload (json_error H) sigHeader of
        Inl err \<Rightarrow> (writeFailure requirements ErrInvalidAuthorization w, y)
      | Inr payload \<Rightarrow>
     (case callSettle H cfg payload requirements y of
        (Inl err, y1) \<Rightarrow> (writeFailure requirements ErrUnexpected w, y1)
      | (Inr resp, y1) \<Rightarrow>
          if \<not> s_Success resp then (writeFailure requirements (s_ErrorReason resp) w, y1)
          else next (setResponseHeader resp w) r y1)))"

section \<open>Which requests pass\<close>

text \<open>The request was paid: its header decoded, and the facilitator answered with a success.\<close>

definition admitted :: "'y http_env \<Rightarrow> Config \<Rightarrow> http_request \<Rightarrow> 'y \<Rightarrow> (SettleResponse \<times> 'y) option" where
  "admitted H cfg0 r y =
     (let cfg = with_defaults cfg0; hdr = header_Get (r_Header r) ''PAYMENT-SIGNATURE'' in
      if hdr = [] then None
      else case decodePayload (json_error H) hdr of
        Inl _ \<Rightarrow> None
      | Inr payload \<Rightarrow>
         (case callSettle H cfg payload (buildRequirements cfg r) y of
            (Inr resp, y1) \<Rightarrow> if s_Success resp then Some (resp, y1) else None
          | _ \<Rightarrow> None))"

lemma Paid_admitted:
  "admitted H cfg r y = Some (resp, y1) \<Longrightarrow> Paid H cfg next w r y = next (setResponseHeader resp w) r y1"
  by (auto simp: admitted_def Paid_def Let_def split: if_splits sum.splits prod.splits)

lemma canonical_names [simp]:
  "canonical ''PAYMENT-REQUIRED'' = ''Payment-Required''"
  "canonical ''PAYMENT-RESPONSE'' = ''Payment-Response''"
  "canonical ''PAYMENT-SIGNATURE'' = ''Payment-Signature''"
  "canonical ''Access-Control-Expose-Headers'' = ''Access-Control-Expose-Headers''"
  by code_simp+

text \<open>A refused request gets status 402 and the requirements, and never reaches \<open>next\<close>.\<close>

lemma Paid_refused:
  assumes "admitted H cfg r y = None" and "rw_sent w = None"
  shows "\<exists>w'. (\<forall>next. fst (Paid H cfg next w r y) = w')
    \<and> hr_Status (response w') = 402
    \<and> header_Get (hr_Header (response w')) ''PAYMENT-REQUIRED''
        = base64_Encode (json_print (PaymentRequirements_json (buildRequirements (with_defaults cfg) r)))"
proof -
  let ?ok = "\<lambda>w'. hr_Status (response w') = 402 \<and> header_Get (hr_Header (response w')) ''PAYMENT-REQUIRED''
        = base64_Encode (json_print (PaymentRequirements_json (buildRequirements (with_defaults cfg) r)))"
  have ok: "?ok (writeRequired (buildRequirements (with_defaults cfg) r) w)"
    "?ok (writeFailure (buildRequirements (with_defaults cfg) r) code w)" for code
    using assms(2) by (simp_all add: writeRequired_def writeFailure_def response_def Let_def)
  have "(\<exists>code. \<forall>next. fst (Paid H cfg next w r y) = writeFailure (buildRequirements (with_defaults cfg) r) code w)
    \<or> (\<forall>next. fst (Paid H cfg next w r y) = writeRequired (buildRequirements (with_defaults cfg) r) w)"
    using assms(1)
    by (auto simp: admitted_def Paid_def Let_def split: if_splits sum.splits prod.splits)
  with ok show ?thesis by blast
qed

section \<open>The settlement service\<close>

text \<open>
  What the middleware relies on: a call of \<open>/settle\<close> is a settlement of the payload for the requirements, and either its answer comes back, or an error
  does, and then the settlement was made or it was not. \<open>fine\<close> are the requests for which this holds.
\<close>

locale settle_service =
  fixes H :: "'y http_env"
    and cfg :: Config
    and fine :: "http_request \<Rightarrow> bool"
    and settle :: "PaymentPayload \<Rightarrow> PaymentRequirements \<Rightarrow> 'y \<Rightarrow> SettleResponse \<times> 'y"
  assumes asks: "fine r \<Longrightarrow> decodePayload (json_error H) hdr = Inr p \<Longrightarrow>
      settle p (buildRequirements (with_defaults cfg) r) y = (resp, y1) \<Longrightarrow>
      callSettle H (with_defaults cfg) p (buildRequirements (with_defaults cfg) r) y = (Inr resp, y1)
      \<or> (\<exists>err y2. callSettle H (with_defaults cfg) p (buildRequirements (with_defaults cfg) r) y = (Inl err, y2) \<and> y2 \<in> {y, y1})"
begin

text \<open>A request that is let through was settled, for the requirements of this very request.\<close>

lemma service_admits:
  assumes "admitted H cfg r y = Some (resp, y1)" and "fine r"
  obtains p where "decodePayload (json_error H) (header_Get (r_Header r) ''PAYMENT-SIGNATURE'') = Inr p"
    and "settle p (buildRequirements (with_defaults cfg) r) y = (resp, y1)" and "s_Success resp"
proof -
  let ?q = "buildRequirements (with_defaults cfg) r"
  obtain p where p: "decodePayload (json_error H) (header_Get (r_Header r) ''PAYMENT-SIGNATURE'') = Inr p"
    and call: "callSettle H (with_defaults cfg) p ?q y = (Inr resp, y1)" and ok: "s_Success resp"
    using assms(1) by (auto simp: admitted_def Let_def split: if_splits sum.splits prod.splits)
  obtain resp' y' where settle: "settle p ?q y = (resp', y')" by (metis surj_pair)
  from asks [OF assms(2) p settle] call have "resp' = resp \<and> y' = y1" by auto
  with that p settle ok show ?thesis by blast
qed

text \<open>A request that is refused has changed nothing, or was settled.\<close>

lemma service_refuses:
  assumes "admitted H cfg r y = None" and "fine r" and "Paid H cfg next rw r y = (wr, y2)"
  shows "y2 = y \<or> (\<exists>p. decodePayload (json_error H) (header_Get (r_Header r) ''PAYMENT-SIGNATURE'') = Inr p
    \<and> y2 = snd (settle p (buildRequirements (with_defaults cfg) r) y))"
proof (cases "decodePayload (json_error H) (header_Get (r_Header r) ''PAYMENT-SIGNATURE'')")
  case (Inl err)
  with assms(3) show ?thesis by (auto simp: Paid_def Let_def split: if_splits)
next
  case (Inr p)
  let ?q = "buildRequirements (with_defaults cfg) r"
  obtain resp y1 where settle: "settle p ?q y = (resp, y1)" by (metis surj_pair)
  from asks [OF assms(2) Inr settle] assms(1,3) Inr have "y2 = y \<or> y2 = y1"
    by (auto simp: Paid_def admitted_def Let_def split: if_splits)
  with Inr settle show ?thesis by auto
qed

end

text \<open>The chain id of the requirements is the one the facilitator derives from the network.\<close>

lemma requirements_chainID:
  "mw_Network cfg \<noteq> ''cosmos:'' \<Longrightarrow>
    x_ChainID (pr_Extra (buildRequirements cfg r)) = trim_prefix (mw_Network cfg) ''cosmos:''"
proof -
  assume ne: "mw_Network cfg \<noteq> ''cosmos:''"
  have len: "length ''cosmos:'' = 7" by simp
  show ?thesis
  proof (cases "has_prefix (mw_Network cfg) ''cosmos:''")
    case True
    then obtain t where t: "mw_Network cfg = ''cosmos:'' @ t" by (auto simp: has_prefix_iff)
    with ne have "t \<noteq> []" by auto
    then show ?thesis unfolding buildRequirements_def Let_def t trim_prefix_append by simp
  next
    case False
    then have "take 7 (mw_Network cfg) \<noteq> ''cosmos:''"
      using append_take_drop_id [of 7 "mw_Network cfg"] by (metis has_prefix_iff)
    then have "x_ChainID (pr_Extra (buildRequirements cfg r)) = mw_Network cfg"
      by (simp add: buildRequirements_def Let_def)
    moreover have "trim_prefix (mw_Network cfg) ''cosmos:'' = mw_Network cfg"
      using False trim_prefix_eq by blast
    ultimately show ?thesis by simp
  qed
qed

end
