(* ===== verification/Chain.thy ===== *)
theory Chain
  imports Sdk
begin

text \<open>
  \<open>facilitator/chain.go\<close>: the interface \<open>ChainClient\<close> and the type \<open>chainError\<close> with its two
  constants. A Go interface value is the record of its methods; each method threads the state
  \<open>'e\<close> of everything outside the facilitator (the chain, the network, the clock, the request's
  context), because a call may change it.

  The locale \<open>chain_client\<close> is the contract of the interface that settlement relies on. Its
  parameter \<open>sent\<close> reads, from the environment, the payments the client has handed to the chain:
  queries hand over nothing, and a broadcast hands over at most the one payment it was asked for,
  and has done so when it reports no error.
\<close>

record 'e ChainClient =
  cl_ChainID :: string
  cl_AccountPrefix :: string
  cl_QuerySendAuthorization ::
    "string \<Rightarrow> string \<Rightarrow> string \<Rightarrow> 'e \<Rightarrow> (goerr + string \<times> gotime) \<times> 'e"
  cl_QueryBalance :: "string \<Rightarrow> string \<Rightarrow> 'e \<Rightarrow> (goerr + string) \<times> 'e"
  cl_BroadcastAuthzSend ::
    "string \<Rightarrow> string \<Rightarrow> string \<Rightarrow> string \<Rightarrow> 'e \<Rightarrow> (string \<times> goerr option) \<times> 'e"

definition ErrNoGrant :: goerr where
  "ErrNoGrant = ChainError ''no SendAuthorization grant found''"

definition ErrChainRPC :: goerr where
  "ErrChainRPC = ChainError ''chain rpc error''"

lemma errors_Is_NoGrant [simp]: "errors_Is (ChainError s) ErrNoGrant \<longleftrightarrow> ChainError s = ErrNoGrant"
  by (simp add: ErrNoGrant_def)

lemma ErrChainRPC_neq_NoGrant [simp]: "ErrChainRPC \<noteq> ErrNoGrant" "ErrNoGrant \<noteq> ErrChainRPC"
  by (simp_all add: ErrNoGrant_def ErrChainRPC_def)

section \<open>The contract of a chain client\<close>

locale chain_client =
  fixes C :: "'e ChainClient"
    and sent :: "'e \<Rightarrow> payment list"
  assumes grant_query_sends_nothing:
      "sent (snd (cl_QuerySendAuthorization C granter grantee denom e)) = sent e"
    and balance_query_sends_nothing: "sent (snd (cl_QueryBalance C addr denom e)) = sent e"
    and broadcast_sends_one:
      "sent (snd (cl_BroadcastAuthzSend C from to denom amount e)) = sent e \<or>
       sent (snd (cl_BroadcastAuthzSend C from to denom amount e)) =
         sent e @ [\<lparr>pay_from = from, pay_to = to, pay_text = amount @ denom\<rparr>]"
    and success_sends:
      "snd (fst (cl_BroadcastAuthzSend C from to denom amount e)) = None \<Longrightarrow>
       sent (snd (cl_BroadcastAuthzSend C from to denom amount e)) =
         sent e @ [\<lparr>pay_from = from, pay_to = to, pay_text = amount @ denom\<rparr>]"
begin

lemma broadcast_only_extends:
  "\<exists>new. sent (snd (cl_BroadcastAuthzSend C from to denom amount e)) = sent e @ new
    \<and> set new \<subseteq> {\<lparr>pay_from = from, pay_to = to, pay_text = amount @ denom\<rparr>} \<and> length new \<le> 1"
  using broadcast_sends_one [of "from" to denom amount e] by auto

end

end
