(* ===== verification/GoFloat.thy ===== *)
theory GoFloat
  imports Prelude
begin

text \<open>
  The fragment of \<open>float64\<close> that the fee computation uses: non-negative values as a 53-bit mantissa
  and a binary exponent, products rounded to nearest with ties to even, and the conversion to an
  unsigned integer, which truncates. Overflow and subnormal results are outside the model; the
  program multiplies a gas limit by a price near one tenth.
\<close>

record float64 =
  f_mant :: nat
  f_exp :: int

fun bitlen :: "nat \<Rightarrow> nat" where
  "bitlen n = (if n = 0 then 0 else Suc (bitlen (n div 2)))"

declare bitlen.simps [simp del]

definition round_div :: "nat \<Rightarrow> nat \<Rightarrow> nat" where
  "round_div a b =
     (let q = a div b; r = a mod b in
      if b < 2 * r \<or> b = 2 * r \<and> odd q then Suc q else q)"

definition scaled :: "nat \<Rightarrow> nat \<Rightarrow> int \<Rightarrow> nat \<times> nat" where
  "scaled a b s = (if 0 \<le> s then (a * 2 ^ nat s, b) else (a, b * 2 ^ nat (- s)))"

text \<open>The float nearest to a fraction: scale the quotient into 53 bits, round, scale back.\<close>

definition f64_round :: "nat \<Rightarrow> nat \<Rightarrow> float64" where
  "f64_round a b =
     (let s0 = 53 + int (bitlen b) - int (bitlen a);
          (n, d) = scaled a b s0;
          s = (if 2 ^ 53 \<le> n div d then s0 - 1 else s0);
          (n', d') = scaled a b s
      in \<lparr>f_mant = round_div n' d', f_exp = - s\<rparr>)"

definition f64_of_nat :: "nat \<Rightarrow> float64" where
  "f64_of_nat n = f64_round n 1"

definition f64_mul :: "float64 \<Rightarrow> float64 \<Rightarrow> float64" where
  "f64_mul x y =
     (let (n, d) = scaled (f_mant x * f_mant y) 1 (f_exp x + f_exp y) in f64_round n d)"

definition f64_trunc :: "float64 \<Rightarrow> nat" where
  "f64_trunc x = (let (n, d) = scaled (f_mant x) 1 (f_exp x) in n div d)"

definition one_tenth :: float64 where
  "one_tenth = f64_round 1 10"

lemma one_tenth_value: "one_tenth = \<lparr>f_mant = 7205759403792794, f_exp = -56\<rparr>"
  by (simp add: one_tenth_def f64_round_def scaled_def round_div_def bitlen.simps Let_def)

text \<open>The two fees of the program are exact, although one tenth is not.\<close>

lemma fee_250000: "f64_trunc (f64_mul (f64_of_nat 250000) one_tenth) = 25000"
  by (simp add: one_tenth_value f64_trunc_def f64_mul_def f64_of_nat_def f64_round_def scaled_def
      round_div_def bitlen.simps Let_def)

lemma fee_200000: "f64_trunc (f64_mul (f64_of_nat 200000) one_tenth) = 20000"
  by (simp add: one_tenth_value f64_trunc_def f64_mul_def f64_of_nat_def f64_round_def scaled_def
      round_div_def bitlen.simps Let_def)

end
