(* ===== verification/Noble.thy ===== *)
theory Noble
  imports Chain Adr036 GoFloat
begin

text \<open>
  \<open>facilitator/chain_noble.go\<close>: the chain client of the program. Its methods work on a \<open>world\<close>
  (\<open>Sdk\<close>), through the endpoints \<open>N\<close> and the packages \<open>T\<close>, \<open>S\<close> and \<open>K\<close>. The connections the Go struct keeps
  (\<open>conn\<close>, \<open>rpcClient\<close> and the query clients) are the endpoints; the codec it keeps is the one \<open>makeCodec\<close> builds.

  The polling loop \<open>wait_loop\<close> reads the clock as the code does; a tick of the \<open>time.Ticker\<close> is kept
  in a buffer of one, so at the head of a round the last tick was taken at the current time and the next one
  is at the next whole second after it, or already waiting.
\<close>

record NobleClient =
  nc_chainID :: string
  nc_prefix :: string
  nc_denom :: string
  nc_gasPrice :: float64
  nc_signer :: bytes
  nc_address :: string
  nc_cdc :: codec
  nc_txConfig :: tx_config

record nobleConfig =
  cfg_GRPCEndpoint :: string
  cfg_GRPCUseTLS :: bool
  cfg_RPCEndpoint :: string
  cfg_ChainID :: string
  cfg_Prefix :: string
  cfg_Denom :: string
  cfg_GasPrice :: float64
  cfg_Mnemonic :: string

section \<open>Construction\<close>

definition envOr :: "(string \<Rightarrow> string) \<Rightarrow> string \<Rightarrow> string \<Rightarrow> string" where
  "envOr Getenv k def = (let v = Getenv k in if v \<noteq> [] then v else def)"

definition deriveCosmosKey :: "cosmos_sdk \<Rightarrow> string \<Rightarrow> string \<Rightarrow> goerr + bytes \<times> string" where
  "deriveCosmosKey S mnemonic prefix =
     (if \<not> IsMnemonicValid S mnemonic then Inl (ErrNew ''invalid mnemonic'')
      else
        let seed = NewSeed S mnemonic [];
            (masterKey, chainCode) = ComputeMastersFromSeed S seed in
        case DerivePrivateKeyForPath S masterKey chainCode hd_path of
          Inl err \<Rightarrow> Inl (Errorf ''derive: %w'' [AErrW err])
        | Inr priv \<Rightarrow>
       (case ConvertAndEncode S prefix (Address S (PubKey S priv)) of
          Inl err \<Rightarrow> Inl (Errorf ''bech32 encode: %w'' [AErrW err])
        | Inr addr \<Rightarrow> Inr (priv, addr)))"

definition dialGRPC :: "'x network \<Rightarrow> string \<Rightarrow> bool \<Rightarrow> 'x world \<Rightarrow> goerr option \<times> 'x world" where
  "dialGRPC N endpoint useTLS w =
     (let (r, w1) = call (CallNewGRPC endpoint useTLS) (NewGRPC N endpoint useTLS) w
      in (map_option Foreign r, w1))"

definition load_config :: "(string \<Rightarrow> string) \<Rightarrow> nobleConfig" where
  "load_config Getenv =
     \<lparr>cfg_GRPCEndpoint = envOr Getenv ''X402_NOBLE_GRPC'' ''noble-testnet-grpc.polkachu.com:21590'',
      cfg_GRPCUseTLS = (Getenv ''X402_NOBLE_GRPC_TLS'' = ''true''),
      cfg_RPCEndpoint = envOr Getenv ''X402_NOBLE_RPC'' ''https://noble-testnet-rpc.polkachu.com'',
      cfg_ChainID = envOr Getenv ''X402_NOBLE_CHAIN_ID'' ''grand-1'',
      cfg_Prefix = envOr Getenv ''X402_NOBLE_PREFIX'' ''noble'',
      cfg_Denom = envOr Getenv ''X402_NOBLE_DENOM'' ''uusdc'',
      cfg_GasPrice = one_tenth,
      cfg_Mnemonic = Getenv ''X402_FACILITATOR_MNEMONIC''\<rparr>"

definition set_prefixes :: "string \<Rightarrow> 'x world \<Rightarrow> 'x world" where
  "set_prefixes prefix w = w\<lparr>w_config :=
     \<lparr>account_prefix = (prefix, prefix @ ''pub''),
      validator_prefix = (prefix @ ''valoper'', prefix @ ''valoperpub''),
      consensus_prefix = (prefix @ ''valcons'', prefix @ ''valconspub'')\<rparr>\<rparr>"

definition Close :: "'x world \<Rightarrow> 'x world" where
  "Close w = w\<lparr>w_calls := w_calls w @ [CallClose]\<rparr>"

text \<open>A registry that cannot be built is a panic.\<close>

definition makeCodec :: "'r codec_sdk \<Rightarrow> string \<Rightarrow> exit + codec \<times> tx_config" where
  "makeCodec K prefix =
     (case NewInterfaceRegistryWithOptions K
             \<lparr>ProtoFiles = HybridResolver, AddressCodec = prefix, ValidatorAddressCodec = prefix @ ''valoper''\<rparr> of
        Inl err \<Rightarrow> Inl (Panic (Errorf ''interface registry: %w'' [AErrW err]))
      | Inr ir \<Rightarrow>
          let ir1 = RegisterInterfaces K Module_std ir;
              ir2 = RegisterInterfaces K Module_crypto ir1;
              ir3 = RegisterInterfaces K Module_auth ir2;
              ir4 = RegisterInterfaces K Module_bank ir3;
              ir5 = RegisterInterfaces K Module_authz ir4;
              cdc = NewProtoCodec K ir5
          in Inr (cdc, NewTxConfig K cdc DefaultSignModes))"

text \<open>The result is a panic, or what the function returns. A panic leaves the connection open.\<close>

definition NewNobleClient ::
  "cosmos_sdk \<Rightarrow> 'r codec_sdk \<Rightarrow> 'x network \<Rightarrow> (string \<Rightarrow> string) \<Rightarrow> 'x world \<Rightarrow>
    (exit + goerr + NobleClient) \<times> 'x world" where
  "NewNobleClient S K N Getenv w =
     (let cfg = load_config Getenv in
      if cfg_Mnemonic cfg = [] then (Inr (Inl (ErrNew ''X402_FACILITATOR_MNEMONIC is required'')), w)
      else
        let w1 = set_prefixes (cfg_Prefix cfg) w in
     (case deriveCosmosKey S (cfg_Mnemonic cfg) (cfg_Prefix cfg) of
        Inl err \<Rightarrow> (Inr (Inl (Errorf ''derive facilitator key: %w'' [AErrW err])), w1)
      | Inr (priv, addr) \<Rightarrow>
     (case dialGRPC N (cfg_GRPCEndpoint cfg) (cfg_GRPCUseTLS cfg) w1 of
        (Some err, w2) \<Rightarrow> (Inr (Inl (Errorf ''dial grpc %s: %w'' [AStr (cfg_GRPCEndpoint cfg), AErrW err])), w2)
      | (None, w2) \<Rightarrow>
     (case call (CallNewRPC (cfg_RPCEndpoint cfg) ''/websocket'') (NewRPC N (cfg_RPCEndpoint cfg) ''/websocket'') w2 of
        (Some err, w3) \<Rightarrow>
          (Inr (Inl (Errorf ''dial rpc %s: %w'' [AStr (cfg_RPCEndpoint cfg), AErrW (Foreign err)])), Close w3)
      | (None, w3) \<Rightarrow>
     (case makeCodec K (cfg_Prefix cfg) of
        Inl panic \<Rightarrow> (Inl panic, w3)
      | Inr (cdc, txCfg) \<Rightarrow>
          (Inr (Inr \<lparr>nc_chainID = cfg_ChainID cfg, nc_prefix = cfg_Prefix cfg, nc_denom = cfg_Denom cfg,
                nc_gasPrice = cfg_GasPrice cfg, nc_signer = priv, nc_address = addr,
                nc_cdc = cdc, nc_txConfig = txCfg\<rparr>), w3))))))"

lemma w_calls_set_prefixes [simp]: "w_calls (set_prefixes p w) = w_calls w"
  by (simp add: set_prefixes_def)

lemma dialE:
  assumes "dialGRPC N endpoint useTLS w = (r, w1)"
  shows "w_calls w1 = w_calls w @ [CallNewGRPC endpoint useTLS]" and "w_config w1 = w_config w"
  using assms by (auto simp: dialGRPC_def dest: callE(1) callE(3) split: prod.splits)

text \<open>The client is what the environment, the mnemonic and the codec give.\<close>

lemma NewNobleClient_Inr:
  assumes "NewNobleClient S K N Getenv w = (Inr (Inr c), w')"
  shows "deriveCosmosKey S (Getenv ''X402_FACILITATOR_MNEMONIC'') (nc_prefix c) = Inr (nc_signer c, nc_address c)"
    and "makeCodec K (nc_prefix c) = Inr (nc_cdc c, nc_txConfig c)"
    and "nc_chainID c = envOr Getenv ''X402_NOBLE_CHAIN_ID'' ''grand-1''"
    and "nc_prefix c = envOr Getenv ''X402_NOBLE_PREFIX'' ''noble''"
    and "nc_denom c = envOr Getenv ''X402_NOBLE_DENOM'' ''uusdc''"
    and "nc_gasPrice c = one_tenth"
    and "fst (account_prefix (w_config w')) = nc_prefix c"
proof -
  show "fst (account_prefix (w_config w')) = nc_prefix c"
    using assms by (auto simp: NewNobleClient_def load_config_def Let_def set_prefixes_def
        split: if_splits sum.splits prod.splits option.splits dest!: dialE(2) callE(3))
qed (use assms in \<open>auto simp: NewNobleClient_def load_config_def Let_def
    split: if_splits sum.splits prod.splits option.splits\<close>)

text \<open>The connections: an error that is found once both were tried closes the open one; a client keeps it.\<close>

lemma NewNobleClient_calls:
  fixes Getenv
  defines "grpc \<equiv> CallNewGRPC (cfg_GRPCEndpoint (load_config Getenv)) (cfg_GRPCUseTLS (load_config Getenv))"
    and "rpc \<equiv> CallNewRPC (cfg_RPCEndpoint (load_config Getenv)) ''/websocket''"
  assumes "NewNobleClient S K N Getenv w = (r, w')"
  shows "w_calls w' \<in> (\<lambda>cs. w_calls w @ cs) `
    (case r of Inr (Inl err) \<Rightarrow> {[], [grpc], [grpc, rpc, CallClose]} | _ \<Rightarrow> {[grpc, rpc]})"
proof -
  show ?thesis
    using assms(3) unfolding grpc_def rpc_def
    by (auto simp: NewNobleClient_def Let_def Close_def split: if_splits sum.splits prod.splits option.splits dest!: dialE(1) callE(1))
qed

section \<open>Queries\<close>

fun first_coin :: "string \<Rightarrow> coin list \<Rightarrow> coin option" where
  "first_coin denom [] = None"
| "first_coin denom (c # cs) = (if coin_Denom c \<noteq> denom then first_coin denom cs else Some c)"

fun scan_grants :: "codec \<Rightarrow> string \<Rightarrow> grant list \<Rightarrow> (string \<times> gotime) option" where
  "scan_grants cdc denom [] = None"
| "scan_grants cdc denom (g # gs) =
     (case UnpackAuthorization cdc (g_Authorization g) of
        Inl _ \<Rightarrow> scan_grants cdc denom gs
      | Inr OtherAuthorization \<Rightarrow> scan_grants cdc denom gs
      | Inr (SendAuthorization limit) \<Rightarrow>
          (case first_coin denom limit of
             None \<Rightarrow> scan_grants cdc denom gs
           | Some c \<Rightarrow>
               let exp = (case g_Expiration g of None \<Rightarrow> zero_time | Some t \<Rightarrow> t)
               in Some (coin_Amount c, exp)))"

definition QuerySendAuthorization ::
  "tx_sdk \<Rightarrow> 'x network \<Rightarrow> NobleClient \<Rightarrow> string \<Rightarrow> string \<Rightarrow> string \<Rightarrow> 'x world \<Rightarrow> (goerr + string \<times> gotime) \<times> 'x world" where
  "QuerySendAuthorization T N c granter grantee denom w =
     (case call (CallGrants granter grantee (MsgSendTypeURL T)) (Grants N granter grantee (MsgSendTypeURL T)) w of
        (Inl err, w1) \<Rightarrow>
          if contains err ''authorization not found'' \<or> contains err ''NotFound'' then (Inl ErrNoGrant, w1)
          else (Inl (Errorf ''%w: %v'' [AErrW ErrChainRPC, AErrV (Foreign err)]), w1)
      | (Inr grants, w1) \<Rightarrow>
          (case scan_grants (nc_cdc c) denom grants of
             Some (limit, exp) \<Rightarrow> (Inr (limit, exp), w1)
           | None \<Rightarrow> (Inl ErrNoGrant, w1)))"

definition QueryBalance ::
  "'x network \<Rightarrow> string \<Rightarrow> string \<Rightarrow> 'x world \<Rightarrow> (goerr + string) \<times> 'x world" where
  "QueryBalance N addr denom w =
     (case call (CallBalance addr denom) (Balance N addr denom) w of
        (Inl err, w1) \<Rightarrow> (Inl (Errorf ''%w: %v'' [AErrW ErrChainRPC, AErrV (Foreign err)]), w1)
      | (Inr None, w1) \<Rightarrow> (Inr ''0'', w1)
      | (Inr (Some c), w1) \<Rightarrow> (Inr (coin_Amount c), w1))"

definition queryAccountNumSeq ::
  "'x network \<Rightarrow> NobleClient \<Rightarrow> string \<Rightarrow> 'x world \<Rightarrow> (goerr + uint64 \<times> uint64) \<times> 'x world" where
  "queryAccountNumSeq N c addr w =
     (case call (CallAccount addr) (Account N addr) w of
        (Inl err, w1) \<Rightarrow> (Inl (Foreign err), w1)
      | (Inr any, w1) \<Rightarrow>
          (case UnpackAccount (nc_cdc c) any of
             Inl err \<Rightarrow> (Inl (Errorf ''unpack account: %w'' [AErrW err]), w1)
           | Inr (num, seq) \<Rightarrow> (Inr (num, seq), w1)))"

text \<open>The two nested loops find the first coin of the denomination, in the order of the grants.\<close>

definition send_limits :: "codec \<Rightarrow> grant \<Rightarrow> coin list list" where
  "send_limits cdc g =
     (case UnpackAuthorization cdc (g_Authorization g) of Inr (SendAuthorization limit) \<Rightarrow> [limit] | _ \<Rightarrow> [])"

lemma first_coin_filter: "take (Suc 0) (filter (\<lambda>c. coin_Denom c = denom) cs) =
    (case first_coin denom cs of None \<Rightarrow> [] | Some c \<Rightarrow> [c])"
  by (induction cs) auto

definition matching_limits :: "codec \<Rightarrow> string \<Rightarrow> grant list \<Rightarrow> (string \<times> gotime) list" where
  "matching_limits cdc denom gs =
     [(coin_Amount c, case g_Expiration g of None \<Rightarrow> zero_time | Some t \<Rightarrow> t).
        g \<leftarrow> gs, limit \<leftarrow> send_limits cdc g, c \<leftarrow> take 1 (filter (\<lambda>c. coin_Denom c = denom) limit)]"

lemma scan_grants_first:
  "scan_grants cdc denom gs = (case matching_limits cdc denom gs of [] \<Rightarrow> None | r # _ \<Rightarrow> Some r)"
  by (induction gs) (auto simp: matching_limits_def send_limits_def first_coin_filter Let_def
      split: sum.splits authz_authorization.splits option.splits)

section \<open>Waiting for inclusion\<close>

definition next_tick :: "nat \<Rightarrow> nat \<Rightarrow> nat" where
  "next_tick start taken = start + ((taken - start) div second + 1) * second"

text \<open>The \<open>select\<close> of the loop: the context is done, or the tick is taken when it is there.\<close>

definition select_tick :: "'x network \<Rightarrow> nat \<Rightarrow> 'x world \<Rightarrow> goerr option \<times> 'x world" where
  "select_tick N tick w =
     (let (r, x) = ctx_Done N tick (w_ext w) in
      case r of
        Some err \<Rightarrow> (Some err, w\<lparr>w_ext := x\<rparr>)
      | None \<Rightarrow> (None, w\<lparr>w_clock := max (w_clock w) tick, w_ext := x\<rparr>))"

definition included :: "string + tx_result option \<Rightarrow> tx_result option" where
  "included r =
     (case r of Inr (Some res) \<Rightarrow> if 0 < tr_Height res then Some res else None | _ \<Rightarrow> None)"

text \<open>\<open>fmts\<close> are the two error formats, which differ between the copies of the loop in the program.\<close>

function wait_loop ::
  "string \<times> string \<Rightarrow> 'x network \<Rightarrow> bytes \<Rightarrow> nat \<Rightarrow> nat \<Rightarrow> 'x world \<Rightarrow> goerr option \<times> 'x world" where
  "wait_loop fmts N hash start deadline w =
     (let (r, w1) = call (CallTx hash) (Tx N hash) w in
      case included r of
        Some res \<Rightarrow>
          if tr_Code res \<noteq> 0 then
            (Some (Errorf (fst fmts) [AInt (int (tr_Code res)), AStr (tr_Log res)]), w1)
          else (None, w1)
      | None \<Rightarrow>
          let (now, w2) = read_clock N w1 in
          if deadline < now then (Some (Errorf (snd fmts) [AStr hash]), w2)
          else
            (case select_tick N (next_tick start (w_clock w)) w2 of
               (Some err, w3) \<Rightarrow> (Some err, w3)
             | (None, w3) \<Rightarrow> wait_loop fmts N hash start deadline w3))"
  by pat_completeness auto


lemma next_tick_later: "taken < next_tick start taken"
proof (cases "start \<le> taken")
  case True
  have "taken - start < ((taken - start) div second + 1) * second"
    by (metis add.commute dividend_less_times_div mult.commute plus_1_eq_Suc second_def zero_less_numeral mult_Suc_right)
  with True show ?thesis by (simp add: next_tick_def)
next
  case False
  then show ?thesis by (simp add: next_tick_def second_def)
qed

lemma select_tickE:
  assumes "select_tick N tick w = (r, w1)"
  shows "w_calls w1 = w_calls w" and "w_clock w \<le> w_clock w1" and "w_config w1 = w_config w"
    and "r = None \<Longrightarrow> tick \<le> w_clock w1"
  using assms by (auto simp: select_tick_def Let_def split: prod.splits option.splits)

text \<open>Every round that goes on moves the clock past the tick it took.\<close>

lemma wait_step:
  assumes "call c f w = (r, w1)" and "read_clock N w1 = (now, w2)" and "\<not> deadline < now"
    and "select_tick N (next_tick start (w_clock w)) w2 = (None, w3)"
  shows "w_clock w \<le> deadline" and "w_clock w < w_clock w3" and "next_tick start (w_clock w) \<le> w_clock w3"
  using callE(2) [OF assms(1)] read_clockE(2,3) [OF assms(2)] assms(3) select_tickE(4) [OF assms(4)]
    next_tick_later [of "w_clock w" start] by auto

lemma wait_decreases:
  assumes "call c f w = (r, w1)" and "read_clock N w1 = (now, w2)" and "\<not> deadline < now"
    and "select_tick N (next_tick start (w_clock w)) w2 = (None, w3)"
  shows "Suc deadline - w_clock w3 < Suc deadline - w_clock w"
  using wait_step(1,2) [OF assms] by linarith

termination wait_loop
proof (relation "measure (\<lambda>(fmts, N, hash, start, deadline, w). Suc deadline - w_clock w)", goal_cases)
  case 1
  then show ?case by simp
next
  case (2 fmts N hash start deadline w)
  then show ?case
    by (auto dest!: sym [of "(_, _)"] intro: wait_decreases)
qed

declare wait_loop.simps [simp del]

definition waitForTx :: "'x network \<Rightarrow> bytes \<Rightarrow> nat \<Rightarrow> 'x world \<Rightarrow> goerr option \<times> 'x world" where
  "waitForTx N hash timeout w =
     (let (now, w1) = read_clock N w; deadline = now + timeout
      in wait_loop (''tx failed on chain: code=%d log=%q'', ''timeout waiting for tx %X'') N hash now deadline w1)"


section \<open>Broadcast\<close>

definition gasLimit :: nat where
  "gasLimit = 250000"

text \<open>The transaction of one \<open>MsgExec\<close>, signed in two passes, with its encoding.\<close>

definition build_exec_tx ::
  "cosmos_sdk \<Rightarrow> tx_sdk \<Rightarrow> NobleClient \<Rightarrow> sdk_msg \<Rightarrow> uint64 \<Rightarrow> uint64 \<Rightarrow> goerr + tx \<times> bytes" where
  "build_exec_tx S T c exec accNum accSeq =
     (let feeAmt = f64_trunc (f64_mul (f64_of_nat gasLimit) (nc_gasPrice c));
          emptySig = \<lparr>sig_PubKey = PubKey S (nc_signer c), sig_SignMode = SIGN_MODE_DIRECT,
                      sig_Signature = None, sig_Sequence = accSeq\<rparr>;
          signerData = \<lparr>sd_ChainID = nc_chainID c, sd_AccountNumber = accNum, sd_Sequence = accSeq,
                        sd_PubKey = PubKey S (nc_signer c), sd_Address = nc_address c\<rparr> in
      and_then (wrap ''set msgs: %w'' (SetMsgs (nc_txConfig c) [exec] NewTxBuilder)) (\<lambda>b1.
      let b2 = b1\<lparr>tx_GasLimit := of_nat gasLimit\<rparr>;
          b3 = b2\<lparr>tx_FeeAmount := NewCoins T [NewInt64Coin T (nc_denom c) (of_nat feeAmt)]\<rparr>;
          b4 = b3\<lparr>tx_Memo := ''x402-cosmos''\<rparr> in
      and_then (wrap ''set empty sig: %w'' (SetSignatures (nc_txConfig c) [emptySig] b4)) (\<lambda>b5.
      and_then (wrap ''get sign bytes: %w'' (GetSignBytes (nc_txConfig c) signerData b5)) (\<lambda>signBytes.
      and_then (wrap ''sign: %w'' (Sign S (nc_signer c) signBytes)) (\<lambda>sig.
      let signedSig = emptySig\<lparr>sig_Signature := Some sig\<rparr> in
      and_then (wrap ''set real sig: %w'' (SetSignatures (nc_txConfig c) [signedSig] b5)) (\<lambda>b6.
      and_then (wrap ''encode tx: %w'' (TxEncoder (nc_txConfig c) b6)) (\<lambda>txBytes.
      Inr (b6, txBytes))))))))"

definition BroadcastAuthzSend ::
  "cosmos_sdk \<Rightarrow> tx_sdk \<Rightarrow> 'x network \<Rightarrow> NobleClient \<Rightarrow> string \<Rightarrow> string \<Rightarrow> string \<Rightarrow> string \<Rightarrow>
    'x world \<Rightarrow> (string \<times> goerr option) \<times> 'x world" where
  "BroadcastAuthzSend S T N c from to denom amount w =
     (case wrap ''parse coin: %w'' (ParseCoinNormalized T (amount @ denom)) of
        Inl err \<Rightarrow> (([], Some err), w)
      | Inr coin \<Rightarrow>
     (case wrap ''parse facilitator addr: %w''
             (AccAddressFromBech32 T (fst (account_prefix (w_config w))) (nc_address c)) of
        Inl err \<Rightarrow> (([], Some err), w)
      | Inr facilitatorAcc \<Rightarrow>
          let inner = MsgSend from to (NewCoins T [coin]);
              exec = MsgExec facilitatorAcc [inner] in
     (case queryAccountNumSeq N c (nc_address c) w of
        (Inl err, w1) \<Rightarrow> (([], Some (Errorf ''query account: %w'' [AErrW err])), w1)
      | (Inr (accNum, accSeq), w1) \<Rightarrow>
     (case build_exec_tx S T c exec accNum accSeq of
        Inl err \<Rightarrow> (([], Some err), w1)
      | Inr (t, txBytes) \<Rightarrow>
     (case call (CallBroadcast (Some \<lparr>pay_from = from, pay_to = to, pay_text = amount @ denom\<rparr>) t)
             (BroadcastTxSync N txBytes) w1 of
        (Inl err, w2) \<Rightarrow> (([], Some (Errorf ''%w: %v'' [AErrW ErrChainRPC, AErrV (Foreign err)])), w2)
      | (Inr res, w2) \<Rightarrow>
          if br_Code res \<noteq> 0 then
            (([], Some (Errorf ''broadcast rejected: code=%d log=%q'' [AInt (int (br_Code res)), AStr (br_Log res)])), w2)
          else
            let txHash = to_upper (hex_EncodeToString (br_Hash res)) in
           (case waitForTx N (br_Hash res) (30 * second) w2 of
              (Some err, w3) \<Rightarrow> ((txHash, Some (Errorf ''wait for inclusion: %w'' [AErrW err])), w3)
            | (None, w3) \<Rightarrow> ((txHash, None), w3)))))))"

definition noble_client ::
  "cosmos_sdk \<Rightarrow> tx_sdk \<Rightarrow> 'x network \<Rightarrow> NobleClient \<Rightarrow> 'x world ChainClient" where
  "noble_client S T N c =
     \<lparr>cl_ChainID = nc_chainID c, cl_AccountPrefix = nc_prefix c,
      cl_QuerySendAuthorization = QuerySendAuthorization T N c,
      cl_QueryBalance = QueryBalance N,
      cl_BroadcastAuthzSend = BroadcastAuthzSend S T N c\<rparr>"

lemma noble_client_simps [simp]:
  "cl_ChainID (noble_client S T N c) = nc_chainID c"
  "cl_AccountPrefix (noble_client S T N c) = nc_prefix c"
  "cl_QuerySendAuthorization (noble_client S T N c) = QuerySendAuthorization T N c"
  "cl_QueryBalance (noble_client S T N c) = QueryBalance N"
  "cl_BroadcastAuthzSend (noble_client S T N c) = BroadcastAuthzSend S T N c"
  by (simp_all add: noble_client_def)

section \<open>The polling loop\<close>

text \<open>The calls of the loop: polls of the one transaction, at least one and at most two more than the seconds allowed.\<close>

definition polls_left :: "nat \<Rightarrow> nat \<Rightarrow> nat \<Rightarrow> nat" where
  "polls_left start deadline now =
     (if now \<le> deadline then (deadline - start) div second + 2 - (now - start) div second else 1)"

lemma polls_left_pos: "1 \<le> polls_left start deadline now"
proof -
  have "1 \<le> (deadline - start) div second + 2 - (now - start) div second" if "now \<le> deadline"
    using div_le_mono [of "now - start" "deadline - start" second] that by linarith
  then show ?thesis by (simp add: polls_left_def)
qed

lemma polls_left_step:
  assumes "start \<le> now" and "now \<le> deadline" and "next_tick start now \<le> now'"
  shows "Suc (polls_left start deadline now') \<le> polls_left start deadline now"
proof -
  let ?n = "(now - start) div second" and ?D = "(deadline - start) div second"
  have "(?n + 1) * second \<le> now' - start" using assms(3) by (simp add: next_tick_def)
  then have n': "?n + 1 \<le> (now' - start) div second"
    by (metis div_le_mono nonzero_mult_div_cancel_right second_def zero_neq_numeral)
  have n: "?n \<le> ?D" using assms by (intro div_le_mono) simp
  show ?thesis
  proof (cases "now' \<le> deadline")
    case True
    then have "(now' - start) div second \<le> ?D" by (intro div_le_mono) simp
    with n' have "Suc (?D + 2 - (now' - start) div second) \<le> ?D + 2 - ?n" by linarith
    with True assms(2) show ?thesis by (simp add: polls_left_def)
  next
    case False
    from n have "2 \<le> ?D + 2 - ?n" by linarith
    with False assms(2) show ?thesis by (simp add: polls_left_def)
  qed
qed

lemma wait_loop_polls:
  assumes "wait_loop fmts N hash start deadline w = (r, w')" and "start \<le> w_clock w"
  shows "\<exists>k \<le> polls_left start deadline (w_clock w). 0 < k \<and> w_calls w' = w_calls w @ replicate k (CallTx hash)
    \<and> w_config w' = w_config w \<and> w_clock w \<le> w_clock w'"
  using assms
proof (induction fmts N hash start deadline w rule: wait_loop.induct)
  case (1 fmts N hash start deadline w)
  obtain q w1 where c: "call (CallTx hash) (Tx N hash) w = (q, w1)" by fastforce
  obtain now w2 where t: "read_clock N w1 = (now, w2)" by fastforce
  obtain s w3 where d: "select_tick N (next_tick start (w_clock w)) w2 = (s, w3)" by fastforce
  note facts = callE [OF c] read_clockE [OF t] select_tickE(1,2,3) [OF d]
  have one: "1 \<le> polls_left start deadline (w_clock w)" by (rule polls_left_pos)
  show ?case
  proof (cases "included q = None \<and> \<not> deadline < now \<and> s = None")
    case False
    then have "w_calls w' = w_calls w @ [CallTx hash] \<and> w_config w' = w_config w \<and> w_clock w \<le> w_clock w'"
      using 1(2) facts by (auto simp: wait_loop.simps c t d split: option.splits if_splits)
    with one show ?thesis by (intro exI [of _ 1]) simp
  next
    case True
    have le: "w_clock w \<le> deadline" and lt: "next_tick start (w_clock w) \<le> w_clock w3"
      using wait_step [OF c t _ d [unfolded True [THEN conjunct2, THEN conjunct2]]] True by auto
    have "wait_loop fmts N hash start deadline w3 = (r, w')"
      using 1(2) True by (simp add: wait_loop.simps [of fmts N hash start deadline w] c t d)
    moreover have "start \<le> w_clock w3" using 1(3) facts by linarith
    ultimately obtain k where "k \<le> polls_left start deadline (w_clock w3)"
      and "0 < k \<and> w_calls w' = w_calls w3 @ replicate k (CallTx hash) \<and> w_config w' = w_config w3 \<and> w_clock w3 \<le> w_clock w'"
      using 1(1) c t d True by (metis (no_types, lifting))
    moreover have "Suc (polls_left start deadline (w_clock w3)) \<le> polls_left start deadline (w_clock w)"
      using 1(3) le lt by (rule polls_left_step)
    ultimately show ?thesis using facts by (intro exI [of _ "Suc k"]) auto
  qed
qed

lemma waitForTx_polls:
  assumes "waitForTx N hash timeout w = (r, w')"
  shows "\<exists>k \<le> timeout div second + 2. 0 < k \<and> w_calls w' = w_calls w @ replicate k (CallTx hash)
    \<and> w_config w' = w_config w \<and> w_clock w \<le> w_clock w'"
proof -
  obtain now w1 where t: "read_clock N w = (now, w1)" by fastforce
  from assms have loop: "wait_loop (''tx failed on chain: code=%d log=%q'', ''timeout waiting for tx %X'')
      N hash now (now + timeout) w1 = (r, w')"
    by (simp add: waitForTx_def t)
  from wait_loop_polls [OF loop] read_clockE [OF t] show ?thesis
    by (auto simp: polls_left_def)
qed

text \<open>
  What the end of the loop means: no error, that the chain answered with the transaction in a block, executed
  without error; an error, that it was executed with one, that the context ended, or that the deadline has passed.
\<close>

definition tx_confirmed :: "'x network \<Rightarrow> bytes \<Rightarrow> bool" where
  "tx_confirmed N hash \<longleftrightarrow>
     (\<exists>x res. fst (Tx N hash x) = Inr (Some res) \<and> 0 < tr_Height res \<and> tr_Code res = 0)"

definition tx_failed :: "'x network \<Rightarrow> bytes \<Rightarrow> bool" where
  "tx_failed N hash \<longleftrightarrow>
     (\<exists>x res. fst (Tx N hash x) = Inr (Some res) \<and> 0 < tr_Height res \<and> tr_Code res \<noteq> 0)"

definition wait_result :: "'x network \<Rightarrow> bytes \<Rightarrow> nat \<Rightarrow> goerr option \<Rightarrow> 'x world \<Rightarrow> bool" where
  "wait_result N hash deadline r w' =
     (case r of
        None \<Rightarrow> tx_confirmed N hash
      | Some err \<Rightarrow> tx_failed N hash \<or> (\<exists>tick x. fst (ctx_Done N tick x) = Some err) \<or> deadline < w_clock w')"

lemma included_Some [returns]: "included r = Some res \<longleftrightarrow> r = Inr (Some res) \<and> 0 < tr_Height res"
  by (auto simp: included_def split: sum.splits option.splits)

lemma select_tick_Some: "select_tick N tick w = (Some err, w1) \<Longrightarrow> \<exists>x. fst (ctx_Done N tick x) = Some err"
  by (auto simp: select_tick_def Let_def split: prod.splits option.splits intro!: exI [of _ "w_ext w"])

lemma wait_loop_result:
  assumes "wait_loop fmts N hash start deadline w = (r, w')"
  shows "wait_result N hash deadline r w'"
  using assms
proof (induction fmts N hash start deadline w rule: wait_loop.induct)
  case (1 fmts N hash start deadline w)
  obtain q w1 where c: "call (CallTx hash) (Tx N hash) w = (q, w1)" by fastforce
  obtain now w2 where t: "read_clock N w1 = (now, w2)" by fastforce
  obtain s w3 where d: "select_tick N (next_tick start (w_clock w)) w2 = (s, w3)" by fastforce
  note run = 1(2) [unfolded wait_loop.simps [of fmts N hash start deadline w] c Let_def prod.case]
  show ?case
  proof (cases "included q")
    case (Some res)
    have q: "fst (Tx N hash (w_ext w)) = q"
      using c by (auto simp: call_def Let_def split: prod.splits)
    have "tx_confirmed N hash" if "tr_Code res = 0"
      using Some q that unfolding tx_confirmed_def included_Some by blast
    moreover have "tx_failed N hash" if "tr_Code res \<noteq> 0"
      using Some q that unfolding tx_failed_def included_Some by blast
    ultimately show ?thesis using run Some by (auto simp: wait_result_def split: if_splits)
  next
    case None
    note run = run [unfolded None option.case t prod.case d]
    consider "deadline < now" | err where "\<not> deadline < now" "s = Some err" | "\<not> deadline < now" "s = None"
      by (cases s) auto
    then show ?thesis
    proof cases
      case 1
      then show ?thesis using run read_clockE(3) [OF t] by (auto simp: wait_result_def)
    next
      case 2
      with run select_tick_Some [of N _ w2 err w3] d show ?thesis by (fastforce simp: wait_result_def)
    next
      case 3
      then have "wait_loop fmts N hash start deadline w3 = (r, w')" using run by simp
      then show ?thesis using 1(1) c t d None 3 by (metis (no_types, lifting))
    qed
  qed
qed

lemma waitForTx_result:
  assumes "waitForTx N hash timeout w = (r, w')"
  shows "wait_result N hash (w_clock w + timeout) r w'"
proof -
  obtain now w1 where t: "read_clock N w = (now, w1)" by fastforce
  from assms have "wait_loop (''tx failed on chain: code=%d log=%q'', ''timeout waiting for tx %X'')
      N hash now (now + timeout) w1 = (r, w')"
    by (simp add: waitForTx_def t)
  from wait_loop_result [OF this] read_clockE(2,3) [OF t] show ?thesis
    by (auto simp: wait_result_def split: option.splits)
qed

section \<open>What is broadcast\<close>

definition fee_of :: "tx_sdk \<Rightarrow> NobleClient \<Rightarrow> coin list" where
  "fee_of T c = NewCoins T [NewInt64Coin T (nc_denom c)
     (of_nat (f64_trunc (f64_mul (f64_of_nat gasLimit) (nc_gasPrice c))))]"

definition exec_tx ::
  "cosmos_sdk \<Rightarrow> tx_sdk \<Rightarrow> NobleClient \<Rightarrow> sdk_msg \<Rightarrow> uint64 \<Rightarrow> bytes option \<Rightarrow> tx" where
  "exec_tx S T c exec accSeq sig =
     \<lparr>tx_Msgs = [exec], tx_GasLimit = 250000, tx_FeeAmount = fee_of T c, tx_FeePayer = None,
      tx_Memo = ''x402-cosmos'',
      tx_Signatures = [\<lparr>sig_PubKey = PubKey S (nc_signer c), sig_SignMode = SIGN_MODE_DIRECT,
                        sig_Signature = sig, sig_Sequence = accSeq\<rparr>]\<rparr>"

text \<open>
  The transaction is the one message, with one signature over the sign bytes of the transaction
  whose signature is still empty.
\<close>

lemma build_exec_tx_Inr:
  assumes "build_exec_tx S T c exec accNum accSeq = Inr (t, txBytes)"
  obtains sig bz where "t = exec_tx S T c exec accSeq (Some sig)" and "TxEncoder (nc_txConfig c) t = Inr txBytes"
    and "Sign S (nc_signer c) bz = Inr sig"
    and "GetSignBytes (nc_txConfig c) \<lparr>sd_ChainID = nc_chainID c, sd_AccountNumber = accNum, sd_Sequence = accSeq,
        sd_PubKey = PubKey S (nc_signer c), sd_Address = nc_address c\<rparr> (exec_tx S T c exec accSeq None) = Inr bz"
  using assms
  by (auto simp: build_exec_tx_def Let_def returns NewTxBuilder_def fee_of_def gasLimit_def exec_tx_def)

lemma build_exec_tx_content:
  assumes "build_exec_tx S T c exec accNum accSeq = Inr (t, txBytes)"
  shows "tx_Msgs t = [exec]" and "tx_FeeAmount t = fee_of T c"
  using assms by (rule build_exec_tx_Inr, simp add: exec_tx_def)+

definition exec_send :: "tx_sdk \<Rightarrow> bytes \<Rightarrow> string \<Rightarrow> string \<Rightarrow> coin \<Rightarrow> sdk_msg" where
  "exec_send T grantee from to coin = MsgExec grantee [MsgSend from to (NewCoins T [coin])]"

lemma BroadcastAuthzSend_calls:
  assumes "BroadcastAuthzSend S T N c from to denom amount w = ((h, err), w')"
  shows "(err \<noteq> None \<and> (w' = w \<or> w_calls w' = w_calls w @ [CallAccount (nc_address c)])) \<or>
    (\<exists>t coin acc k res. k \<le> 32
      \<and> w_calls w' = w_calls w @ [CallAccount (nc_address c),
          CallBroadcast (Some \<lparr>pay_from = from, pay_to = to, pay_text = amount @ denom\<rparr>) t] @ replicate k (CallTx res)
      \<and> ParseCoinNormalized T (amount @ denom) = Inr coin
      \<and> AccAddressFromBech32 T (fst (account_prefix (w_config w))) (nc_address c) = Inr acc
      \<and> tx_Msgs t = [exec_send T acc from to coin] \<and> tx_FeeAmount t = fee_of T c
      \<and> (err = None \<longrightarrow> h = to_upper (hex_EncodeToString res) \<and> tx_confirmed N res))"
proof -
  let ?p = "\<lparr>pay_from = from, pay_to = to, pay_text = amount @ denom\<rparr>"
  show ?thesis
  proof (cases "err \<noteq> None \<and> (w' = w \<or> w_calls w' = w_calls w @ [CallAccount (nc_address c)])")
    case False
    obtain coin where coin: "ParseCoinNormalized T (amount @ denom) = Inr coin"
      using assms False by (cases "ParseCoinNormalized T (amount @ denom)") (auto simp: BroadcastAuthzSend_def)
    obtain acc where acc: "AccAddressFromBech32 T (fst (account_prefix (w_config w))) (nc_address c) = Inr acc"
      using assms False coin
      by (cases "AccAddressFromBech32 T (fst (account_prefix (w_config w))) (nc_address c)")
        (auto simp: BroadcastAuthzSend_def)
    obtain q w1 where q: "queryAccountNumSeq N c (nc_address c) w = (q, w1)" by fastforce
    then have w1: "w_calls w1 = w_calls w @ [CallAccount (nc_address c)]"
      using callE(1) [of "CallAccount (nc_address c)" "Account N (nc_address c)" w]
      by (auto simp: queryAccountNumSeq_def split: prod.splits sum.splits)
    obtain num seq where ns: "q = Inr (num, seq)"
      using assms False coin acc q w1 by (cases q) (auto simp: BroadcastAuthzSend_def Let_def)
    obtain t txBytes where b: "build_exec_tx S T c (exec_send T acc from to coin) num seq = Inr (t, txBytes)"
      using assms False coin acc q w1 ns
      by (cases "build_exec_tx S T c (exec_send T acc from to coin) num seq")
        (auto simp: BroadcastAuthzSend_def Let_def exec_send_def)
    obtain r w2 where r: "call (CallBroadcast (Some ?p) t) (BroadcastTxSync N txBytes) w1 = (r, w2)" by fastforce
    note run = assms coin acc q ns b r
    have w2: "w_calls w2 = w_calls w @ [CallAccount (nc_address c), CallBroadcast (Some ?p) t]"
      using callE(1) [OF r] w1 by simp
    have "\<exists>k \<le> 32. \<exists>res. w_calls w' = w_calls w2 @ replicate k (CallTx res)
        \<and> (err = None \<longrightarrow> h = to_upper (hex_EncodeToString res) \<and> tx_confirmed N res)"
    proof (cases "\<exists>res. r = Inr res \<and> br_Code res = 0")
      case False
      with run have "w' = w2 \<and> err \<noteq> None"
        by (auto simp: BroadcastAuthzSend_def Let_def exec_send_def split: sum.splits)
      then show ?thesis by (intro exI [of _ 0]) auto
    next
      case True
      then obtain res where res: "r = Inr res" "br_Code res = 0" by blast
      obtain e w3 where wt: "waitForTx N (br_Hash res) (30 * second) w2 = (e, w3)" by fastforce
      with run res have w': "w' = w3" "h = to_upper (hex_EncodeToString (br_Hash res))" "err = None \<longleftrightarrow> e = None"
        by (auto simp: BroadcastAuthzSend_def Let_def exec_send_def split: option.splits)
      have "tx_confirmed N (br_Hash res)" if "e = None"
        using waitForTx_result [OF wt] that by (simp add: wait_result_def)
      moreover obtain k where "k \<le> 32" "w_calls w3 = w_calls w2 @ replicate k (CallTx (br_Hash res))"
        using waitForTx_polls [OF wt] by (auto simp: second_def)
      ultimately show ?thesis using w' by blast
    qed
    with w2 coin acc build_exec_tx_content [OF b] show ?thesis by auto
  qed simp
qed

section \<open>The client keeps the contract of a chain client\<close>

lemma sent_replicate [simp]: "sent_in (replicate k (CallTx h)) = []"
  by (induction k) (simp_all add: sent_in_def)

lemma QuerySendAuthorization_sent: "sent_payments (snd (QuerySendAuthorization T N c granter grantee denom w)) = sent_payments w"
  using callE(1) [of "CallGrants granter grantee (MsgSendTypeURL T)" "Grants N granter grantee (MsgSendTypeURL T)" w]
  by (auto simp: QuerySendAuthorization_def sent_payments_def split: prod.splits sum.splits option.splits)

lemma QueryBalance_sent: "sent_payments (snd (QueryBalance N addr denom w)) = sent_payments w"
  using callE(1) [of "CallBalance addr denom" "Balance N addr denom" w]
  by (auto simp: QueryBalance_def sent_payments_def split: prod.splits sum.splits option.splits)

lemma BroadcastAuthzSend_sent:
  assumes "BroadcastAuthzSend S T N c from to denom amount w = ((h, err), w')"
  shows "sent_payments w' = sent_payments w \<and> err \<noteq> None \<or>
    sent_payments w' = sent_payments w @ [\<lparr>pay_from = from, pay_to = to, pay_text = amount @ denom\<rparr>]"
  using BroadcastAuthzSend_calls [OF assms] by (auto simp: sent_payments_def simp flip: append_assoc)

interpretation noble: chain_client "noble_client S T N c" sent_payments for S T N c
proof unfold_locales
  fix granter grantee denom addr "from" to amount and w :: "'a world"
  show "sent_payments (snd (cl_QuerySendAuthorization (noble_client S T N c) granter grantee denom w)) = sent_payments w"
    by (simp add: QuerySendAuthorization_sent)
  show "sent_payments (snd (cl_QueryBalance (noble_client S T N c) addr denom w)) = sent_payments w"
    by (simp add: QueryBalance_sent)
  obtain h err w' where run: "BroadcastAuthzSend S T N c from to denom amount w = ((h, err), w')"
    by (metis prod.exhaust)
  from BroadcastAuthzSend_sent [OF this]
  show "sent_payments (snd (cl_BroadcastAuthzSend (noble_client S T N c) from to denom amount w)) = sent_payments w \<or>
      sent_payments (snd (cl_BroadcastAuthzSend (noble_client S T N c) from to denom amount w)) =
        sent_payments w @ [\<lparr>pay_from = from, pay_to = to, pay_text = amount @ denom\<rparr>]"
    and "snd (fst (cl_BroadcastAuthzSend (noble_client S T N c) from to denom amount w)) = None \<Longrightarrow>
      sent_payments (snd (cl_BroadcastAuthzSend (noble_client S T N c) from to denom amount w)) =
        sent_payments w @ [\<lparr>pay_from = from, pay_to = to, pay_text = amount @ denom\<rparr>]"
    by (auto simp: run)
qed

end
