(* ===== verification/Client.thy ===== *)
theory Client
  imports Keys Middleware Noble
begin

text \<open>
  \<open>examples/client/main.go\<close>: ask for a resource, read the requirements of the 402 response, sign an
  authorization for them, ask again with it. The environment \<open>client_env\<close> holds what the program takes from outside:
  the process environment, the network (\<open>cl_Do\<close>; a body that cannot be read to its end is what was read), random
  bytes, the clock, the error of \<open>http.NewRequest\<close> for a URL, which the source drops (the nil request then panics), and the text of JSON errors.

  The result is the settlement receipt that was logged, if any, and how the program ended: \<open>Inl\<close> for \<open>log.Fatal\<close>
  and panics, \<open>Inr\<close> with the body it printed.
\<close>

record 'y client_env =
  cl_Getenv :: "string \<Rightarrow> string"
  cl_Do :: "http_client \<Rightarrow> out_request \<Rightarrow> 'y \<Rightarrow> (goerr + http_response) \<times> 'y"
  cl_rand :: "nat \<Rightarrow> 'y \<Rightarrow> (goerr + bytes) \<times> 'y"
  cl_Now :: "'y \<Rightarrow> gotime \<times> 'y"
  cl_request_error :: "string \<Rightarrow> goerr option"
  cl_json_error :: "string \<Rightarrow> string"

definition deriveKey :: "cosmos_sdk \<Rightarrow> string \<Rightarrow> string \<Rightarrow> goerr + bytes \<times> string" where
  "deriveKey = derive_trimmed (ErrNew ''invalid mnemonic'')"

definition freshNonce :: "'y client_env \<Rightarrow> 'y \<Rightarrow> (exit + string) \<times> 'y" where
  "freshNonce E = fresh_nonce (cl_rand E)"

definition signAuth :: "cosmos_sdk \<Rightarrow> bytes \<Rightarrow> Authorization \<Rightarrow> goerr + bytes \<times> bytes" where
  "signAuth = sign_authorization"

definition encodeHeader :: "json \<Rightarrow> string" where
  "encodeHeader v = base64_Encode (json_print v)"

definition decodeHeader :: "(string \<Rightarrow> string) \<Rightarrow> 'a fields \<Rightarrow> 'a \<Rightarrow> string \<Rightarrow> goerr + 'a" where
  "decodeHeader jerr tbl zero h =
     (case base64_Decode h of
        None \<Rightarrow> Inl CorruptInputError
      | Some raw \<Rightarrow>
     (case Unmarshal tbl zero raw of
        None \<Rightarrow> Inl (Foreign (jerr raw))
      | Some v \<Rightarrow> Inr v))"

text \<open>Steps 2 and 3 of \<open>main\<close>: \<open>now\<close> is an \<open>int64\<close>, and \<open>uint64(now - 5)\<close> keeps its bits.\<close>

definition make_authorization ::
  "PaymentRequirements \<Rightarrow> string \<Rightarrow> string \<Rightarrow> int64 \<Rightarrow> bool \<Rightarrow> Authorization" where
  "make_authorization requirements addr nonce now expired =
     \<lparr>a_From = addr, a_To = pr_PayTo requirements, a_Denom = pr_Asset requirements,
      a_Amount = pr_MaxAmountRequired requirements, a_Nonce = nonce,
      a_ValidAfter = (if expired then now - 60 else now - 5),
      a_ValidBefore = (if expired then now - 10 else now + 30),
      a_Resource = pr_Resource requirements, a_ChainID = x_ChainID (pr_Extra requirements)\<rparr>"

definition make_payload ::
  "PaymentRequirements \<Rightarrow> Authorization \<Rightarrow> bytes \<Rightarrow> bytes \<Rightarrow> PaymentPayload" where
  "make_payload requirements auth signature pubKeyBytes =
     \<lparr>pp_X402Version = 2, pp_Scheme = Scheme, pp_Network = pr_Network requirements,
      pp_Payload = \<lparr>c_From = a_From auth, c_PublicKey = base64_Encode pubKeyBytes,
                    c_Signature = base64_Encode signature, c_Authorization = auth\<rparr>\<rparr>"

definition get_request :: "string \<Rightarrow> header \<Rightarrow> out_request" where
  "get_request url h = \<lparr>o_Method = ''GET'', o_URL = url, o_Header = h, o_Body = []\<rparr>"

text \<open>Step 1: the first request, up to the decoded requirements.\<close>

definition fetch_requirements :: "'y client_env \<Rightarrow> string \<Rightarrow> 'y \<Rightarrow> (exit + PaymentRequirements) \<times> 'y" where
  "fetch_requirements E url y =
     (case cl_request_error E url of
        Some err \<Rightarrow> (Inl (Panic err), y)
      | None \<Rightarrow>
     (case cl_Do E \<lparr>hc_Timeout = 60\<rparr> (get_request url []) y of
        (Inl err, y1) \<Rightarrow> (Inl (Fatal (Errorf ''first request: %v'' [AErrV err])), y1)
      | (Inr resp, y1) \<Rightarrow>
          if hr_Status resp \<noteq> 402 then
            (Inl (Fatal (Errorf ''expected 402, got %d'' [AInt (int (hr_Status resp))])), y1)
          else let reqHeader = header_Get (hr_Header resp) ''PAYMENT-REQUIRED'' in
            if reqHeader = [] then
              (Inl (Fatal (ErrNew ''server did not return PAYMENT-REQUIRED header'')), y1)
            else case decodeHeader (cl_json_error E) PaymentRequirements_fields PaymentRequirements_zero reqHeader of
                Inl err \<Rightarrow> (Inl (Fatal (Errorf ''decode requirements: %v'' [AErrV err])), y1)
              | Inr requirements \<Rightarrow> (Inr requirements, y1)))"

text \<open>Step 4: the paid request, and what is made of its response.\<close>

definition send_payment ::
  "'y client_env \<Rightarrow> string \<Rightarrow> PaymentPayload \<Rightarrow> 'y \<Rightarrow> (SettleResponse option \<times> (exit + string)) \<times> 'y" where
  "send_payment E url payload y =
     (let req = get_request url (header_Set ''PAYMENT-SIGNATURE'' (encodeHeader (PaymentPayload_json payload)) []) in
      case cl_Do E \<lparr>hc_Timeout = 60\<rparr> req y of
        (Inl err, y1) \<Rightarrow> ((None, Inl (Fatal (Errorf ''paid request: %v'' [AErrV err]))), y1)
      | (Inr resp, y1) \<Rightarrow>
          let body = hr_Body resp;
              respHeader = header_Get (hr_Header resp) ''PAYMENT-RESPONSE'';
              settle = (if respHeader = [] then None
                else case decodeHeader (cl_json_error E) SettleResponse_fields SettleResponse_zero respHeader of
                  Inl _ \<Rightarrow> None | Inr s \<Rightarrow> Some s) in
          if hr_Status resp \<noteq> 200 then
            ((settle, Inl (Fatal (Errorf ''paid request returned status %d, body=%s''
                [AInt (int (hr_Status resp)), AStr body]))), y1)
          else ((settle, Inr body), y1))"

definition client_main ::
  "cosmos_sdk \<Rightarrow> 'y client_env \<Rightarrow> 'y \<Rightarrow> (SettleResponse option \<times> (exit + string)) \<times> 'y" where
  "client_main S E y =
     (let serverURL = envOr (cl_Getenv E) ''X402_SERVER_URL'' ''http://localhost:8080/premium'';
          mnemonic = cl_Getenv E ''X402_PAYER_MNEMONIC'' in
      if mnemonic = [] then ((None, Inl (Fatal (ErrNew ''X402_PAYER_MNEMONIC is required''))), y)
      else
        let prefix = envOr (cl_Getenv E) ''X402_NOBLE_PREFIX'' ''noble'';
            reuseNonce = (cl_Getenv E ''X402_REUSE_NONCE'' = ''1'');
            expired = (cl_Getenv E ''X402_EXPIRED'' = ''1'') in
     (case deriveKey S mnemonic prefix of
        Inl err \<Rightarrow> ((None, Inl (Fatal (Errorf ''derive payer key: %v'' [AErrV err]))), y)
      | Inr (priv, addr) \<Rightarrow>
     (case fetch_requirements E serverURL y of
        (Inl ex, y1) \<Rightarrow> ((None, Inl ex), y1)
      | (Inr requirements, y1) \<Rightarrow>
     (case freshNonce E y1 of
        (Inl ex, y2) \<Rightarrow> ((None, Inl ex), y2)
      | (Inr fresh, y2) \<Rightarrow>
          let nonce = (if reuseNonce then ''0x'' @ repeat_str ''ab'' 32 else fresh);
              (t, y3) = cl_Now E y2;
              auth = make_authorization requirements addr nonce (Unix t) expired in
         (case signAuth S priv auth of
            Inl err \<Rightarrow> ((None, Inl (Fatal (Errorf ''sign: %v'' [AErrV err]))), y3)
          | Inr (signature, pubKeyBytes) \<Rightarrow>
              send_payment E serverURL (make_payload requirements auth signature pubKeyBytes) y3)))))"

end
