(* ===== verification/Server.thy ===== *)
theory Server
  imports Keys Middleware Noble
begin

text \<open>
  \<open>examples/server/main.go\<close>: the demo resource server. Its configuration comes from the process environment
  (a missing variable ends the process), its one protected handler answers with a JSON object that carries the time,
  and the routes put the middleware in front of it. \<open>Now\<close> reads the clock.
\<close>

definition mustEnv :: "(string \<Rightarrow> string) \<Rightarrow> string \<Rightarrow> exit + string" where
  "mustEnv Getenv k =
     (let v = Getenv k in
      if v = [] then Inl (Fatal (Errorf ''required env var %s is not set'' [AStr k])) else Inr v)"

definition premium_json :: "gotime \<Rightarrow> json" where
  "premium_json t =
     JObj [(''data'', JStr ''the secret of life is 42''), (''timestamp'', num_int (sint (Unix t)))]"

definition premium ::
  "('y \<Rightarrow> gotime \<times> 'y) \<Rightarrow> writer \<Rightarrow> http_request \<Rightarrow> 'y \<Rightarrow> writer \<times> 'y" where
  "premium Now w r y =
     (let w1 = set_header ''Content-Type'' ''application/json'' w; (t, y1) = Now y
      in (write_body (json_print (premium_json t) @ newline) w1, y1))"

text \<open>The listening address and the configuration of the middleware.\<close>

definition server_config :: "(string \<Rightarrow> string) \<Rightarrow> exit + string \<times> Config" where
  "server_config Getenv =
     (let addr = envOr Getenv ''X402_SERVER_ADDR'' '':8080'' in
      and_then (mustEnv Getenv ''X402_PAY_TO'') (\<lambda>payTo.
      let facilitatorURL = envOr Getenv ''X402_FACILITATOR_URL'' ''http://localhost:8402'' in
      and_then (mustEnv Getenv ''X402_FACILITATOR_GRANTEE'') (\<lambda>facilitatorAddr.
      let amount = envOr Getenv ''X402_AMOUNT'' ''10000'';
          network = envOr Getenv ''X402_NETWORK'' ''cosmos:grand-1'';
          asset = envOr Getenv ''X402_ASSET'' ''uusdc'' in
      Inr (addr,
        \<lparr>mw_PayTo = payTo, mw_Asset = asset, mw_Amount = amount, mw_Network = network,
         mw_FacilitatorURL = facilitatorURL, mw_FacilitatorAddr = facilitatorAddr, mw_MaxTimeoutSeconds = 60,
         mw_Description = ''One call to the premium endpoint'', mw_MimeType = ''application/json'',
         mw_Decimals = 6, mw_Symbol = ''USDC'', mw_HTTPClient = None\<rparr>))))"

definition server_mux ::
  "'y http_env \<Rightarrow> ('y \<Rightarrow> gotime \<times> 'y) \<Rightarrow> Config \<Rightarrow> http_request \<Rightarrow> 'y \<Rightarrow> writer \<times> 'y" where
  "server_mux H Now cfg r y =
     (if r_Path r = ''/premium'' then Paid H cfg (premium Now) new_writer r y
      else if r_Path r = ''/healthz'' then (write_header 200 new_writer, y)
      else (http_Error ''404 page not found'' 404 new_writer, y))"

text \<open>
  The program ends (\<open>Inl\<close>), or serves its routes. \<open>listen\<close> is the error of \<open>ListenAndServe\<close> on the address, if it cannot serve there.
\<close>

definition server_main ::
  "(string \<Rightarrow> string) \<Rightarrow> (string \<Rightarrow> goerr option) \<Rightarrow> 'y http_env \<Rightarrow> ('y \<Rightarrow> gotime \<times> 'y) \<Rightarrow>
    exit + (http_request \<Rightarrow> 'y \<Rightarrow> writer \<times> 'y)" where
  "server_main Getenv listen H Now =
     and_then (server_config Getenv) (\<lambda>(addr, cfg).
       case listen addr of Some err \<Rightarrow> Inl (Fatal err) | None \<Rightarrow> Inr (server_mux H Now cfg))"

lemma server_main_Inr [returns]:
  "server_main Getenv listen H Now = Inr handler \<longleftrightarrow>
    (\<exists>addr cfg. server_config Getenv = Inr (addr, cfg) \<and> listen addr = None \<and> handler = server_mux H Now cfg)"
  by (auto simp: server_main_def returns split: option.splits prod.splits)

lemma mustEnv_Inr [returns]: "mustEnv Getenv k = Inr v \<longleftrightarrow> Getenv k = v \<and> v \<noteq> []"
  by (auto simp: mustEnv_def Let_def)

text \<open>A server that starts asks for a payment to the configured account, with an upper limit of a minute.\<close>

lemma server_config_Inr:
  assumes "server_config Getenv = Inr (addr, cfg)"
  shows "mw_PayTo cfg = Getenv ''X402_PAY_TO''" and "mw_PayTo cfg \<noteq> []"
    and "mw_FacilitatorAddr cfg = Getenv ''X402_FACILITATOR_GRANTEE''" and "mw_MaxTimeoutSeconds cfg = 60"
    and "mw_Amount cfg = envOr Getenv ''X402_AMOUNT'' ''10000''" and "mw_HTTPClient cfg = None"
  using assms by (auto simp: server_config_def Let_def returns)

end
