(* ===== verification/Store.thy ===== *)
theory Store
  imports GoErrors GoTime
begin

text \<open>
  \<open>facilitator/store.go\<close>: the interface \<open>NonceStore\<close> and its in-memory implementation. Every
  method takes the mutex for its whole body, so each is one atomic function of the map.

  The locale \<open>nonce_store\<close> is the contract the comment above the interface states: a nonce is
  unseen, reserved or consumed; \<open>Reserve\<close> inserts atomically and refuses what is present,
  \<open>Commit\<close> consumes, \<open>Release\<close> frees a reservation only. The locale \<open>collected_store\<close> adds the
  garbage collection, which drops expired reservations and keeps what was consumed. The
  interpretations at the end discharge both for \<open>MemoryNonceStore\<close>.
\<close>

record 's NonceStore =
  ns_Reserve :: "string \<Rightarrow> string \<Rightarrow> string \<Rightarrow> gotime \<Rightarrow> 's \<Rightarrow> goerr option \<times> 's"
  ns_Commit :: "string \<Rightarrow> string \<Rightarrow> string \<Rightarrow> string \<Rightarrow> 's \<Rightarrow> goerr option \<times> 's"
  ns_Release :: "string \<Rightarrow> string \<Rightarrow> string \<Rightarrow> 's \<Rightarrow> goerr option \<times> 's"
  ns_Exists :: "string \<Rightarrow> string \<Rightarrow> string \<Rightarrow> 's \<Rightarrow> (goerr + bool) \<times> 's"

section \<open>The in-memory store\<close>

record nonceState =
  st_committed :: bool
  st_txHash :: string
  st_validBefore :: gotime

type_synonym MemoryNonceStore = "(string \<times> nonceState) list"

definition NewMemoryNonceStore :: MemoryNonceStore where
  "NewMemoryNonceStore = []"

definition nonceKey :: "string \<Rightarrow> string \<Rightarrow> string \<Rightarrow> string" where
  "nonceKey payer chainID nonce = payer @ ''|'' @ chainID @ ''|'' @ nonce"

definition Reserve ::
  "string \<Rightarrow> string \<Rightarrow> string \<Rightarrow> gotime \<Rightarrow> MemoryNonceStore \<Rightarrow> goerr option \<times> MemoryNonceStore" where
  "Reserve payer chainID nonce vb m =
     (let k = nonceKey payer chainID nonce in
      case map_of m k of
        Some _ \<Rightarrow> (Some ErrNonceUsed, m)
      | None \<Rightarrow> (None, AList.update k \<lparr>st_committed = False, st_txHash = [], st_validBefore = vb\<rparr> m))"

definition Commit ::
  "string \<Rightarrow> string \<Rightarrow> string \<Rightarrow> string \<Rightarrow> MemoryNonceStore \<Rightarrow> goerr option \<times> MemoryNonceStore" where
  "Commit payer chainID nonce hash m =
     (let k = nonceKey payer chainID nonce in
      case map_of m k of
        None \<Rightarrow> (Some (ErrNew ''commit without reserve''), m)
      | Some st \<Rightarrow> (None, AList.update k (st\<lparr>st_committed := True, st_txHash := hash\<rparr>) m))"

definition Release ::
  "string \<Rightarrow> string \<Rightarrow> string \<Rightarrow> MemoryNonceStore \<Rightarrow> goerr option \<times> MemoryNonceStore" where
  "Release payer chainID nonce m =
     (let k = nonceKey payer chainID nonce in
      case map_of m k of
        None \<Rightarrow> (None, m)
      | Some st \<Rightarrow>
          if st_committed st then (Some (ErrNew ''cannot release committed nonce''), m)
          else (None, AList.delete k m))"

definition Exists ::
  "string \<Rightarrow> string \<Rightarrow> string \<Rightarrow> MemoryNonceStore \<Rightarrow> (goerr + bool) \<times> MemoryNonceStore" where
  "Exists payer chainID nonce m = (Inr (map_of m (nonceKey payer chainID nonce) \<noteq> None), m)"

text \<open>The loop over the map deletes and counts the entries that satisfy its condition.\<close>

fun GC_loop :: "gotime \<Rightarrow> MemoryNonceStore \<Rightarrow> nat \<times> MemoryNonceStore" where
  "GC_loop now [] = (0, [])"
| "GC_loop now ((k, st) # m) =
     (let (n, m') = GC_loop now m in
      if \<not> st_committed st \<and> After now (st_validBefore st) then (Suc n, m') else (n, (k, st) # m'))"

definition GC :: "gotime \<Rightarrow> MemoryNonceStore \<Rightarrow> nat \<times> MemoryNonceStore" where
  "GC now m = GC_loop now m"

definition MemoryNonceStore_ops :: "MemoryNonceStore NonceStore" where
  "MemoryNonceStore_ops =
     \<lparr>ns_Reserve = Reserve, ns_Commit = Commit, ns_Release = Release, ns_Exists = Exists\<rparr>"

lemma MemoryNonceStore_ops_simps [simp]:
  "ns_Reserve MemoryNonceStore_ops = Reserve" "ns_Commit MemoryNonceStore_ops = Commit"
  "ns_Release MemoryNonceStore_ops = Release" "ns_Exists MemoryNonceStore_ops = Exists"
  by (simp_all add: MemoryNonceStore_ops_def)

section \<open>The contract\<close>

type_synonym nonce_id = "string \<times> string \<times> string"

datatype nonce_status = Unseen | Reserved gotime | is_Consumed: Consumed string

datatype store_op =
    DoReserve string string string gotime
  | DoCommit string string string string
  | DoRelease string string string
  | DoExists string string string

fun run_op :: "'s NonceStore \<Rightarrow> store_op \<Rightarrow> 's \<Rightarrow> 's" where
  "run_op ops (DoReserve p c n vb) s = snd (ns_Reserve ops p c n vb s)"
| "run_op ops (DoCommit p c n h) s = snd (ns_Commit ops p c n h s)"
| "run_op ops (DoRelease p c n) s = snd (ns_Release ops p c n s)"
| "run_op ops (DoExists p c n) s = snd (ns_Exists ops p c n s)"

fun op_key :: "store_op \<Rightarrow> nonce_id" where
  "op_key (DoReserve p c n vb) = (p, c, n)"
| "op_key (DoCommit p c n h) = (p, c, n)"
| "op_key (DoRelease p c n) = (p, c, n)"
| "op_key (DoExists p c n) = (p, c, n)"

text \<open>The next status of an entry when the operation on it succeeds, and when it fails.\<close>

locale nonce_store =
  fixes ops :: "'s NonceStore"
    and status :: "'s \<Rightarrow> 'k \<Rightarrow> nonce_status"
    and invar :: "'s \<Rightarrow> bool"
    and key :: "string \<Rightarrow> string \<Rightarrow> string \<Rightarrow> 'k"
  assumes invar_op: "invar s \<Longrightarrow> invar (run_op ops opn s)"
    and frame: "invar s \<Longrightarrow> op_key opn = (p, c, n) \<Longrightarrow> k \<noteq> key p c n \<Longrightarrow>
      status (run_op ops opn s) k = status s k"
    and consumed_stable: "invar s \<Longrightarrow> is_Consumed (status s k) \<Longrightarrow>
      is_Consumed (status (run_op ops opn s) k)"
    and reserve_fresh: "invar s \<Longrightarrow> ns_Reserve ops p c n vb s = (None, s') \<Longrightarrow>
      status s (key p c n) = Unseen \<and> status s' (key p c n) = Reserved vb"
    and reserve_used: "invar s \<Longrightarrow> status s (key p c n) \<noteq> Unseen \<Longrightarrow>
      ns_Reserve ops p c n vb s = (Some ErrNonceUsed, s)"
    and reserve_error: "invar s \<Longrightarrow> ns_Reserve ops p c n vb s = (Some err, s') \<Longrightarrow>
      status s' (key p c n) = status s (key p c n)"
    and commit_ok: "invar s \<Longrightarrow> ns_Commit ops p c n h s = (None, s') \<Longrightarrow>
      status s (key p c n) \<noteq> Unseen \<and> status s' (key p c n) = Consumed h"
    and commit_error: "invar s \<Longrightarrow> ns_Commit ops p c n h s = (Some err, s') \<Longrightarrow>
      status s' (key p c n) = status s (key p c n)"
    and release_ok: "invar s \<Longrightarrow> ns_Release ops p c n s = (None, s') \<Longrightarrow>
      (\<forall>h. status s (key p c n) \<noteq> Consumed h) \<and> status s' (key p c n) = Unseen"
    and release_error: "invar s \<Longrightarrow> ns_Release ops p c n s = (Some err, s') \<Longrightarrow>
      status s' (key p c n) = status s (key p c n)"
    and exists_ok: "invar s \<Longrightarrow> ns_Exists ops p c n s = (Inr b, s') \<Longrightarrow>
      (b \<longleftrightarrow> status s (key p c n) \<noteq> Unseen)"
    and exists_frame: "invar s \<Longrightarrow>
      status (snd (ns_Exists ops p c n s)) k = status s k"
begin

lemma invar_reserve: "invar s \<Longrightarrow> invar (snd (ns_Reserve ops p c n vb s))"
  using invar_op [of s "DoReserve p c n vb"] by simp

lemma invar_commit: "invar s \<Longrightarrow> invar (snd (ns_Commit ops p c n h s))"
  using invar_op [of s "DoCommit p c n h"] by simp

lemma invar_release: "invar s \<Longrightarrow> invar (snd (ns_Release ops p c n s))"
  using invar_op [of s "DoRelease p c n"] by simp

lemma invar_exists: "invar s \<Longrightarrow> invar (snd (ns_Exists ops p c n s))"
  using invar_op [of s "DoExists p c n"] by simp

lemmas invars = invar_reserve invar_commit invar_release invar_exists

text \<open>A nonce that was reserved is refused by the next \<open>Reserve\<close>, whatever its expiry.\<close>

lemma reserve_once:
  assumes "invar s" and "ns_Reserve ops p c n vb s = (None, s')"
  shows "ns_Reserve ops p c n vb' s' = (Some ErrNonceUsed, s')"
proof (rule reserve_used)
  show "invar s'" using invar_reserve [OF assms(1), of p c n vb] assms(2) by simp
  show "status s' (key p c n) \<noteq> Unseen" using reserve_fresh [OF assms] by simp
qed

text \<open>What was consumed stays consumed, under any operations on any nonces.\<close>

lemma invar_run: "invar s \<Longrightarrow> invar (fold (run_op ops) run s)"
  by (induction run arbitrary: s) (auto intro: invar_op)

lemma consumed_forever:
  assumes "invar s" and "is_Consumed (status s k)"
  shows "is_Consumed (status (fold (run_op ops) run s) k)"
  using assms
proof (induction run arbitrary: s)
  case Nil
  then show ?case by simp
next
  case (Cons opn run)
  have "invar (run_op ops opn s)" using Cons.prems(1) by (rule invar_op)
  moreover have "is_Consumed (status (run_op ops opn s) k)"
    using Cons.prems by (rule consumed_stable)
  ultimately show ?case using Cons.IH [of "run_op ops opn s"] by simp
qed

lemma consumed_refuses:
  assumes "invar s" and "is_Consumed (status s (key p c n))"
  shows "ns_Reserve ops p c n vb s = (Some ErrNonceUsed, s)"
  using assms by (intro reserve_used) auto

lemma consumed_refuses_reserve:
  assumes "invar s" and "ns_Commit ops p c n h s = (None, s')"
  shows "fst (ns_Reserve ops p c n vb (fold (run_op ops) run s')) = Some ErrNonceUsed"
proof -
  have inv: "invar s'" using invar_commit [OF assms(1), of p c n h] assms(2) by simp
  have "is_Consumed (status s' (key p c n))" using commit_ok [OF assms] by simp
  with inv have "is_Consumed (status (fold (run_op ops) run s') (key p c n))"
    by (rule consumed_forever)
  with invar_run [OF inv] show ?thesis by (simp add: consumed_refuses)
qed

end

text \<open>A store that never fails: every operation succeeds where the status allows it.\<close>

locale reliable_store = nonce_store +
  assumes reserve_works: "invar s \<Longrightarrow> status s (key p c n) = Unseen \<Longrightarrow> fst (ns_Reserve ops p c n vb s) = None"
    and commit_works: "invar s \<Longrightarrow> status s (key p c n) \<noteq> Unseen \<Longrightarrow> fst (ns_Commit ops p c n h s) = None"
    and release_works: "invar s \<Longrightarrow> \<not> is_Consumed (status s (key p c n)) \<Longrightarrow> fst (ns_Release ops p c n s) = None"
    and exists_works: "invar s \<Longrightarrow> \<not> isl (fst (ns_Exists ops p c n s))"
begin

lemma commit_status:
  assumes "invar s" and "status s (key p c n) \<noteq> Unseen"
  shows "status (snd (ns_Commit ops p c n h s)) (key p c n) = Consumed h"
  using commit_works [OF assms, of h] commit_ok [OF assms(1), of p c n h]
  by (cases "ns_Commit ops p c n h s") auto

lemma release_status:
  assumes "invar s" and "\<not> is_Consumed (status s (key p c n))"
  shows "status (snd (ns_Release ops p c n s)) (key p c n) = Unseen"
  using release_works [OF assms] release_ok [OF assms(1), of p c n]
  by (cases "ns_Release ops p c n s") auto

end

locale collected_store = reliable_store +
  fixes gc :: "gotime \<Rightarrow> 's \<Rightarrow> nat \<times> 's"
  assumes gc_invar: "invar s \<Longrightarrow> invar (snd (gc now s))"
    and gc_status: "invar s \<Longrightarrow> status (snd (gc now s)) k =
      (case status s k of
         Reserved vb \<Rightarrow> if After now vb then Unseen else Reserved vb
       | st \<Rightarrow> st)"
begin

lemma gc_keeps_consumed: "invar s \<Longrightarrow> status s k = Consumed h \<Longrightarrow> status (snd (gc now s)) k = Consumed h"
  by (simp add: gc_status)

lemma gc_keeps_valid_reservation:
  "invar s \<Longrightarrow> status s k = Reserved vb \<Longrightarrow> \<not> After now vb \<Longrightarrow> status (snd (gc now s)) k = Reserved vb"
  by (simp add: gc_status)

lemma gc_frees_expired:
  "invar s \<Longrightarrow> status s k = Reserved vb \<Longrightarrow> After now vb \<Longrightarrow> status (snd (gc now s)) k = Unseen"
  by (simp add: gc_status)

end

section \<open>The in-memory store keeps the contract\<close>

definition mem_status :: "MemoryNonceStore \<Rightarrow> string \<Rightarrow> nonce_status" where
  "mem_status m k =
     (case map_of m k of
        None \<Rightarrow> Unseen
      | Some st \<Rightarrow> if st_committed st then Consumed (st_txHash st) else Reserved (st_validBefore st))"

definition mem_invar :: "MemoryNonceStore \<Rightarrow> bool" where
  "mem_invar m \<longleftrightarrow> distinct (map fst m)"

text \<open>The separator of \<open>nonceKey\<close> does not occur in a bech32 address or in a chain id.\<close>

definition good_key :: "nonce_id \<Rightarrow> bool" where
  "good_key k = (case k of (p, c, n) \<Rightarrow> CHR ''|'' \<notin> set p \<and> CHR ''|'' \<notin> set c)"

lemma nonceKey_eq:
  "good_key (p, c, n) \<Longrightarrow> good_key (p', c', n') \<Longrightarrow>
    nonceKey p c n = nonceKey p' c' n' \<longleftrightarrow> (p, c, n) = (p', c', n')"
  by (auto simp: good_key_def nonceKey_def append_sep_inject)

lemmas store_defs = Reserve_def Commit_def Release_def Exists_def Let_def

lemma mem_invar_op: "mem_invar m \<Longrightarrow> mem_invar (run_op MemoryNonceStore_ops opn m)"
  by (cases opn) (auto simp: mem_invar_def store_defs distinct_update distinct_delete split: option.splits)

lemma mem_key_frame:
  "nonceKey p c n \<noteq> k \<Longrightarrow> op_key opn = (p, c, n) \<Longrightarrow>
    map_of (run_op MemoryNonceStore_ops opn m) k = map_of m k"
  by (cases opn) (auto simp: store_defs split: option.splits)

lemma mem_frame:
  "op_key opn = (p, c, n) \<Longrightarrow> k \<noteq> nonceKey p c n \<Longrightarrow>
    mem_status (run_op MemoryNonceStore_ops opn m) k = mem_status m k"
  using mem_key_frame [of p c n k opn m] by (auto simp: mem_status_def)

lemma mem_consumed_stable:
  assumes "is_Consumed (mem_status m k)"
  shows "is_Consumed (mem_status (run_op MemoryNonceStore_ops opn m) k)"
proof -
  obtain p c n where k': "op_key opn = (p, c, n)" by (cases "op_key opn")
  show ?thesis
  proof (cases "k = nonceKey p c n")
    case False
    with assms mem_frame [OF k'] show ?thesis by simp
  next
    case True
    then show ?thesis
      using assms k' by (cases opn) (auto simp: store_defs mem_status_def split: option.splits if_splits)
  qed
qed

lemma GC_loop_filter:
  "GC_loop now m =
    (length (filter (\<lambda>(k, st). \<not> st_committed st \<and> After now (st_validBefore st)) m),
     filter (\<lambda>(k, st). \<not> (\<not> st_committed st \<and> After now (st_validBefore st))) m)"
  by (induction m rule: GC_loop.induct) (auto simp: Let_def)

text \<open>Collections absorb each other: what is left is what the latest one leaves.\<close>

lemma GC_absorbs: "snd (GC t (snd (GC u m))) = snd (GC (max t u) m)"
  unfolding GC_def GC_loop_filter snd_conv filter_filter
  by (rule filter_cong) (auto simp: After_less less_max_iff_disj)

lemma GC_absorbs_all: "fold (\<lambda>now m. snd (GC now m)) (t # ts) m = snd (GC (fold max ts t) m)"
  by (induction ts arbitrary: t) (simp_all add: GC_absorbs)
lemma map_of_GC:
  assumes "mem_invar m"
  shows "map_of (snd (GC now m)) k =
    (case map_of m k of
       None \<Rightarrow> None
     | Some st \<Rightarrow> if \<not> st_committed st \<and> After now (st_validBefore st) then None else Some st)"
  using assms unfolding GC_def GC_loop_filter snd_conv
  by (subst map_of_filter_key) (auto simp: mem_invar_def split: option.splits)

lemma mem_status_GC:
  assumes "mem_invar m"
  shows "mem_status (snd (GC now m)) k =
    (case mem_status m k of Reserved vb \<Rightarrow> if After now vb then Unseen else Reserved vb | st \<Rightarrow> st)"
  by (auto simp: mem_status_def map_of_GC [OF assms] split: option.splits)

lemma mem_invar_GC: "mem_invar m \<Longrightarrow> mem_invar (snd (GC now m))"
  by (simp add: mem_invar_def GC_def GC_loop_filter distinct_filter_fst)

lemma mem_invar_new [simp]: "mem_invar NewMemoryNonceStore"
  by (simp add: mem_invar_def NewMemoryNonceStore_def)

lemma mem_status_new [simp]: "mem_status NewMemoryNonceStore k = Unseen"
  by (simp add: mem_status_def NewMemoryNonceStore_def)

interpretation mem: collected_store MemoryNonceStore_ops mem_status mem_invar nonceKey GC
proof unfold_locales
  fix m :: MemoryNonceStore and p c n and vb :: gotime and h err m' opn k b now
  show "mem_invar m \<Longrightarrow> mem_invar (run_op MemoryNonceStore_ops opn m)"
    by (rule mem_invar_op)
  show "op_key opn = (p, c, n) \<Longrightarrow> k \<noteq> nonceKey p c n \<Longrightarrow>
      mem_status (run_op MemoryNonceStore_ops opn m) k = mem_status m k"
    by (rule mem_frame)
  show "is_Consumed (mem_status m k) \<Longrightarrow>
      is_Consumed (mem_status (run_op MemoryNonceStore_ops opn m) k)"
    by (rule mem_consumed_stable)
  show "ns_Reserve MemoryNonceStore_ops p c n vb m = (None, m') \<Longrightarrow>
      mem_status m (nonceKey p c n) = Unseen \<and> mem_status m' (nonceKey p c n) = Reserved vb"
    by (auto simp: store_defs mem_status_def split: option.splits)
  show "mem_status m (nonceKey p c n) \<noteq> Unseen \<Longrightarrow>
      ns_Reserve MemoryNonceStore_ops p c n vb m = (Some ErrNonceUsed, m)"
    by (auto simp: store_defs mem_status_def split: option.splits)
  show "ns_Reserve MemoryNonceStore_ops p c n vb m = (Some err, m') \<Longrightarrow>
      mem_status m' (nonceKey p c n) = mem_status m (nonceKey p c n)"
    by (auto simp: store_defs split: option.splits)
  show "ns_Commit MemoryNonceStore_ops p c n h m = (None, m') \<Longrightarrow>
      mem_status m (nonceKey p c n) \<noteq> Unseen \<and> mem_status m' (nonceKey p c n) = Consumed h"
    by (auto simp: store_defs mem_status_def split: option.splits)
  show "ns_Commit MemoryNonceStore_ops p c n h m = (Some err, m') \<Longrightarrow>
      mem_status m' (nonceKey p c n) = mem_status m (nonceKey p c n)"
    by (auto simp: store_defs split: option.splits)
  show "ns_Release MemoryNonceStore_ops p c n m = (None, m') \<Longrightarrow>
      (\<forall>h. mem_status m (nonceKey p c n) \<noteq> Consumed h) \<and> mem_status m' (nonceKey p c n) = Unseen"
    by (auto simp: store_defs mem_status_def split: option.splits if_splits)
  show "ns_Release MemoryNonceStore_ops p c n m = (Some err, m') \<Longrightarrow>
      mem_status m' (nonceKey p c n) = mem_status m (nonceKey p c n)"
    by (auto simp: store_defs split: option.splits if_splits)
  show "ns_Exists MemoryNonceStore_ops p c n m = (Inr b, m') \<Longrightarrow>
      b \<longleftrightarrow> mem_status m (nonceKey p c n) \<noteq> Unseen"
    by (auto simp: store_defs mem_status_def split: option.splits)
  show "mem_status (snd (ns_Exists MemoryNonceStore_ops p c n m)) k = mem_status m k"
    by (simp add: store_defs)
  show "mem_status m (nonceKey p c n) = Unseen \<Longrightarrow> fst (ns_Reserve MemoryNonceStore_ops p c n vb m) = None"
    and "mem_status m (nonceKey p c n) \<noteq> Unseen \<Longrightarrow> fst (ns_Commit MemoryNonceStore_ops p c n h m) = None"
    and "\<not> is_Consumed (mem_status m (nonceKey p c n)) \<Longrightarrow> fst (ns_Release MemoryNonceStore_ops p c n m) = None"
    and "\<not> isl (fst (ns_Exists MemoryNonceStore_ops p c n m))"
    by (auto simp: store_defs mem_status_def split: option.splits if_splits)
  show "mem_invar m \<Longrightarrow> mem_invar (snd (GC now m))"
    by (rule mem_invar_GC)
  show "mem_invar m \<Longrightarrow> mem_status (snd (GC now m)) k =
      (case mem_status m k of Reserved vb \<Rightarrow> if After now vb then Unseen else Reserved vb | st \<Rightarrow> st)"
    by (rule mem_status_GC)
qed

end
