(* ===== verification/Verify.thy ===== *)
theory Verify
  imports Adr036 Chain Store
begin

text \<open>
  \<open>facilitator/verify.go\<close>. The state of a run is the pair of the nonce store \<open>'s\<close> and the environment
  \<open>'e\<close> of the chain clients and of the clock. \<open>Verify\<close> is cut where it leaves the facilitator: the
  comparison of authorization and requirements (\<open>check_static\<close>), the validity window at the
  clock's reading (\<open>check_window\<close>), the look at the nonce store (\<open>check_nonce\<close>), and the signature with
  the queries to the chain (\<open>check_chain\<close>). The pieces are composed as the code runs them; settlements
  that interleave are composed from the same pieces in \<open>Concurrency\<close>.
\<close>

record ('s, 'e) Verifier =
  vf_chains :: "(string \<times> 'e ChainClient) list"
  vf_nonces :: "'s NonceStore"
  vf_clock :: "'e \<Rightarrow> gotime \<times> 'e"

text \<open>The clock, \<open>time.Now\<close>, is a function of the environment.\<close>

definition NewVerifier ::
  "('e \<Rightarrow> gotime \<times> 'e) \<Rightarrow> (string \<times> 'e ChainClient) list \<Rightarrow> 's NonceStore \<Rightarrow> ('s, 'e) Verifier" where
  "NewVerifier clock clients store =
     \<lparr>vf_chains = clients, vf_nonces = store, vf_clock = clock\<rparr>"

definition verifyErr :: "string \<Rightarrow> errmsg \<Rightarrow> goerr" where
  "verifyErr code msg = VerifyError code msg"

definition ErrorCode :: "goerr \<Rightarrow> string" where
  "ErrorCode err =
     (case errors_As_verifyError err of
        Some ve \<Rightarrow> Code ve
      | None \<Rightarrow> ErrUnexpected)"

definition big_Cmp :: "int \<Rightarrow> int \<Rightarrow> int" where
  "big_Cmp x y = (if x < y then -1 else if x = y then 0 else 1)"

definition cmpAmounts :: "string \<Rightarrow> string \<Rightarrow> int" where
  "cmpAmounts a b =
     (case (big_SetString a, big_SetString b) of
        (Some ai, Some bi) \<Rightarrow> big_Cmp ai bi
      | _ \<Rightarrow> 0)"

section \<open>Verify\<close>

definition check_static ::
  "(string \<times> 'e ChainClient) list \<Rightarrow> VerifyRequest \<Rightarrow> goerr + 'e ChainClient" where
  "check_static clients req =
     (let pp = vr_PaymentPayload req; pr = vr_PaymentRequirements req;
          a = c_Authorization (pp_Payload pp) in
      if pp_Scheme pp \<noteq> Scheme \<or> pr_Scheme pr \<noteq> Scheme then
        Inl (verifyErr ErrInvalidAuthorization (MsgText ''scheme mismatch''))
      else if pp_Network pp \<noteq> pr_Network pr then
        Inl (verifyErr ErrInvalidAuthorization (MsgText ''network mismatch''))
      else
     (case map_of clients (pp_Network pp) of
        None \<Rightarrow> Inl (verifyErr ErrInvalidAuthorization (MsgText (''unsupported network: '' @ pp_Network pp)))
      | Some client \<Rightarrow>
          if a_To a \<noteq> pr_PayTo pr then
            Inl (verifyErr ErrInvalidAuthorization (MsgText ''to/payTo mismatch''))
          else if a_Denom a \<noteq> pr_Asset pr then
            Inl (verifyErr ErrInvalidAuthorization (MsgText ''denom/asset mismatch''))
          else if cmpAmounts (a_Amount a) (pr_MaxAmountRequired pr) > 0 then
            Inl (verifyErr ErrInvalidAuthorization (MsgText ''amount exceeds maxAmountRequired''))
          else if a_Resource a \<noteq> pr_Resource pr then
            Inl (verifyErr ErrInvalidAuthorization (MsgText ''resource mismatch''))
          else let expectedChainID = trim_prefix (pp_Network pp) ''cosmos:'' in
            if a_ChainID a \<noteq> expectedChainID \<or> a_ChainID a \<noteq> cl_ChainID client then
              Inl (verifyErr ErrInvalidAuthorization (MsgText ''chainId mismatch''))
            else Inr client))"

text \<open>\<open>now\<close> is \<open>uint64(v.clock().Unix())\<close>; the comparisons and the difference are those of \<open>uint64\<close>.\<close>

definition check_window :: "uint64 \<Rightarrow> VerifyRequest \<Rightarrow> goerr option" where
  "check_window now req =
     (let pr = vr_PaymentRequirements req;
          a = c_Authorization (pp_Payload (vr_PaymentPayload req)) in
      if now < a_ValidAfter a then
        Some (verifyErr ErrExpiredAuthorization (MsgText ''not yet valid''))
      else if now \<ge> a_ValidBefore a then
        Some (verifyErr ErrExpiredAuthorization (MsgText ''expired''))
      else if a_ValidBefore a \<le> a_ValidAfter a then
        Some (verifyErr ErrInvalidAuthorization (MsgText ''non-positive validity window''))
      else if pr_MaxTimeoutSeconds pr > 0 \<and> a_ValidBefore a - a_ValidAfter a > pr_MaxTimeoutSeconds pr then
        Some (verifyErr ErrInvalidAuthorization (MsgText ''validity window exceeds maxTimeoutSeconds''))
      else None)"

definition check_request ::
  "('s, 'e) Verifier \<Rightarrow> VerifyRequest \<Rightarrow> 'e \<Rightarrow> (goerr + 'e ChainClient) \<times> 'e" where
  "check_request v req e =
     (case check_static (vf_chains v) req of
        Inl err \<Rightarrow> (Inl err, e)
      | Inr client \<Rightarrow>
          let (t, e1) = vf_clock v e; now = Unix t in
          (case check_window now req of
             Some err \<Rightarrow> (Inl err, e1)
           | None \<Rightarrow> (Inr client, e1)))"

definition check_nonce ::
  "('s, 'e) Verifier \<Rightarrow> Authorization \<Rightarrow> 's \<Rightarrow> goerr option \<times> 's" where
  "check_nonce v a s =
     (let (used, s1) = ns_Exists (vf_nonces v) (a_From a) (a_ChainID a) (a_Nonce a) s in
      (case used of
         Inl err \<Rightarrow> (Some (verifyErr ErrUnexpected (MsgCat ''nonce store error: '' err)), s1)
       | Inr True \<Rightarrow> (Some (verifyErr ErrNonceAlreadyUsed (MsgText ''nonce already observed'')), s1)
       | Inr False \<Rightarrow> (None, s1)))"

text \<open>The clock is read only for a grant that has an expiry, as \<open>&&\<close> evaluates it.\<close>

definition check_expiry :: "('s, 'e) Verifier \<Rightarrow> gotime \<Rightarrow> 'e \<Rightarrow> bool \<times> 'e" where
  "check_expiry v exp e =
     (if IsZero exp then (False, e)
      else let (t, e1) = vf_clock v e in (\<not> After exp t, e1))"

definition check_chain ::
  "cosmos_sdk \<Rightarrow> ('s, 'e) Verifier \<Rightarrow> 'e ChainClient \<Rightarrow> VerifyRequest \<Rightarrow> 'e \<Rightarrow> (goerr + string) \<times> 'e" where
  "check_chain S v client req e =
     (let pp = vr_PaymentPayload req; pr = vr_PaymentRequirements req;
          a = c_Authorization (pp_Payload pp) in
      case VerifyADR036 S (c_PublicKey (pp_Payload pp)) (c_Signature (pp_Payload pp)) a (cl_AccountPrefix client) of
        Inl err \<Rightarrow> (Inl (verifyErr ErrInvalidSignature (MsgCat [] err)), e)
      | Inr addr \<Rightarrow>
     (case cl_QuerySendAuthorization client (a_From a) (x_Facilitator (pr_Extra pr)) (a_Denom a) e of
        (Inl err, e1) \<Rightarrow>
          if errors_Is err ErrNoGrant then
            (Inl (verifyErr ErrInsufficientGrant (MsgText ''no SendAuthorization for facilitator'')), e1)
          else (Inl (verifyErr ErrUnexpected (MsgCat ''grant query: '' err)), e1)
      | (Inr (limit, exp), e1) \<Rightarrow>
          if cmpAmounts limit (a_Amount a) < 0 then
            (Inl (verifyErr ErrInsufficientGrant
               (MsgFmt ''grant limit %s < amount %s'' [AStr limit, AStr (a_Amount a)])), e1)
          else
     (case check_expiry v exp e1 of
        (True, e2) \<Rightarrow> (Inl (verifyErr ErrInsufficientGrant (MsgText ''grant expired'')), e2)
      | (False, e2) \<Rightarrow>
     (case cl_QueryBalance client (a_From a) (a_Denom a) e2 of
        (Inl _, e3) \<Rightarrow> (Inr addr, e3)
      | (Inr bal, e3) \<Rightarrow>
          if cmpAmounts bal (a_Amount a) < 0 then
            (Inl (verifyErr ErrInsufficientFunds
               (MsgFmt ''balance %s < amount %s'' [AStr bal, AStr (a_Amount a)])), e3)
          else (Inr addr, e3)))))"

definition Verify ::
  "cosmos_sdk \<Rightarrow> ('s, 'e) Verifier \<Rightarrow> VerifyRequest \<Rightarrow> 's \<times> 'e \<Rightarrow> (goerr + string) \<times> 's \<times> 'e" where
  "Verify S v req st =
     (let (s, e) = st in
      case check_request v req e of
        (Inl err, e1) \<Rightarrow> (Inl err, s, e1)
      | (Inr client, e1) \<Rightarrow>
     (case check_nonce v (c_Authorization (pp_Payload (vr_PaymentPayload req))) s of
        (Some err, s1) \<Rightarrow> (Inl err, s1, e1)
      | (None, s1) \<Rightarrow>
          let (r, e2) = check_chain S v client req e1 in (r, s1, e2)))"


section \<open>Amounts\<close>

lemma cmpAmounts_pos: "0 < cmpAmounts a b \<longleftrightarrow>
    (\<exists>x y. big_SetString a = Some x \<and> big_SetString b = Some y \<and> y < x)"
  by (auto simp: cmpAmounts_def big_Cmp_def split: option.splits)

lemma cmpAmounts_neg: "cmpAmounts a b < 0 \<longleftrightarrow>
    (\<exists>x y. big_SetString a = Some x \<and> big_SetString b = Some y \<and> x < y)"
  by (auto simp: cmpAmounts_def big_Cmp_def split: option.splits)

lemma cmpAmounts_antisym: "cmpAmounts b a = - cmpAmounts a b"
  by (auto simp: cmpAmounts_def big_Cmp_def split: option.splits)

text \<open>What a caller may conclude from a comparison that does not fail: only if both texts are numbers.\<close>

definition at_most :: "string \<Rightarrow> string \<Rightarrow> bool" where
  "at_most a b \<longleftrightarrow>
     (case (big_SetString a, big_SetString b) of (Some x, Some y) \<Rightarrow> x \<le> y | _ \<Rightarrow> True)"

lemma at_most_cmp: "0 < cmpAmounts a b \<longleftrightarrow> \<not> at_most a b" "cmpAmounts b a < 0 \<longleftrightarrow> \<not> at_most a b"
  by (auto simp: cmpAmounts_pos cmpAmounts_neg at_most_def split: option.splits)

lemma at_most_numbers [simp]: "at_most (show_nat m) (show_nat n) \<longleftrightarrow> m \<le> n"
  by (simp add: at_most_def)

section \<open>The checks, declaratively\<close>

definition requirements_met ::
  "(string \<times> 'e ChainClient) list \<Rightarrow> VerifyRequest \<Rightarrow> 'e ChainClient \<Rightarrow> bool" where
  "requirements_met clients req client \<longleftrightarrow>
     (let pp = vr_PaymentPayload req; pr = vr_PaymentRequirements req;
          a = c_Authorization (pp_Payload pp) in
      pp_Scheme pp = Scheme \<and> pr_Scheme pr = Scheme \<and> pp_Network pp = pr_Network pr
      \<and> map_of clients (pp_Network pp) = Some client
      \<and> a_To a = pr_PayTo pr \<and> a_Denom a = pr_Asset pr
      \<and> at_most (a_Amount a) (pr_MaxAmountRequired pr)
      \<and> a_Resource a = pr_Resource pr
      \<and> a_ChainID a = trim_prefix (pp_Network pp) ''cosmos:'' \<and> a_ChainID a = cl_ChainID client)"

definition window_open :: "nat \<Rightarrow> VerifyRequest \<Rightarrow> bool" where
  "window_open now req \<longleftrightarrow>
     (let a = c_Authorization (pp_Payload (vr_PaymentPayload req));
          max = unat (pr_MaxTimeoutSeconds (vr_PaymentRequirements req)) in
      unat (a_ValidAfter a) \<le> now \<and> now < unat (a_ValidBefore a)
      \<and> (max = 0 \<or> unat (a_ValidBefore a) \<le> unat (a_ValidAfter a) + max))"

lemma check_static_Inr [returns]:
  "check_static clients req = Inr client \<longleftrightarrow> requirements_met clients req client"
  by (auto simp: check_static_def requirements_met_def Let_def at_most_cmp split: option.splits)

lemma check_window_None [returns]: "check_window now req = None \<longleftrightarrow> window_open (unat now) req"
proof -
  define a where "a = c_Authorization (pp_Payload (vr_PaymentPayload req))"
  define m where "m = pr_MaxTimeoutSeconds (vr_PaymentRequirements req)"
  have "m < b - a' \<longleftrightarrow> unat a' + unat m < unat b" if "a' < b" for a' b :: uint64
    using that by (auto simp: word_less_nat_alt unat_sub_if_size)
  moreover have "0 < m \<longleftrightarrow> unat m \<noteq> 0"
    by (simp add: word_less_nat_alt)
  ultimately show ?thesis
    unfolding check_window_def window_open_def Let_def a_def [symmetric] m_def [symmetric]
    by (auto simp: word_less_nat_alt word_le_nat_alt not_le)
qed

text \<open>The third branch of the window check is dead: the first two already exclude it.\<close>

lemma check_window_branches:
  assumes "check_window now req = Some err"
  shows "ErrorCode err = ErrExpiredAuthorization \<or>
    err = verifyErr ErrInvalidAuthorization (MsgText ''validity window exceeds maxTimeoutSeconds'')"
  using assms
  by (auto simp: check_window_def Let_def ErrorCode_def verifyErr_def split: if_splits)

lemma check_nonce_None [returns]:
  "check_nonce v a s = (None, s1) \<longleftrightarrow>
    ns_Exists (vf_nonces v) (a_From a) (a_ChainID a) (a_Nonce a) s = (Inr False, s1)"
  by (auto simp: check_nonce_def Let_def split: prod.splits sum.splits bool.splits)

definition grant_covers ::
  "('s, 'e) Verifier \<Rightarrow> 'e ChainClient \<Rightarrow> VerifyRequest \<Rightarrow> 'e \<Rightarrow> 'e \<Rightarrow> bool" where
  "grant_covers v client req e e' \<longleftrightarrow>
     (let a = c_Authorization (pp_Payload (vr_PaymentPayload req));
          grantee = x_Facilitator (pr_Extra (vr_PaymentRequirements req)) in
      \<exists>limit exp e1. cl_QuerySendAuthorization client (a_From a) grantee (a_Denom a) e = (Inr (limit, exp), e1)
        \<and> at_most (a_Amount a) limit \<and> check_expiry v exp e1 = (False, e'))"

definition balance_covers :: "'e ChainClient \<Rightarrow> Authorization \<Rightarrow> 'e \<Rightarrow> 'e \<Rightarrow> bool" where
  "balance_covers client a e e' \<longleftrightarrow>
     (\<exists>r. cl_QueryBalance client (a_From a) (a_Denom a) e = (r, e')
       \<and> (\<forall>bal. r = Inr bal \<longrightarrow> at_most (a_Amount a) bal))"

definition payer_signed :: "cosmos_sdk \<Rightarrow> 'e ChainClient \<Rightarrow> CosmosPayload \<Rightarrow> string \<Rightarrow> bool" where
  "payer_signed S client c payer \<longleftrightarrow>
     VerifyADR036 S (c_PublicKey c) (c_Signature c) (c_Authorization c) (cl_AccountPrefix client) = Inr payer"

lemma payer_signed_eq: "payer_signed S client c payer \<Longrightarrow> payer = a_From (c_Authorization c)"
  by (auto simp: payer_signed_def returns)

lemma check_chain_Inr [returns]:
  "check_chain S v client req e = (Inr payer, e') \<longleftrightarrow>
    (let c = pp_Payload (vr_PaymentPayload req) in
     payer_signed S client c payer \<and>
     (\<exists>e1. grant_covers v client req e e1 \<and> balance_covers client (c_Authorization c) e1 e'))"
  unfolding check_chain_def payer_signed_def grant_covers_def balance_covers_def Let_def
  by (auto simp: at_most_cmp split: sum.splits prod.splits bool.splits if_splits)

lemma check_request_Inr [returns]:
  "check_request v req e = (Inr client, e1) \<longleftrightarrow>
    requirements_met (vf_chains v) req client \<and>
    (\<exists>t. vf_clock v e = (t, e1) \<and> window_open (unat (Unix t)) req)"
  by (auto simp: check_request_def Let_def check_static_Inr [symmetric] check_window_None [symmetric]
      split: sum.splits prod.splits option.splits)

lemma Verify_Inr [returns]:
  "Verify S v req (s, e) = (Inr payer, s', e') \<longleftrightarrow>
    (\<exists>client e1. check_request v req e = (Inr client, e1)
      \<and> check_nonce v (c_Authorization (pp_Payload (vr_PaymentPayload req))) s = (None, s')
      \<and> check_chain S v client req e1 = (Inr payer, e'))"
  by (auto simp: Verify_def Let_def split: sum.splits prod.splits option.splits)

lemma Verify_payer:
  assumes "Verify S v req st = (Inr payer, st')"
  shows "payer = a_From (c_Authorization (pp_Payload (vr_PaymentPayload req)))"
  using assms by (cases st; cases st') (auto simp: returns Let_def dest: payer_signed_eq)


section \<open>The list of checks of the specification\<close>

text \<open>
  Section "Verification" of \<open>specs/scheme_exact_cosmos_authz.md\<close> is a list of conditions, and "Error
  codes" names the code of each. \<open>observe\<close> collects what a run may learn from outside, \<open>spec_steps\<close>
  is the list over it, and the verdict is the code of the first condition that fails. Conditions that
  the document does not have (a readable nonce store, the optional balance) are where the code has them.
\<close>

record observation =
  ob_now :: nat
  ob_used :: "goerr + bool"
  ob_signed :: bool
  ob_grant :: "goerr + string \<times> gotime"
  ob_expired :: bool
  ob_balance :: "goerr + string"

definition observe ::
  "cosmos_sdk \<Rightarrow> ('s, 'e) Verifier \<Rightarrow> VerifyRequest \<Rightarrow> 'e ChainClient \<Rightarrow> 's \<times> 'e \<Rightarrow> observation" where
  "observe S v req client st =
     (let c = pp_Payload (vr_PaymentPayload req); a = c_Authorization c;
          (t, e1) = vf_clock v (snd st);
          (g, e2) = cl_QuerySendAuthorization client (a_From a)
                      (x_Facilitator (pr_Extra (vr_PaymentRequirements req))) (a_Denom a) e1;
          (x, e3) = (case g of Inl _ \<Rightarrow> (False, e2) | Inr (_, exp) \<Rightarrow> check_expiry v exp e2)
      in \<lparr>ob_now = unat (Unix t),
          ob_used = fst (ns_Exists (vf_nonces v) (a_From a) (a_ChainID a) (a_Nonce a) (fst st)),
          ob_signed = isl (VerifyADR036 S (c_PublicKey c) (c_Signature c) a (cl_AccountPrefix client)) = False,
          ob_grant = g, ob_expired = x,
          ob_balance = fst (cl_QueryBalance client (a_From a) (a_Denom a) e3)\<rparr>)"

definition static_steps ::
  "(string \<times> 'e ChainClient) list \<Rightarrow> VerifyRequest \<Rightarrow> (bool \<times> string) list" where
  "static_steps clients req =
     (let pp = vr_PaymentPayload req; pr = vr_PaymentRequirements req in
      [(pp_Scheme pp = Scheme \<and> pr_Scheme pr = Scheme, ErrInvalidAuthorization),
       (pp_Network pp = pr_Network pr, ErrInvalidAuthorization),
       (map_of clients (pp_Network pp) \<noteq> None, ErrInvalidAuthorization)])"

definition spec_steps :: "VerifyRequest \<Rightarrow> 'e ChainClient \<Rightarrow> observation \<Rightarrow> (bool \<times> string) list" where
  "spec_steps req client ob =
     (let pp = vr_PaymentPayload req; pr = vr_PaymentRequirements req; a = c_Authorization (pp_Payload pp);
          max = unat (pr_MaxTimeoutSeconds pr) in
      [(a_To a = pr_PayTo pr, ErrInvalidAuthorization),
       (a_Denom a = pr_Asset pr, ErrInvalidAuthorization),
       (at_most (a_Amount a) (pr_MaxAmountRequired pr), ErrInvalidAuthorization),
       (a_Resource a = pr_Resource pr, ErrInvalidAuthorization),
       (a_ChainID a = trim_prefix (pp_Network pp) ''cosmos:'' \<and> a_ChainID a = cl_ChainID client,
          ErrInvalidAuthorization),
       (unat (a_ValidAfter a) \<le> ob_now ob \<and> ob_now ob < unat (a_ValidBefore a), ErrExpiredAuthorization),
       (max = 0 \<or> unat (a_ValidBefore a) \<le> unat (a_ValidAfter a) + max, ErrInvalidAuthorization),
       (\<not> isl (ob_used ob), ErrUnexpected),
       (ob_used ob = Inr False, ErrNonceAlreadyUsed),
       (ob_signed ob, ErrInvalidSignature),
       (\<forall>err. ob_grant ob = Inl err \<longrightarrow> \<not> errors_Is err ErrNoGrant, ErrInsufficientGrant),
       (\<not> isl (ob_grant ob), ErrUnexpected),
       (at_most (a_Amount a) (fst (projr (ob_grant ob))), ErrInsufficientGrant),
       (\<not> ob_expired ob, ErrInsufficientGrant),
       (\<forall>bal. ob_balance ob = Inr bal \<longrightarrow> at_most (a_Amount a) bal, ErrInsufficientFunds)])"

fun first_failure :: "(bool \<times> string) list \<Rightarrow> string option" where
  "first_failure [] = None"
| "first_failure ((ok, code) # steps) = (if ok then first_failure steps else Some code)"

definition verdict ::
  "cosmos_sdk \<Rightarrow> ('s, 'e) Verifier \<Rightarrow> VerifyRequest \<Rightarrow> 's \<times> 'e \<Rightarrow> string option" where
  "verdict S v req st =
     (case first_failure (static_steps (vf_chains v) req) of
        Some code \<Rightarrow> Some code
      | None \<Rightarrow>
          let client = the (map_of (vf_chains v) (pp_Network (vr_PaymentPayload req))) in
          first_failure (spec_steps req client (observe S v req client st)))"

definition result_code :: "goerr + string \<Rightarrow> string option" where
  "result_code r = (case r of Inl err \<Rightarrow> Some (ErrorCode err) | Inr _ \<Rightarrow> None)"

lemma result_code_simps [simp]:
  "result_code (Inr x) = None" "result_code (Inl (verifyErr c m)) = Some c"
  by (simp_all add: result_code_def ErrorCode_def verifyErr_def)

lemma first_failure_append:
  "first_failure (xs @ ys) = (case first_failure xs of None \<Rightarrow> first_failure ys | c \<Rightarrow> c)"
  by (induction xs rule: first_failure.induct) auto

text \<open>The three parts of a verification, each with its part of the list.\<close>

lemma check_static_spec:
  "(case check_static clients req of Inl err \<Rightarrow> Some (ErrorCode err) | Inr _ \<Rightarrow> None)
    = (case first_failure (static_steps clients req) of
         Some c \<Rightarrow> Some c
       | None \<Rightarrow> first_failure (take 5 (spec_steps req
            (the (map_of clients (pp_Network (vr_PaymentPayload req)))) ob)))"
  by (auto simp: check_static_def static_steps_def spec_steps_def Let_def at_most_cmp ErrorCode_def
      verifyErr_def split: option.splits)

lemma check_window_spec:
  "map_option ErrorCode (check_window now req)
    = first_failure (take 2 (drop 5 (spec_steps req client (ob\<lparr>ob_now := unat now\<rparr>))))"
proof -
  define a where "a = c_Authorization (pp_Payload (vr_PaymentPayload req))"
  define m where "m = pr_MaxTimeoutSeconds (vr_PaymentRequirements req)"
  have "m < b - a' \<longleftrightarrow> unat a' + unat m < unat b" if "a' < b" for a' b :: uint64
    using that by (auto simp: word_less_nat_alt unat_sub_if_size)
  moreover have "0 < m \<longleftrightarrow> unat m \<noteq> 0"
    by (simp add: word_less_nat_alt)
  ultimately show ?thesis
    unfolding check_window_def spec_steps_def Let_def a_def [symmetric] m_def [symmetric]
    by (auto simp: word_less_nat_alt word_le_nat_alt not_le ErrorCode_def verifyErr_def)
qed

lemma check_nonce_spec:
  assumes "ob_used ob = fst (ns_Exists (vf_nonces v) (a_From a) (a_ChainID a) (a_Nonce a) s)"
  shows "map_option ErrorCode (fst (check_nonce v a s))
    = first_failure (take 2 (drop 7 (spec_steps req client ob)))"
  using assms
  by (auto simp: check_nonce_def spec_steps_def Let_def ErrorCode_def verifyErr_def
      split: prod.splits sum.splits bool.splits)

lemma check_chain_spec:
  assumes "vf_clock v (snd st) = (t, e1)" and "ob = observe S v req client st"
  shows "result_code (fst (check_chain S v client req e1))
    = first_failure (drop 9 (spec_steps req client ob))"
  using assms
  by (auto simp: check_chain_def spec_steps_def observe_def Let_def at_most_cmp
      split: prod.splits sum.splits bool.splits)

lemma Verify_spec: "result_code (fst (Verify S v req st)) = verdict S v req st"
proof -
  obtain s e where st: "st = (s, e)" by (cases st)
  let ?net = "pp_Network (vr_PaymentPayload req)"
  let ?a = "c_Authorization (pp_Payload (vr_PaymentPayload req))"
  obtain t e1 where t: "vf_clock v e = (t, e1)" by fastforce
  define client where "client = the (map_of (vf_chains v) ?net)"
  define ob where "ob = observe S v req client st"
  define L where "L = spec_steps req client ob"
  have now: "ob = ob\<lparr>ob_now := unat (Unix t)\<rparr>"
    by (simp add: ob_def observe_def st t Let_def split: prod.splits)
  have used: "ob_used ob = fst (ns_Exists (vf_nonces v) (a_From ?a) (a_ChainID ?a) (a_Nonce ?a) s)"
    by (simp add: ob_def observe_def st t Let_def split: prod.splits)
  have "L = take 5 L @ take 2 (drop 5 L) @ take 2 (drop 7 L) @ drop 9 L"
    by (simp add: L_def spec_steps_def Let_def)
  then have L: "first_failure L =
      (case first_failure (take 5 L) of None \<Rightarrow>
        (case map_option ErrorCode (check_window (Unix t) req) of None \<Rightarrow>
          (case map_option ErrorCode (fst (check_nonce v ?a s)) of None \<Rightarrow>
            result_code (fst (check_chain S v client req e1)) | c \<Rightarrow> c) | c \<Rightarrow> c) | c \<Rightarrow> c)"
    using check_window_spec [of "Unix t" req client ob] check_nonce_spec [OF used, of req client]
      check_chain_spec [of v st t e1 ob S req client] t now
    by (simp add: st ob_def L_def) (metis first_failure_append)
  show ?thesis
  proof (cases "check_static (vf_chains v) req")
    case (Inl err)
    with check_static_spec [of "vf_chains v" req ob] L show ?thesis
      by (auto simp: Verify_def check_request_def verdict_def st Let_def result_code_def ob_def L_def
          client_def split: option.splits)
  next
    case (Inr client')
    then have "map_of (vf_chains v) ?net = Some client'"
      by (auto simp: check_static_Inr requirements_met_def Let_def)
    then have "client' = client" by (simp add: client_def)
    with Inr check_static_spec [of "vf_chains v" req ob] L show ?thesis
      by (auto simp: Verify_def check_request_def verdict_def st t Let_def result_code_def ob_def L_def client_def
          split: option.splits prod.splits sum.splits)
  qed
qed

lemma Verify_error_code:
  assumes "fst (Verify S v req st) = Inl err"
  shows "ErrorCode err \<in> {ErrInvalidAuthorization, ErrExpiredAuthorization, ErrUnexpected,
    ErrNonceAlreadyUsed, ErrInvalidSignature, ErrInsufficientGrant, ErrInsufficientFunds}"
  using Verify_spec [of S v req st] assms
  by (auto simp: result_code_def verdict_def static_steps_def spec_steps_def Let_def
      split: option.splits if_splits)


section \<open>A facilitator and what its parts promise\<close>

text \<open>
  The facilitator's parts under their contracts: a nonce store, chain clients that hand payments over
  in \<open>BroadcastAuthzSend\<close> only, and a clock that hands over nothing.
\<close>

locale facilitator = nonce_store ops status invar key
  for ops :: "'s NonceStore" and status :: "'s \<Rightarrow> 'k \<Rightarrow> nonce_status" and invar
    and key :: "string \<Rightarrow> string \<Rightarrow> string \<Rightarrow> 'k" +
  fixes S :: cosmos_sdk
    and v :: "('s, 'e) Verifier"
    and sent :: "'e \<Rightarrow> payment list"
  assumes nonces: "vf_nonces v = ops"
    and clients: "(net, client) \<in> set (vf_chains v) \<Longrightarrow> chain_client client sent"
    and clock_sends_nothing: "sent (snd (vf_clock v e)) = sent e"
begin

lemma known_client: "map_of (vf_chains v) net = Some client \<Longrightarrow> chain_client client sent"
  by (meson clients map_of_SomeD)

lemma check_request_sends_nothing: "sent (snd (check_request v req e)) = sent e"
  using clock_sends_nothing [of e]
  by (auto simp: check_request_def Let_def split: sum.splits prod.splits option.splits)

lemma check_expiry_sends_nothing: "sent (snd (check_expiry v exp e)) = sent e"
  using clock_sends_nothing [of e] by (auto simp: check_expiry_def Let_def split: prod.splits)

lemma check_chain_sends_nothing:
  assumes "chain_client client sent"
  shows "sent (snd (check_chain S v client req e)) = sent e"
proof -
  note quiet = chain_client.grant_query_sends_nothing [OF assms]
    chain_client.balance_query_sends_nothing [OF assms] check_expiry_sends_nothing
  have grant: "sent e' = sent e" if "cl_QuerySendAuthorization client g x d e = (r, e')" for g x d e r e'
    using quiet(1) [of g x d e] that by simp
  have expiry: "sent e' = sent e" if "check_expiry v exp e = (r, e')" for exp e r e'
    using quiet(3) [of exp e] that by simp
  have balance: "sent e' = sent e" if "cl_QueryBalance client a d e = (r, e')" for a d e r e'
    using quiet(2) [of a d e] that by simp
  show ?thesis
    by (auto simp: check_chain_def Let_def dest!: grant expiry balance
        split: sum.splits prod.splits bool.splits)
qed

lemma check_nonce_keeps:
  assumes "invar s" and "check_nonce v a s = (r, s1)"
  shows "invar s1" and "status s1 k = status s k"
  using assms exists_frame [of s "a_From a" "a_ChainID a" "a_Nonce a" k]
    invar_exists [of s "a_From a" "a_ChainID a" "a_Nonce a"]
  by (auto simp: check_nonce_def nonces Let_def split: prod.splits sum.splits bool.splits)

lemma Verify_keeps:
  assumes "Verify S v req (s, e) = (r, s1, e1)" and "invar s"
  shows "invar s1" and "status s1 k = status s k" and "sent e1 = sent e"
proof -
  have "invar s1 \<and> status s1 k = status s k \<and> sent e1 = sent e"
  proof (cases "check_request v req e")
    case (Pair q e2)
    have e2: "sent e2 = sent e" using check_request_sends_nothing [of req e] by (simp add: Pair)
    show ?thesis
    proof (cases q)
      case (Inl err)
      with assms Pair e2 show ?thesis by (simp add: Verify_def)
    next
      case (Inr client)
      let ?a = "c_Authorization (pp_Payload (vr_PaymentPayload req))"
      have "chain_client client sent"
        using Pair Inr by (auto simp: check_request_Inr requirements_met_def Let_def intro: known_client)
      from check_chain_sends_nothing [OF this, of req e2]
      show ?thesis
        using assms Pair Inr e2 check_nonce_keeps [OF assms(2), of ?a]
        by (auto simp: Verify_def Let_def split: prod.splits option.splits)
    qed
  qed
  then show "invar s1" and "status s1 k = status s k" and "sent e1 = sent e" by simp_all
qed

text \<open>A nonce that is in the store, reserved or consumed, does not verify.\<close>

lemma Verify_unseen:
  assumes "invar s" and "Verify S v req (s, e) = (Inr payer, s1, e1)"
    and "a = c_Authorization (pp_Payload (vr_PaymentPayload req))"
  shows "status s (key (a_From a) (a_ChainID a) (a_Nonce a)) = Unseen"
  using assms exists_ok [OF assms(1), of "a_From a" "a_ChainID a" "a_Nonce a" False s1]
  by (auto simp: Verify_Inr check_nonce_None nonces)

end

end
