(* ===== verification/Settle.thy ===== *)
theory Settle
  imports Verify
begin

text \<open>
  \<open>facilitator/settle.go\<close>: verification, reservation of the nonce, broadcast, and the commit or the
  release of the nonce. The state is that of \<open>Verify\<close>. What the steps do to the nonce and to the
  payments handed to the chain is proved once in the locale \<open>facilitator\<close>.
\<close>

record ('s, 'e) Settler =
  sv :: "('s, 'e) Verifier"

definition NewSettler :: "('s, 'e) Verifier \<Rightarrow> ('s, 'e) Settler" where
  "NewSettler v = \<lparr>sv = v\<rparr>"

definition settle_failed :: "string \<Rightarrow> string \<Rightarrow> string \<Rightarrow> SettleResponse" where
  "settle_failed code network payer =
     SettleResponse_zero\<lparr>s_Success := False, s_ErrorReason := code, s_Network := network, s_Payer := payer\<rparr>"

definition settle_paid :: "string \<Rightarrow> string \<Rightarrow> string \<Rightarrow> SettleResponse" where
  "settle_paid hash network payer =
     SettleResponse_zero\<lparr>s_Success := True, s_Transaction := hash, s_Network := network, s_Payer := payer\<rparr>"

text \<open>The reservation: the expiry of the entry is \<open>time.Unix(int64(a.ValidBefore), 0)\<close>.\<close>

definition reserve_nonce ::
  "('s, 'e) Verifier \<Rightarrow> Authorization \<Rightarrow> 's \<Rightarrow> string option \<times> 's" where
  "reserve_nonce v a s =
     (let validBefore = time_Unix (a_ValidBefore a) in
      case ns_Reserve (vf_nonces v) (a_From a) (a_ChainID a) (a_Nonce a) validBefore s of
        (Some err, s1) \<Rightarrow> (Some (if err = ErrNonceUsed then ErrNonceAlreadyUsed else ErrUnexpected), s1)
      | (None, s1) \<Rightarrow> (None, s1))"

text \<open>The result of the broadcast decides between release and commit; their errors are dropped.\<close>

definition finish_nonce ::
  "('s, 'e) Verifier \<Rightarrow> Authorization \<Rightarrow> string \<times> goerr option \<Rightarrow> 's \<Rightarrow> 's" where
  "finish_nonce v a r s =
     (case r of
        (_, Some err) \<Rightarrow> snd (ns_Release (vf_nonces v) (a_From a) (a_ChainID a) (a_Nonce a) s)
      | (txHash, None) \<Rightarrow> snd (ns_Commit (vf_nonces v) (a_From a) (a_ChainID a) (a_Nonce a) txHash s))"

definition broadcast_response ::
  "string \<Rightarrow> string \<Rightarrow> string \<times> goerr option \<Rightarrow> SettleResponse" where
  "broadcast_response network payer r =
     (case r of
        (_, Some err) \<Rightarrow> settle_failed ErrBroadcastFailed network payer
      | (txHash, None) \<Rightarrow> settle_paid txHash network payer)"

definition Settle ::
  "cosmos_sdk \<Rightarrow> ('s, 'e) Settler \<Rightarrow> SettleRequest \<Rightarrow> 's \<times> 'e \<Rightarrow> SettleResponse \<times> 's \<times> 'e" where
  "Settle S st req state =
     (let v = sv st; pp = vr_PaymentPayload req; a = c_Authorization (pp_Payload pp) in
      case Verify S v req state of
        (Inl err, s1, e1) \<Rightarrow> (settle_failed (ErrorCode err) (pp_Network pp) [], s1, e1)
      | (Inr payer, s1, e1) \<Rightarrow>
     (case reserve_nonce v a s1 of
        (Some code, s2) \<Rightarrow> (settle_failed code (pp_Network pp) payer, s2, e1)
      | (None, s2) \<Rightarrow>
          let client = the (map_of (vf_chains v) (pp_Network pp));
              (r, e2) = cl_BroadcastAuthzSend client (a_From a) (a_To a) (a_Denom a) (a_Amount a) e1
          in (broadcast_response (pp_Network pp) payer r, finish_nonce v a r s2, e2)))"

lemma settle_failed_simps [simp]:
  "s_Success (settle_failed c n p) = False" "s_ErrorReason (settle_failed c n p) = c"
  "s_Network (settle_failed c n p) = n" "s_Payer (settle_failed c n p) = p"
  "s_Transaction (settle_failed c n p) = []"
  by (simp_all add: settle_failed_def SettleResponse_zero_def)

lemma settle_paid_simps [simp]:
  "s_Success (settle_paid h n p) = True" "s_Transaction (settle_paid h n p) = h"
  "s_Network (settle_paid h n p) = n" "s_Payer (settle_paid h n p) = p"
  "s_ErrorReason (settle_paid h n p) = []"
  by (simp_all add: settle_paid_def SettleResponse_zero_def)

lemma error_codes_nonempty:
  "code \<in> {ErrInvalidAuthorization, ErrExpiredAuthorization, ErrUnexpected, ErrNonceAlreadyUsed,
    ErrInvalidSignature, ErrInsufficientGrant, ErrInsufficientFunds} \<Longrightarrow> code \<noteq> ErrBroadcastFailed \<and> code \<noteq> []"
  by (auto simp: error_codes)

abbreviation request_auth :: "VerifyRequest \<Rightarrow> Authorization" where
  "request_auth req \<equiv> c_Authorization (pp_Payload (vr_PaymentPayload req))"

abbreviation request_id :: "VerifyRequest \<Rightarrow> nonce_id" where
  "request_id req \<equiv> (a_From (request_auth req), a_ChainID (request_auth req), a_Nonce (request_auth req))"

definition payment_of :: "VerifyRequest \<Rightarrow> payment" where
  "payment_of req =
     (let a = request_auth req in
      \<lparr>pay_from = a_From a, pay_to = a_To a, pay_text = a_Amount a @ a_Denom a\<rparr>)"

section \<open>The outcomes\<close>

text \<open>The four ways through \<open>Settle\<close>.\<close>

datatype outcome = Rejected | Duplicate | Failed | Settled

inductive settles ::
  "cosmos_sdk \<Rightarrow> ('s, 'e) Verifier \<Rightarrow> VerifyRequest \<Rightarrow> outcome \<Rightarrow> 's \<times> 'e \<Rightarrow> SettleResponse \<Rightarrow> 's \<times> 'e \<Rightarrow> bool"
  for S v req where
  rejected: "Verify S v req st = (Inl err, s1, e1) \<Longrightarrow>
    settles S v req Rejected st (settle_failed (ErrorCode err) (pp_Network (vr_PaymentPayload req)) []) (s1, e1)"
| duplicate: "Verify S v req st = (Inr payer, s1, e1) \<Longrightarrow>
    reserve_nonce v (request_auth req) s1 = (Some code, s2) \<Longrightarrow>
    settles S v req Duplicate st (settle_failed code (pp_Network (vr_PaymentPayload req)) payer) (s2, e1)"
| failed: "Verify S v req st = (Inr payer, s1, e1) \<Longrightarrow>
    reserve_nonce v (request_auth req) s1 = (None, s2) \<Longrightarrow>
    map_of (vf_chains v) (pp_Network (vr_PaymentPayload req)) = Some client \<Longrightarrow>
    cl_BroadcastAuthzSend client (a_From (request_auth req)) (a_To (request_auth req))
      (a_Denom (request_auth req)) (a_Amount (request_auth req)) e1 = ((h, Some err), e2) \<Longrightarrow>
    settles S v req Failed st (settle_failed ErrBroadcastFailed (pp_Network (vr_PaymentPayload req)) payer)
      (finish_nonce v (request_auth req) (h, Some err) s2, e2)"
| paid: "Verify S v req st = (Inr payer, s1, e1) \<Longrightarrow>
    reserve_nonce v (request_auth req) s1 = (None, s2) \<Longrightarrow>
    map_of (vf_chains v) (pp_Network (vr_PaymentPayload req)) = Some client \<Longrightarrow>
    cl_BroadcastAuthzSend client (a_From (request_auth req)) (a_To (request_auth req))
      (a_Denom (request_auth req)) (a_Amount (request_auth req)) e1 = ((h, None), e2) \<Longrightarrow>
    settles S v req Settled st (settle_paid h (pp_Network (vr_PaymentPayload req)) payer)
      (finish_nonce v (request_auth req) (h, None) s2, e2)"

inductive_cases rejectedE: "settles S v req Rejected st r st'"
inductive_cases duplicateE: "settles S v req Duplicate st r st'"
inductive_cases failedE: "settles S v req Failed st r st'"
inductive_cases paidE: "settles S v req Settled st r st'"

lemma Verify_known_client:
  assumes "Verify S v req st = (Inr payer, st')"
  obtains client where "map_of (vf_chains v) (pp_Network (vr_PaymentPayload req)) = Some client"
  using assms by (cases st; cases st') (auto simp: returns requirements_met_def Let_def)

lemma reserve_code_cases: "reserve_nonce v a s = (Some code, s1) \<Longrightarrow> code = ErrNonceAlreadyUsed \<or> code = ErrUnexpected"
  by (auto simp: reserve_nonce_def Let_def split: prod.splits option.splits if_splits)

text \<open>The answer tells the ways apart.\<close>

lemma outcome_answer:
  assumes "settles S v req oc st r st'"
  shows "s_Success r \<longleftrightarrow> oc = Settled" and "s_ErrorReason r = ErrBroadcastFailed \<longleftrightarrow> oc = Failed"
proof -
  have "(s_Success r \<longleftrightarrow> oc = Settled) \<and> (s_ErrorReason r = ErrBroadcastFailed \<longleftrightarrow> oc = Failed)"
    using assms
  proof (cases rule: settles.cases)
    case (rejected err s1 e1)
    then have "fst (Verify S v req st) = Inl err" by simp
    from error_codes_nonempty [OF Verify_error_code [OF this]] rejected show ?thesis by simp
  next
    case (duplicate payer s1 e1 code s2)
    then have "code \<noteq> ErrBroadcastFailed"
      using reserve_code_cases by (metis ErrNonceAlreadyUsed_def ErrUnexpected_def error_codes_nonempty insertI1 insertI2)
    with duplicate show ?thesis by simp
  next
    case (paid payer s1 e1 s2 client h e2)
    then show ?thesis by (simp add: ErrBroadcastFailed_def)
  qed simp
  then show "s_Success r \<longleftrightarrow> oc = Settled" and "s_ErrorReason r = ErrBroadcastFailed \<longleftrightarrow> oc = Failed" by simp_all
qed

lemma Settle_outcome:
  assumes "Settle S (NewSettler v) req st = (r, st')"
  obtains oc where "settles S v req oc st r st'"
proof -
  obtain q s1 e1 where V: "Verify S v req st = (q, s1, e1)" by (cases "Verify S v req st")
  show ?thesis
  proof (cases q)
    case (Inl err)
    with assms V rejected [of S v req st err s1 e1] that show ?thesis
      by (simp add: Settle_def NewSettler_def)
  next
    case (Inr payer)
    with V obtain client where c: "map_of (vf_chains v) (pp_Network (vr_PaymentPayload req)) = Some client"
      using Verify_known_client by blast
    obtain rc s2 where R: "reserve_nonce v (request_auth req) s1 = (rc, s2)" by fastforce
    obtain h err e2 where B: "cl_BroadcastAuthzSend client (a_From (request_auth req)) (a_To (request_auth req))
      (a_Denom (request_auth req)) (a_Amount (request_auth req)) e1 = ((h, err), e2)" by (metis prod.exhaust)
    note run = assms V Inr R B c
    show ?thesis
    proof (cases rc)
      case (Some code)
      with run duplicate [of S v req st payer s1 e1 code s2] that show ?thesis
        by (simp add: Settle_def NewSettler_def Let_def)
    next
      case None
      with run failed [of S v req st payer s1 e1 s2 client h _ e2] paid [of S v req st payer s1 e1 s2 client h e2] that
      show ?thesis
        by (cases err) (simp_all add: Settle_def NewSettler_def Let_def broadcast_response_def)
    qed
  qed
qed


section \<open>What a settlement does\<close>

context facilitator
begin

text \<open>The store's key of a request's nonce.\<close>

abbreviation request_key :: "VerifyRequest \<Rightarrow> 'k" where
  "request_key req \<equiv> key (a_From (request_auth req)) (a_ChainID (request_auth req)) (a_Nonce (request_auth req))"

lemma reserve_code:
  assumes "reserve_nonce v a s = (Some code, s1)" and "invar s"
  shows "status s1 (key (a_From a) (a_ChainID a) (a_Nonce a)) = status s (key (a_From a) (a_ChainID a) (a_Nonce a))"
    and "code = (if fst (ns_Reserve ops (a_From a) (a_ChainID a) (a_Nonce a) (time_Unix (a_ValidBefore a)) s)
      = Some ErrNonceUsed then ErrNonceAlreadyUsed else ErrUnexpected)"
    and "invar s1"
  using assms reserve_error [OF assms(2), of "a_From a" "a_ChainID a" "a_Nonce a" "time_Unix (a_ValidBefore a)"]
    invar_reserve [OF assms(2), of "a_From a" "a_ChainID a" "a_Nonce a" "time_Unix (a_ValidBefore a)"]
  by (auto simp: reserve_nonce_def nonces Let_def split: prod.splits option.splits)

lemma reserve_None:
  assumes "reserve_nonce v a s = (None, s1)" and "invar s"
  shows "status s (key (a_From a) (a_ChainID a) (a_Nonce a)) = Unseen"
    and "status s1 (key (a_From a) (a_ChainID a) (a_Nonce a)) = Reserved (time_Unix (a_ValidBefore a))"
    and "invar s1"
  using assms reserve_fresh [OF assms(2), of "a_From a" "a_ChainID a" "a_Nonce a" "time_Unix (a_ValidBefore a)" s1]
    invar_reserve [OF assms(2), of "a_From a" "a_ChainID a" "a_Nonce a" "time_Unix (a_ValidBefore a)"]
  by (auto simp: reserve_nonce_def nonces Let_def split: prod.splits option.splits)

lemma reserve_as_op:
  "snd (reserve_nonce v a s) =
    run_op ops (DoReserve (a_From a) (a_ChainID a) (a_Nonce a) (time_Unix (a_ValidBefore a))) s"
  by (simp add: reserve_nonce_def nonces Let_def split: prod.splits option.splits)

lemma finish_as_op:
  "finish_nonce v a r s =
    (case r of
       (_, Some err) \<Rightarrow> run_op ops (DoRelease (a_From a) (a_ChainID a) (a_Nonce a)) s
     | (h, None) \<Rightarrow> run_op ops (DoCommit (a_From a) (a_ChainID a) (a_Nonce a) h) s)"
  by (simp add: finish_nonce_def nonces split: prod.splits option.splits)

lemma reserve_step: "reserve_nonce v a s = (r, s1) \<Longrightarrow> \<exists>opn. s1 = run_op ops opn s"
  using reserve_as_op [of a s] by (metis snd_conv)

lemma finish_step: "\<exists>opn. finish_nonce v a r s = run_op ops opn s"
proof (cases r)
  case (Pair h res)
  show ?thesis using finish_as_op [of a r s] unfolding Pair
    by (cases res) (auto simp del: run_op.simps)
qed

lemma finish_invar: "invar s \<Longrightarrow> invar (finish_nonce v a r s)"
  by (auto simp: finish_as_op invars split: prod.splits option.splits)

text \<open>Payments: a settlement hands over the payment it reports, and nothing unless it broadcasts.\<close>

lemma settles_sent:
  assumes "settles S v req oc (s, e) r (s', e')" and "invar s"
  shows "oc \<in> {Rejected, Duplicate} \<Longrightarrow> sent e' = sent e"
    and "oc = Failed \<Longrightarrow> sent e' = sent e \<or> sent e' = sent e @ [payment_of req]"
    and "oc = Settled \<Longrightarrow> sent e' = sent e @ [payment_of req]"
proof -
  have "(oc \<in> {Rejected, Duplicate} \<longrightarrow> sent e' = sent e)
    \<and> (oc = Failed \<longrightarrow> sent e' = sent e \<or> sent e' = sent e @ [payment_of req])
    \<and> (oc = Settled \<longrightarrow> sent e' = sent e @ [payment_of req])"
    using assms
  proof (cases rule: settles.cases)
    case (rejected err)
    with assms Verify_keeps(3) [of req s e] show ?thesis by auto
  next
    case (duplicate payer s1 code)
    with assms Verify_keeps(3) [of req s e] show ?thesis by auto
  next
    case (failed payer s1 e1 s2 client h err)
    then have "chain_client client sent" by (simp add: known_client)
    from chain_client.broadcast_sends_one [OF this, of "a_From (request_auth req)" "a_To (request_auth req)"
        "a_Denom (request_auth req)" "a_Amount (request_auth req)" e1]
    show ?thesis using failed assms Verify_keeps(3) [of req s e] by (auto simp: payment_of_def Let_def)
  next
    case (paid payer s1 e1 s2 client h)
    then have "chain_client client sent" by (simp add: known_client)
    from chain_client.success_sends [OF this, of "a_From (request_auth req)" "a_To (request_auth req)"
        "a_Denom (request_auth req)" "a_Amount (request_auth req)" e1]
    show ?thesis using paid assms Verify_keeps(3) [of req s e] by (auto simp: payment_of_def Let_def)
  qed
  then show "oc \<in> {Rejected, Duplicate} \<Longrightarrow> sent e' = sent e"
    and "oc = Failed \<Longrightarrow> sent e' = sent e \<or> sent e' = sent e @ [payment_of req]"
    and "oc = Settled \<Longrightarrow> sent e' = sent e @ [payment_of req]" by blast+
qed

text \<open>The store: the invariant is kept, and a consumed nonce stays consumed.\<close>

lemma settles_store:
  assumes "settles S v req oc (s, e) r (s', e')" and "invar s"
  shows "invar s'" and "is_Consumed (status s k) \<Longrightarrow> is_Consumed (status s' k)"
proof -
  obtain s1 where s1: "invar s1" "status s1 k = status s k"
    and s': "s' = s1 \<or> (\<exists>opn. s' = run_op ops opn s1) \<or> (\<exists>opn opn'. s' = run_op ops opn' (run_op ops opn s1))"
    using assms
  proof (cases rule: settles.cases)
    case (rejected err)
    with assms Verify_keeps [of req s e] that show ?thesis by auto
  next
    case (duplicate payer s1 code)
    with Verify_keeps [OF _ assms(2)] have "invar s1" "status s1 k = status s k" by blast+
    with that [of s1] reserve_step [OF duplicate(4)] show ?thesis by blast
  next
    case (failed payer s1 e1 s2 client h err)
    with Verify_keeps [OF _ assms(2)] have "invar s1" "status s1 k = status s k" by blast+
    with that [of s1] reserve_step [OF failed(5)] finish_step [of "request_auth req" "(h, Some err)" s2] failed(3)
    show ?thesis by metis
  next
    case (paid payer s1 e1 s2 client h)
    with Verify_keeps [OF _ assms(2)] have "invar s1" "status s1 k = status s k" by blast+
    with that [of s1] reserve_step [OF paid(5)] finish_step [of "request_auth req" "(h, None)" s2] paid(3)
    show ?thesis by metis
  qed
  from s1 s' show "invar s'" by (auto intro: invar_op)
  from s1 s' show "is_Consumed (status s k) \<Longrightarrow> is_Consumed (status s' k)"
    by (auto intro!: consumed_stable invar_op)
qed

text \<open>A payment needs a nonce nobody has seen.\<close>

lemma paid_unseen:
  assumes "settles S v req Settled (s, e) r (s', e')" and "invar s"
  shows "status s (request_key req) = Unseen"
  using assms(1)
  by (cases rule: settles.cases) (auto intro: Verify_unseen [OF assms(2)])

end

section \<open>Histories\<close>

text \<open>
  What a running facilitator does with its nonce store, one event after the other: requests to
  \<open>/verify\<close>, requests to \<open>/settle\<close>, and collections of the store.
\<close>

datatype event = EvVerify VerifyRequest | EvSettle SettleRequest | EvGC gotime

fun serve ::
  "cosmos_sdk \<Rightarrow> ('s, 'e) Verifier \<Rightarrow> (gotime \<Rightarrow> 's \<Rightarrow> nat \<times> 's) \<Rightarrow> event \<Rightarrow> 's \<times> 'e \<Rightarrow>
    SettleResponse option \<times> 's \<times> 'e" where
  "serve S v gc (EvVerify req) st = (None, snd (Verify S v req st))"
| "serve S v gc (EvSettle req) st = (let (r, st1) = Settle S (NewSettler v) req st in (Some r, st1))"
| "serve S v gc (EvGC now) (s, e) = (None, snd (gc now s), e)"

fun serve_all ::
  "cosmos_sdk \<Rightarrow> ('s, 'e) Verifier \<Rightarrow> (gotime \<Rightarrow> 's \<Rightarrow> nat \<times> 's) \<Rightarrow> event list \<Rightarrow> 's \<times> 'e \<Rightarrow>
    (event \<times> SettleResponse option) list \<times> 's \<times> 'e" where
  "serve_all S v gc [] st = ([], st)"
| "serve_all S v gc (ev # evs) st =
     (let (r, st1) = serve S v gc ev st; (rs, st2) = serve_all S v gc evs st1 in ((ev, r) # rs, st2))"

text \<open>The successful settlements of a history, and those of them for one nonce.\<close>

fun paid_request :: "event \<times> SettleResponse option \<Rightarrow> VerifyRequest option" where
  "paid_request (EvSettle req, Some r) = (if s_Success r then Some req else None)"
| "paid_request _ = None"

lemma paid_request_Some: "paid_request x = Some req \<longleftrightarrow> (\<exists>q. x = (EvSettle req, Some q) \<and> s_Success q)"
  by (cases x rule: paid_request.cases) auto

definition paid_requests :: "(event \<times> SettleResponse option) list \<Rightarrow> VerifyRequest list" where
  "paid_requests log = map the (filter (\<lambda>x. x \<noteq> None) (map paid_request log))"

lemma paid_requests_simps [simp]:
  "paid_requests [] = []"
  "paid_requests (x # log) = (case paid_request x of None \<Rightarrow> paid_requests log | Some req \<Rightarrow> req # paid_requests log)"
  by (simp_all add: paid_requests_def split: option.splits)

locale local_facilitator = facilitator ops status invar key S v sent + collected_store ops status invar key gc
  for ops :: "'s NonceStore" and status :: "'s \<Rightarrow> 'k \<Rightarrow> nonce_status" and invar
    and key :: "string \<Rightarrow> string \<Rightarrow> string \<Rightarrow> 'k" and gc
    and S :: cosmos_sdk and v :: "('s, 'e) Verifier" and sent :: "'e \<Rightarrow> payment list"
begin

text \<open>With a store that does not fail, the nonce of a payment ends up consumed, one of a failed broadcast free.\<close>

lemma paid_consumed:
  assumes "settles S v req Settled (s, e) r (s', e')" and "invar s"
  shows "status s' (request_key req) = Consumed (s_Transaction r)"
  using assms(1)
proof (cases rule: settles.cases)
  case (paid payer s1 e1 s2 client h)
  have "invar s1" using Verify_keeps(1) [OF _ assms(2)] paid by blast
  note r = reserve_None [OF paid(4) this]
  then show ?thesis
    using commit_status [OF r(3), of "a_From (request_auth req)" "a_ChainID (request_auth req)"
      "a_Nonce (request_auth req)" h]
    by (simp add: finish_nonce_def nonces paid(1,2))
qed

lemma failed_unseen:
  assumes "settles S v req Failed (s, e) r (s', e')" and "invar s"
  shows "status s' (request_key req) = Unseen"
  using assms(1)
proof (cases rule: settles.cases)
  case (failed payer s1 e1 s2 client h err)
  have "invar s1" using Verify_keeps(1) [OF _ assms(2)] failed by blast
  note r = reserve_None [OF failed(4) this]
  then show ?thesis
    using release_status [OF r(3), of "a_From (request_auth req)" "a_ChainID (request_auth req)"
      "a_Nonce (request_auth req)"]
    by (simp add: finish_nonce_def nonces failed(2))
qed

text \<open>A nonce in the store, whatever its state, does not even verify.\<close>

lemma consumed_rejected:
  assumes "settles S v req oc (s, e) r (s', e')" and "invar s" and "is_Consumed (status s (request_key req))"
  shows "oc = Rejected"
  using assms(1)
proof (cases rule: settles.cases)
  case (duplicate payer s1 code)
  with Verify_unseen [OF assms(2)] assms(3) show ?thesis by fastforce
next
  case (failed payer s1 e1 s2 client h err)
  with Verify_unseen [OF assms(2)] assms(3) show ?thesis by fastforce
next
  case (paid payer s1 e1 s2 client h)
  with Verify_unseen [OF assms(2)] assms(3) show ?thesis by fastforce
qed

lemma settle_success_paid:
  assumes "Settle S (NewSettler v) req (s, e) = (r, s', e')" and "s_Success r"
  shows "settles S v req Settled (s, e) r (s', e')"
proof -
  obtain oc where "settles S v req oc (s, e) r (s', e')" using assms(1) by (rule Settle_outcome)
  from this assms(2) show ?thesis by (cases rule: settles.cases) (auto intro: settles.paid)
qed

end

end
