(* ===== verification/Ledger.thy ===== *)
theory Ledger
  imports Settle "HOL-Library.Sublist"
begin

text \<open>
  The books of a facilitator: whatever it is asked, each of its acts is one of three deeds. A quiet one sends no
  payment; a settlement that broadcasts in vain may have sent its own; a settlement that succeeds has sent its own, for a
  nonce that was free and is consumed from then on. \<open>course\<close> is a sequence of deeds. What holds for every course (no nonce is paid
  twice, no payment that nobody asked for) is proved once, and used for histories of calls here and for
  the traffic of the whole program in \<open>Traffic\<close>.
\<close>

datatype deed = Quiet | Tried VerifyRequest | PaidFor VerifyRequest

fun paid_deed :: "deed \<Rightarrow> VerifyRequest list" where
  "paid_deed (PaidFor req) = [req]"
| "paid_deed _ = []"

fun sending_deed :: "deed \<Rightarrow> VerifyRequest list" where
  "sending_deed Quiet = []"
| "sending_deed (Tried req) = [req]"
| "sending_deed (PaidFor req) = [req]"

lemma subseq_set: "subseq xs ys \<Longrightarrow> x \<in> set xs \<Longrightarrow> x \<in> set ys"
  by (induction rule: list_emb.induct) auto

lemma distinct_subseq: "subseq xs ys \<Longrightarrow> distinct ys \<Longrightarrow> distinct xs"
  by (induction rule: list_emb.induct) (auto dest: subseq_set)

text \<open>The deed of a settlement, told from its answer.\<close>

definition settle_deed :: "VerifyRequest \<Rightarrow> SettleResponse \<Rightarrow> deed" where
  "settle_deed req r =
     (if s_Success r then PaidFor req else if s_ErrorReason r = ErrBroadcastFailed then Tried req else Quiet)"

fun log_deed :: "event \<times> SettleResponse option \<Rightarrow> deed" where
  "log_deed (EvSettle req, Some r) = settle_deed req r"
| "log_deed _ = Quiet"

definition broadcast_requests :: "(event \<times> SettleResponse option) list \<Rightarrow> VerifyRequest list" where
  "broadcast_requests log = concat (map (sending_deed \<circ> log_deed) log)"

lemma paid_deed_log: "concat (map paid_deed (map log_deed log)) = paid_requests log"
proof (induction log)
  case (Cons x log)
  have "paid_deed (log_deed x) = (case paid_request x of None \<Rightarrow> [] | Some req \<Rightarrow> [req])"
    by (cases x rule: log_deed.cases) (auto simp: settle_deed_def)
  with Cons.IH show ?case by (simp split: option.splits)
qed simp

context local_facilitator
begin

definition does :: "deed \<Rightarrow> 's \<times> 'e \<Rightarrow> 's \<times> 'e \<Rightarrow> bool" where
  "does d = (\<lambda>(s, e) (s', e').
     invar s' \<and> (\<forall>k. is_Consumed (status s k) \<longrightarrow> is_Consumed (status s' k))
     \<and> (case d of
          Quiet \<Rightarrow> sent e' = sent e
        | Tried req \<Rightarrow> status s (request_key req) = Unseen \<and> sent e' \<in> {sent e, sent e @ [payment_of req]}
        | PaidFor req \<Rightarrow> status s (request_key req) = Unseen \<and> is_Consumed (status s' (request_key req))
            \<and> sent e' = sent e @ [payment_of req]))"

lemma does_keeps:
  assumes "does d (s, e) (s', e')"
  shows "invar s'" and "is_Consumed (status s k) \<Longrightarrow> is_Consumed (status s' k)"
  using assms by (auto simp: does_def)

lemma does_sends_unseen: "does d (s, e) st' \<Longrightarrow> req \<in> set (sending_deed d) \<Longrightarrow> status s (request_key req) = Unseen"
  by (cases d) (auto simp: does_def)

lemma does_pays: "does d (s, e) (s', e') \<Longrightarrow> req \<in> set (paid_deed d) \<Longrightarrow> is_Consumed (status s' (request_key req))"
  by (cases d) (auto simp: does_def)

lemma does_sent:
  assumes "does d (s, e) (s', e')"
  shows "\<exists>new. sent e' = sent e @ new \<and> subseq (map payment_of (paid_deed d)) new
    \<and> subseq new (map payment_of (sending_deed d))"
  using assms by (cases d) (auto simp: does_def)

text \<open>The acts of the facilitator.\<close>

lemma failed_was_unseen:
  assumes "settles S v req Failed (s, e) r (s', e')" and "invar s"
  shows "status s (request_key req) = Unseen"
  using assms(1) by (cases rule: settles.cases) (auto intro: Verify_unseen [OF assms(2)])

lemma Settle_does:
  assumes "Settle S (NewSettler v) req (s, e) = (r, s', e')" and "invar s"
  shows "does (settle_deed req r) (s, e) (s', e')"
proof -
  obtain oc where oc: "settles S v req oc (s, e) r (s', e')" using assms(1) by (rule Settle_outcome)
  note sent = settles_sent [OF oc assms(2)] and answer = outcome_answer [OF oc]
    and store = settles_store [OF oc assms(2)]
  show ?thesis
  proof (cases oc)
    case Settled
    with oc paid_unseen [OF _ assms(2)] paid_consumed [OF _ assms(2)] sent store answer show ?thesis
      by (auto simp: does_def settle_deed_def)
  next
    case Failed
    with oc failed_was_unseen [OF _ assms(2)] sent store answer show ?thesis
      by (auto simp: does_def settle_deed_def)
  qed (use sent store answer in \<open>auto simp: does_def settle_deed_def\<close>)
qed

lemma Verify_does: "Verify S v req (s, e) = (r, s', e') \<Longrightarrow> invar s \<Longrightarrow> does Quiet (s, e) (s', e')"
  using Verify_keeps [of req s e r s' e'] by (auto simp: does_def)

lemma gc_does: "sent e' = sent e \<Longrightarrow> invar s \<Longrightarrow> does Quiet (s, e) (snd (gc now s), e')"
  using gc_invar [of s now] gc_status [of s now] by (auto simp: does_def split: nonce_status.splits)

lemma idle_does: "sent e' = sent e \<Longrightarrow> invar s \<Longrightarrow> does Quiet (s, e) (s, e')"
  by (simp add: does_def)

section \<open>Courses\<close>

inductive course :: "deed list \<Rightarrow> 's \<times> 'e \<Rightarrow> 's \<times> 'e \<Rightarrow> bool" where
  halt: "course [] st st"
| go: "does d st st1 \<Longrightarrow> course ds st1 st2 \<Longrightarrow> course (d # ds) st st2"

inductive_simps course_Nil [simp]: "course [] st st'"
inductive_simps course_Cons: "course (d # ds) st st'"

lemma course_keeps:
  "course ds st st' \<Longrightarrow> invar (fst st) \<Longrightarrow>
    invar (fst st') \<and> (is_Consumed (status (fst st) k) \<longrightarrow> is_Consumed (status (fst st') k))"
proof (induction rule: course.induct)
  case (go d st st1 ds st2)
  obtain s e s1 e1 where st: "st = (s, e)" "st1 = (s1, e1)" by (metis surj_pair)
  with go.IH does_keeps [of d s e s1 e1] go.hyps(1) show ?case by auto
qed simp

text \<open>A nonce that is consumed is neither paid nor sent again.\<close>

lemma course_spent:
  "course ds st st' \<Longrightarrow> is_Consumed (status (fst st) k) \<Longrightarrow> k \<notin> request_key ` set (concat (map sending_deed ds))"
proof (induction rule: course.induct)
  case (go d st st1 ds st2)
  obtain s e s1 e1 where st: "st = (s, e)" "st1 = (s1, e1)" by (metis surj_pair)
  have "k \<noteq> request_key req" if "req \<in> set (sending_deed d)" for req
    using does_sends_unseen [OF go.hyps(1) [unfolded st] that] go.prems by (auto simp: st)
  with go.IH does_keeps(2) [OF go.hyps(1) [unfolded st]] go.prems show ?case by (auto simp: st)
qed simp

lemma course_pays_once: "course ds st st' \<Longrightarrow> distinct (map request_key (concat (map paid_deed ds)))"
proof (induction rule: course.induct)
  case (go d st st1 ds st2)
  obtain s e s1 e1 where st: "st = (s, e)" "st1 = (s1, e1)" by (metis surj_pair)
  have sub: "set (concat (map paid_deed ds)) \<subseteq> set (concat (map sending_deed ds))"
  proof -
    have "set (paid_deed d) \<subseteq> set (sending_deed d)" for d by (cases d) simp_all
    then show ?thesis by fastforce
  qed
  have "request_key req \<notin> request_key ` set (concat (map paid_deed ds))" if "req \<in> set (paid_deed d)" for req
  proof -
    have "request_key req \<notin> request_key ` set (concat (map sending_deed ds))"
      using course_spent [OF go.hyps(2)] does_pays [OF go.hyps(1) [unfolded st] that] by (simp add: st)
    with sub show ?thesis by blast
  qed
  with go.IH show ?case by (cases d) auto
qed simp

text \<open>Every payment that was sent belongs to a settlement, in their order, and every success has its payment.\<close>

lemma course_sent:
  "course ds st st' \<Longrightarrow> \<exists>new. sent (snd st') = sent (snd st) @ new
    \<and> subseq (map payment_of (concat (map paid_deed ds))) new \<and> subseq new (map payment_of (concat (map sending_deed ds)))"
proof (induction rule: course.induct)
  case (go d st st1 ds st2)
  from go.hyps(1) obtain a where "sent (snd st1) = sent (snd st) @ a"
    "subseq (map payment_of (paid_deed d)) a" "subseq a (map payment_of (sending_deed d))"
    using does_sent by (metis prod.collapse)
  moreover from go.IH obtain b where "sent (snd st2) = sent (snd st1) @ b"
    "subseq (map payment_of (concat (map paid_deed ds))) b" "subseq b (map payment_of (concat (map sending_deed ds)))"
    by blast
  ultimately show ?case by (intro exI [of _ "a @ b"]) (simp add: list_emb_append_mono)
qed simp

text \<open>A history is a course.\<close>

lemma serve_does:
  assumes "serve S v gc ev (s, e) = (r, s', e')" and "invar s"
  shows "does (log_deed (ev, r)) (s, e) (s', e')"
proof (cases ev)
  case (EvVerify req)
  with assms Verify_does [of req s e] show ?thesis by (cases "Verify S v req (s, e)") auto
next
  case (EvSettle req)
  with assms Settle_does [of req s e] show ?thesis by (cases "Settle S (NewSettler v) req (s, e)") auto
next
  case (EvGC now)
  with assms gc_does [of e e s now] show ?thesis by auto
qed

lemma serve_all_course:
  assumes "serve_all S v gc evs (s, e) = (log, s', e')" and "invar s"
  shows "course (map log_deed log) (s, e) (s', e')"
  using assms
proof (induction evs arbitrary: s e log)
  case Nil
  then show ?case by simp
next
  case (Cons ev evs)
  obtain r s1 e1 where ev: "serve S v gc ev (s, e) = (r, s1, e1)" by (metis prod.exhaust)
  obtain rs where rs: "serve_all S v gc evs (s1, e1) = (rs, s', e')" and log: "log = (ev, r) # rs"
    using Cons.prems(1) ev by (auto split: prod.splits)
  note d = serve_does [OF ev Cons.prems(2)]
  from Cons.IH [OF rs does_keeps(1) [OF d]] d show ?case by (auto simp: log intro: course.go)
qed

lemma serve_all_keeps:
  assumes "serve_all S v gc evs (s, e) = (log, s', e')" and "invar s"
  shows "invar s' \<and> (is_Consumed (status s k) \<longrightarrow> is_Consumed (status s' k))"
  using course_keeps [OF serve_all_course [OF assms]] assms(2) by simp

lemma serve_all_sent:
  assumes "serve_all S v gc evs (s, e) = (log, s', e')" and "invar s"
  shows "\<exists>new. sent e' = sent e @ new
    \<and> subseq (map payment_of (paid_requests log)) new \<and> subseq new (map payment_of (broadcast_requests log))"
  using course_sent [OF serve_all_course [OF assms]] paid_deed_log [of log] by (simp add: broadcast_requests_def)

lemma paid_once:
  assumes "serve_all S v gc evs (s, e) = (log, s', e')" and "invar s"
  shows "distinct (map request_key (paid_requests log))"
  using course_pays_once [OF serve_all_course [OF assms]] by (simp add: paid_deed_log del: map_map)

end

end
