(* ===== verification/FacilitatorCmd.thy ===== *)
theory FacilitatorCmd
  imports Ledger Noble Http
begin

text \<open>
  \<open>facilitator/cmd/main.go\<close>: the HTTP handlers of the facilitator, the routes, and how \<open>main\<close> puts the
  parts together. A handler takes the request and the state (nonce store, world) and returns the
  response and the new state. \<open>jerr\<close> stands for the text of the error that the JSON decoder reports
  for a body, which one of the responses quotes.

  The interpretation at the end discharges the contract \<open>local_facilitator\<close> for the verifier that
  \<open>main\<close> builds, so everything proved of settlements and histories holds for the program.
\<close>

definition writeJSON :: "nat \<Rightarrow> json \<Rightarrow> writer \<Rightarrow> writer" where
  "writeJSON status body w =
     write_body (json_print body @ newline)
       (write_header status (set_header ''Content-Type'' ''application/json'' w))"

definition verifyHandler ::
  "cosmos_sdk \<Rightarrow> (string \<Rightarrow> string) \<Rightarrow> ('s, 'e) Verifier \<Rightarrow> http_request \<Rightarrow> 's \<times> 'e \<Rightarrow> writer \<times> 's \<times> 'e" where
  "verifyHandler S jerr v r st =
     (let w = new_writer in
      if r_Method r \<noteq> ''POST'' then (http_Error ''POST only'' 405 w, st)
      else
     (case Decode VerifyRequest_fields VerifyRequest_zero (r_Body r) of
        None \<Rightarrow>
          (writeJSON 400 (VerifyResponse_json (VerifyResponse_zero
             \<lparr>v_IsValid := False, v_InvalidReason := ''bad request: '' @ jerr (r_Body r)\<rparr>)) w, st)
      | Some req \<Rightarrow>
     (case Verify S v req st of
        (Inl err, st1) \<Rightarrow>
          (writeJSON 200 (VerifyResponse_json (VerifyResponse_zero
             \<lparr>v_IsValid := False, v_InvalidReason := ErrorCode err\<rparr>)) w, st1)
      | (Inr payer, st1) \<Rightarrow>
          (writeJSON 200 (VerifyResponse_json (VerifyResponse_zero
             \<lparr>v_IsValid := True, v_Payer := payer\<rparr>)) w, st1))))"

definition settleHandler ::
  "cosmos_sdk \<Rightarrow> ('s, 'e) Settler \<Rightarrow> http_request \<Rightarrow> 's \<times> 'e \<Rightarrow> writer \<times> 's \<times> 'e" where
  "settleHandler S s r st =
     (let w = new_writer in
      if r_Method r \<noteq> ''POST'' then (http_Error ''POST only'' 405 w, st)
      else
     (case Decode VerifyRequest_fields VerifyRequest_zero (r_Body r) of
        None \<Rightarrow>
          (writeJSON 400 (SettleResponse_json (SettleResponse_zero
             \<lparr>s_Success := False, s_ErrorReason := ''bad_request''\<rparr>)) w, st)
      | Some req \<Rightarrow>
          let (resp, st1) = Settle S s req st in (writeJSON 200 (SettleResponse_json resp) w, st1)))"

text \<open>The order of a Go map is not fixed; the model lists the networks in the order of its map.\<close>

definition supported_json :: "string list \<Rightarrow> json" where
  "supported_json networks = JObj [(''kinds'',
     if networks = [] then JNull
     else JArr (map (\<lambda>network. JObj [(''scheme'', JStr Scheme), (''network'', JStr network)]) networks))]"

definition supportedHandler :: "(string \<times> 'e ChainClient) list \<Rightarrow> writer" where
  "supportedHandler clients = writeJSON 200 (supported_json (map fst clients)) new_writer"

definition healthz :: writer where
  "healthz = write_header 200 new_writer"

definition serve_http ::
  "cosmos_sdk \<Rightarrow> (string \<Rightarrow> string) \<Rightarrow> ('s, 'e) Verifier \<Rightarrow> http_request \<Rightarrow> 's \<times> 'e \<Rightarrow> writer \<times> 's \<times> 'e" where
  "serve_http S jerr v r st =
     (if r_Path r = ''/verify'' then verifyHandler S jerr v r st
      else if r_Path r = ''/settle'' then settleHandler S (NewSettler v) r st
      else if r_Path r = ''/supported'' then (supportedHandler (vf_chains v), st)
      else if r_Path r = ''/healthz'' then (healthz, st)
      else (http_Error ''404 page not found'' 404 new_writer, st))"

section \<open>main\<close>

definition main_verifier ::
  "cosmos_sdk \<Rightarrow> tx_sdk \<Rightarrow> 'x network \<Rightarrow> NobleClient \<Rightarrow> (MemoryNonceStore, 'x world) Verifier" where
  "main_verifier S T N c =
     NewVerifier (time_Now N) [(''cosmos:'' @ nc_chainID c, noble_client S T N c)] MemoryNonceStore_ops"

definition getenv :: "(string \<Rightarrow> string) \<Rightarrow> string \<Rightarrow> string \<Rightarrow> string" where
  "getenv Getenv k def = (let v = Getenv k in if v \<noteq> [] then v else def)"

text \<open>
  The program ends (\<open>Inl\<close>), or serves its routes with a verifier and a store. \<open>listen\<close> is the error of \<open>ListenAndServe\<close>
  on the address, if it cannot serve there.
\<close>

definition facilitator_main ::
  "cosmos_sdk \<Rightarrow> 'r codec_sdk \<Rightarrow> tx_sdk \<Rightarrow> 'x network \<Rightarrow> (string \<Rightarrow> string) \<Rightarrow> (string \<Rightarrow> goerr option) \<Rightarrow> 'x world \<Rightarrow>
    (exit + (MemoryNonceStore, 'x world) Verifier \<times> MemoryNonceStore) \<times> 'x world" where
  "facilitator_main S K T N Getenv listen w =
     (let addr = getenv Getenv ''X402_FACILITATOR_ADDR'' '':8402'' in
      case NewNobleClient S K N Getenv w of
        (Inl panic, w1) \<Rightarrow> (Inl panic, w1)
      | (Inr (Inl err), w1) \<Rightarrow> (Inl (Fatal (Errorf ''init noble client: %v'' [AErrV err])), w1)
      | (Inr (Inr c), w1) \<Rightarrow>
          let verifier = main_verifier S T N c; store = NewMemoryNonceStore in
          (case listen addr of
             Some err \<Rightarrow> (Inl (Fatal err), w1)
           | None \<Rightarrow> (Inr (verifier, store), w1)))"

text \<open>One tick of the collecting goroutine: the store at the clock's reading.\<close>

definition gc_tick :: "'x network \<Rightarrow> MemoryNonceStore \<times> 'x world \<Rightarrow> nat \<times> MemoryNonceStore \<times> 'x world" where
  "gc_tick N st =
     (let (now, w1) = time_Now N (snd st); (n, m1) = GC now (fst st) in (n, m1, w1))"

lemma main_verifier_simps [simp]:
  "vf_chains (main_verifier S T N c) = [(''cosmos:'' @ nc_chainID c, noble_client S T N c)]"
  "vf_nonces (main_verifier S T N c) = MemoryNonceStore_ops"
  "vf_clock (main_verifier S T N c) = time_Now N"
  by (simp_all add: main_verifier_def NewVerifier_def)

interpretation program: local_facilitator MemoryNonceStore_ops mem_status mem_invar nonceKey GC
  S "main_verifier S T N c" sent_payments for S T N c
proof (intro local_facilitator.intro facilitator.intro facilitator_axioms.intro)
  show "vf_nonces (main_verifier S T N c) = MemoryNonceStore_ops" by simp
next
  fix net client
  assume "(net, client) \<in> set (vf_chains (main_verifier S T N c))"
  then have "client = noble_client S T N c" by simp
  then show "chain_client client sent_payments"
    using noble.chain_client_axioms by simp
next
  fix e
  show "sent_payments (snd (vf_clock (main_verifier S T N c) e)) = sent_payments e" by simp
qed (rule mem.nonce_store_axioms mem.collected_store_axioms)+

end
