(* ===== verification/JsonUtf8.thy ===== *)
theory JsonUtf8
  imports Wire
begin

text \<open>
  What the decoder returns is well formed, whatever text it was given: every string of a decoded
  value is valid UTF-8 (\<open>encoding/json\<close> replaces what is not), so the structs the program decodes from
  untrusted input satisfy the conditions of the round trips in \<open>Wire\<close>.
\<close>

lemma byte_char_literals: "byte (CHR 0xEF) = 239" "byte (CHR 0xBF) = 191" "byte (CHR 0xBD) = 189"
  "byte (CHR 0x08) = 8" "byte (CHR 0x0C) = 12" "byte (CHR 0x0A) = 10" "byte (CHR 0x0D) = 13" "byte (CHR 0x09) = 9"
  by (simp_all add: byte_def)

lemma valid_replacement [simp]: "valid_utf8 replacement"
  by (simp add: replacement_def valid_utf8.simps utf8_len.simps second_ok_def cont_byte_def byte_char_literals)

lemma quotient_bounds: "(r::nat) div k = q \<Longrightarrow> 0 < k \<Longrightarrow> k * q \<le> r \<and> r < k * Suc q"
  using dividend_less_div_times [of k r] by (auto simp: mult.commute times_div_less_eq_dividend)

lemma mod_64_shift: "64 * m \<le> q \<Longrightarrow> q < 64 * m + k \<Longrightarrow> (q::nat) mod 64 < k"
proof -
  assume "64 * m \<le> q" and less: "q < 64 * m + k"
  then obtain x where q: "q = x + m * 64" by (metis le_Suc_ex add.commute mult.commute)
  have "q mod 64 \<le> x" unfolding q mod_mult_self1 by (rule mod_less_eq_dividend)
  with less q show ?thesis by simp
qed

lemma valid_utf8_encode:
  assumes "r < 1114112" and "\<not> (55296 \<le> r \<and> r < 57344)"
  shows "valid_utf8 (utf8_encode r)"
proof -
  have tail: "cont_byte (char_of (128 + x mod 64))" for x :: nat
    using mod_less_divisor [of 64 x] by (simp add: cont_byte_def)
  consider "r < 128" | "128 \<le> r" "r < 2048" | "2048 \<le> r" "r < 65536" | "65536 \<le> r" by linarith
  then show ?thesis
  proof cases
    case 1
    then show ?thesis by (simp add: utf8_encode_def)
  next
    case 2
    then have "2 \<le> r div 64" and "r div 64 < 32" by auto
    with 2 tail [of r] show ?thesis
      by (simp add: utf8_encode_def valid_utf8.simps utf8_len.simps)
  next
    case 3
    let ?a = "r div 4096" and ?b = "r div 64 mod 64"
    have a: "?a < 16" and b: "?b < 64" using 3 by auto
    have "second_ok (char_of (224 + ?a)) (char_of (128 + ?b))"
    proof -
      have "32 \<le> ?b" if "?a = 0"
      proof -
        have "r < 4096" using that by (simp add: div_eq_0_iff)
        then have "r div 64 < 64" and "32 \<le> r div 64" using 3 by auto
        then show ?thesis by simp
      qed
      moreover have "?b < 32" if "?a = 13"
      proof -
        have "53248 \<le> r" and "r < 57344" using quotient_bounds [OF that] by simp_all
        then have "832 \<le> r div 64" and "r div 64 < 864" using assms(2) by auto
        then show ?thesis by (intro mod_64_shift [of 13]) simp_all
      qed
      ultimately show ?thesis using a b by (auto simp: second_ok_def)
    qed
    with 3 a tail [of r] show ?thesis
      by (simp add: utf8_encode_def valid_utf8.simps utf8_len.simps)
  next
    case 4
    let ?a = "r div 262144" and ?b = "r div 4096 mod 64"
    have a: "?a < 5" and b: "?b < 64" using 4 assms(1) by auto
    have "second_ok (char_of (240 + ?a)) (char_of (128 + ?b))"
    proof -
      have "16 \<le> ?b" if "?a = 0"
      proof -
        have "r < 262144" using that by (simp add: div_eq_0_iff)
        then have "r div 4096 < 64" and "16 \<le> r div 4096" using 4 by auto
        then show ?thesis by simp
      qed
      moreover have "?b < 16" if "?a = 4"
      proof -
        have "1048576 \<le> r" using quotient_bounds [OF that] by simp
        then have "256 \<le> r div 4096" and "r div 4096 < 272" using assms(1) by auto
        then show ?thesis by (intro mod_64_shift [of 4]) simp_all
      qed
      ultimately show ?thesis using a b by (auto simp: second_ok_def)
    qed
    with 4 a tail [of r] tail [of "r div 64"] show ?thesis
      by (simp add: utf8_encode_def valid_utf8.simps utf8_len.simps)
  qed
qed

lemma hex_val_less: "hex_val c = Some n \<Longrightarrow> n < 16"
  by (auto simp: hex_val_def Let_def split: if_splits)

lemma hex4_less: "hex4 s = Some n \<Longrightarrow> n < 65536"
  by (induction s rule: hex4.induct) (auto split: option.splits dest!: hex_val_less)

lemma low_surrogate_range: "low_surrogate hi s = Some n \<Longrightarrow> 65536 \<le> n \<and> n < 1114112"
  by (auto simp: low_surrogate_def split: list.splits if_splits option.splits)

lemma simple_escape_ascii: "simple_escape e = Some d \<Longrightarrow> byte d < 128"
  by (auto simp: simple_escape_def byte_char_literals split: if_splits)

lemma valid_utf8_escape: "simple_escape e = Some d \<Longrightarrow> valid_utf8 t \<Longrightarrow> valid_utf8 (d # t)"
  by (simp add: simple_escape_ascii)

lemma valid_utf8_rune:
  assumes "0 < utf8_len (c # cs)" and "valid_utf8 t"
  shows "valid_utf8 (c # take (utf8_len (c # cs) - Suc 0) cs @ t)"
proof -
  have "valid_utf8 (c # take (utf8_len (c # cs) - 1) cs)"
    using utf8_len_append [OF assms(1), of "[]"] assms(1) by (simp add: valid_utf8.simps)
  from valid_utf8_append [OF this assms(2)] show ?thesis by simp
qed

lemma json_unquote_valid: "json_unquote s = Some (t, r) \<Longrightarrow> valid_utf8 t"
proof (induction s arbitrary: t r rule: json_unquote.induct)
  case 1
  then show ?case by simp
next
  case (2 c cs)
  show ?case
    using "2.prems" "2.IH" unfolding json_unquote.simps(2) [of c cs]
    by (auto simp: returns Let_def split: if_splits list.splits option.splits
      intro!: valid_utf8_append valid_utf8_encode valid_utf8_rune
      intro: valid_utf8_escape dest: hex4_less low_surrogate_range)
qed

section \<open>Decoded values\<close>

fun json_utf8 :: "json \<Rightarrow> bool"
  and members_utf8 :: "(string \<times> json) list \<Rightarrow> bool" where
  "json_utf8 (JStr s) = valid_utf8 s"
| "json_utf8 (JArr xs) = list_all json_utf8 xs"
| "json_utf8 (JObj m) = members_utf8 m"
| "json_utf8 _ = True"
| "members_utf8 [] = True"
| "members_utf8 ((k, v) # m) = (valid_utf8 k \<and> json_utf8 v \<and> members_utf8 m)"

lemma parse_utf8:
  "parse_value n d s = Some (j, r) \<Longrightarrow> json_utf8 j"
  "parse_elems n d s = Some (js, r) \<Longrightarrow> list_all json_utf8 js"
  "parse_members n d s = Some (m, r) \<Longrightarrow> members_utf8 m"
proof (induction n d s and n d s and n d s arbitrary: j r and js r and m r
    rule: parse_value_parse_elems_parse_members.induct)
  case (2 n d s)
  then show ?case
    by (auto split: list.splits if_splits option.splits dest: json_unquote_valid)
next
  case (4 n d s)
  then show ?case
    by (auto split: list.splits if_splits option.splits)
next
  case (6 n d s)
  then show ?case
    by (auto split: list.splits if_splits option.splits) (erule json_unquote_valid)+
qed simp_all

section \<open>Decoded structs\<close>

text \<open>A setter keeps a predicate when it does so for every value whose strings are valid.\<close>

definition keeps :: "('a \<Rightarrow> bool) \<Rightarrow> 'a setter \<Rightarrow> bool" where
  "keeps P f \<longleftrightarrow> (\<forall>j x y. json_utf8 j \<longrightarrow> P x \<longrightarrow> f j x = Some y \<longrightarrow> P y)"

lemma keepsI [intro?]: "(\<And>j x y. json_utf8 j \<Longrightarrow> P x \<Longrightarrow> f j x = Some y \<Longrightarrow> P y) \<Longrightarrow> keeps P f"
  by (simp add: keeps_def)

lemma keepsD: "keeps P f \<Longrightarrow> json_utf8 j \<Longrightarrow> P x \<Longrightarrow> f j x = Some y \<Longrightarrow> P y"
  by (auto simp: keeps_def)

lemma keeps_string [intro]: "(\<And>s x. valid_utf8 s \<Longrightarrow> P x \<Longrightarrow> P (upd s x)) \<Longrightarrow> keeps P (dec_string upd)"
  by (rule keepsI) (auto simp: dec_string_def split: json.splits)

lemma keeps_bool [intro]: "(\<And>b x. P x \<Longrightarrow> P (upd b x)) \<Longrightarrow> keeps P (dec_bool upd)"
  by (rule keepsI) (auto simp: dec_bool_def split: json.splits)

lemma keeps_uint64 [intro]: "(\<And>n x. P x \<Longrightarrow> P (upd n x)) \<Longrightarrow> keeps P (dec_uint64 upd)"
  by (rule keepsI) (auto simp: dec_uint64_def split: json.splits)

lemma keeps_uint8 [intro]: "(\<And>n x. P x \<Longrightarrow> P (upd n x)) \<Longrightarrow> keeps P (dec_uint8 upd)"
  by (rule keepsI) (auto simp: dec_uint8_def split: json.splits)

lemma parse_int_range: "parse_int 64 l = Some n \<Longrightarrow> int64_range n"
  by (auto simp: parse_int_def int64_range_def Let_def split: if_splits option.splits prod.splits)

lemma keeps_int [intro]: "(\<And>n x. int64_range n \<Longrightarrow> P x \<Longrightarrow> P (upd n x)) \<Longrightarrow> keeps P (dec_int upd)"
  by (rule keepsI) (auto simp: dec_int_def dest: parse_int_range split: json.splits)

lemma keeps_sub:
  assumes "keeps Q dec" and "\<And>x. P x \<Longrightarrow> Q (get x)" and "\<And>x y. P x \<Longrightarrow> Q y \<Longrightarrow> P (upd y x)"
  shows "keeps P (dec_sub get upd dec)"
  by (rule keepsI) (use assms in \<open>auto simp: dec_sub_def dest: keepsD\<close>)

lemma find_field_mem: "find_field tbl k = Some f \<Longrightarrow> f \<in> snd ` set tbl"
  by (force simp: find_field_def split: option.splits dest!: map_of_SomeD)

lemma keeps_struct:
  assumes "list_all (\<lambda>(n, f). keeps P f) tbl"
  shows "keeps P (dec_struct tbl)"
proof
  have all: "keeps P f" if "find_field tbl k = Some f" for k f
    using find_field_mem [OF that] assms by (auto simp: list_all_iff)
  have members: "members_utf8 m \<Longrightarrow> P x \<Longrightarrow> dec_members tbl m x = Some y \<Longrightarrow> P y" for m x y
  proof (induction m arbitrary: x)
    case (Cons kv m)
    obtain k v where kv: "kv = (k, v)" by (cases kv)
    show ?case
    proof (cases "find_field tbl k")
      case None
      with Cons kv show ?thesis by auto
    next
      case (Some f)
      with Cons.prems kv obtain z where z: "f v x = Some z" "dec_members tbl m z = Some y"
        by (auto split: option.splits)
      have "P z" using keepsD [OF all [OF Some] _ _ z(1)] Cons.prems kv by simp
      with Cons.IH [OF _ _ z(2)] Cons.prems kv show ?thesis by simp
    qed
  qed simp
  fix j x y
  assume "json_utf8 j" and "P x" and "dec_struct tbl j x = Some y"
  then show "P y" using members by (auto simp: dec_struct_def split: json.splits)
qed

lemma keeps_Unmarshal:
  assumes "keeps P (dec_struct tbl)" and "P zero" and "Unmarshal tbl zero s = Some x"
  shows "P x"
proof -
  obtain j where j: "json_Unmarshal s = Some j" and x: "dec_struct tbl j zero = Some x"
    using assms(3) by (auto simp: Unmarshal_def split: bind_splits)
  have "json_utf8 j"
    using j parse_utf8(1) by (auto simp: json_Unmarshal_def simp del: parse_value.simps split: option.splits prod.splits if_splits)
  from keepsD [OF assms(1) this assms(2) x] show ?thesis .
qed

lemma keeps_Authorization: "keeps valid_Authorization (dec_struct Authorization_fields)"
  by (rule keeps_struct) (auto simp: Authorization_fields_def valid_Authorization_def)

lemma keeps_CosmosPayload: "keeps valid_CosmosPayload (dec_struct CosmosPayload_fields)"
  by (rule keeps_struct) (auto simp: CosmosPayload_fields_def valid_CosmosPayload_def intro: keeps_sub [OF keeps_Authorization])

lemma keeps_Payload: "keeps valid_Payload (dec_struct PaymentPayload_fields)"
  by (rule keeps_struct) (auto simp: PaymentPayload_fields_def valid_Payload_def intro: keeps_sub [OF keeps_CosmosPayload])

lemma keeps_SettleResponse: "keeps valid_SettleResponse (dec_struct SettleResponse_fields)"
  by (rule keeps_struct) (auto simp: SettleResponse_fields_def valid_SettleResponse_def)

lemma zero_valid: "valid_Payload PaymentPayload_zero" "valid_SettleResponse SettleResponse_zero"
  by (simp_all add: zero_defs valid_Payload_def valid_CosmosPayload_def valid_Authorization_def
      valid_SettleResponse_def int64_range_def)

text \<open>What a header decodes to can be sent on: its strings are valid, whoever wrote the header.\<close>

lemma Unmarshal_valid_Payload: "Unmarshal PaymentPayload_fields PaymentPayload_zero s = Some pp \<Longrightarrow> valid_Payload pp"
  by (rule keeps_Unmarshal [OF keeps_Payload zero_valid(1)])

end
