(* ===== verification/EndToEnd.thy ===== *)
theory EndToEnd
  imports FacilitatorCmd Middleware JsonUtf8
begin

text \<open>
  The middleware in front of the facilitator: its HTTP client reaches the handlers of
  \<open>FacilitatorCmd\<close>, and the state behind the middleware is the facilitator's nonce store with the chain's world.
  The connection between the two is a parameter \<open>link\<close> of the outside: a request or its reply may be lost
  (a timeout of the client, a broken connection).

  The lemmas show that the request that passes through JSON and HTTP is the one the middleware made,
  whatever bytes the client put into its header, so that asking over HTTP is the same as calling \<open>Settle\<close>.
\<close>

datatype delivery = Delivered | RequestLost goerr | ReplyLost goerr

definition incoming :: "string \<Rightarrow> out_request \<Rightarrow> http_request" where
  "incoming base req =
     \<lparr>r_Method = o_Method req, r_Host = base, r_Path = drop (length base) (o_URL req), r_TLS = False,
      r_Header = o_Header req, r_Body = o_Body req\<rparr>"

definition facilitator_env ::
  "cosmos_sdk \<Rightarrow> tx_sdk \<Rightarrow> 'x network \<Rightarrow> NobleClient \<Rightarrow> (string \<Rightarrow> string) \<Rightarrow> string \<Rightarrow> ('x \<Rightarrow> delivery) \<Rightarrow>
    (MemoryNonceStore \<times> 'x world) http_env" where
  "facilitator_env S T N c jerr base link =
     \<lparr>Do = (\<lambda>client req y.
        case link (w_ext (snd y)) of
          RequestLost err \<Rightarrow> (Inl err, y)
        | d \<Rightarrow>
            if has_prefix (o_URL req) base then
              let (wr, y1) = serve_http S jerr (main_verifier S T N c) (incoming base req) y;
                  rsp = response wr in
              (case d of ReplyLost err \<Rightarrow> (Inl err, y1) | _ \<Rightarrow> (Inr (hr_Status rsp, hr_Body rsp), y1))
            else (Inl (Foreign ''no such host''), y)),
      new_request_error = (\<lambda>_. None), json_error = jerr\<rparr>"

section \<open>What the facilitator answers can be decoded\<close>

lemma ascii_hex: "list_all (\<lambda>c. byte c < 128) (hex_EncodeToString b)"
  by (induction b) (auto simp: hex_EncodeToString_def hex_digit_def)

lemma ascii_upper: "list_all (\<lambda>c. byte c < 128) s \<Longrightarrow> list_all (\<lambda>c. byte c < 128) (to_upper s)"
  by (induction s) (auto simp: to_upper_def upper_char_def)

lemma valid_hash: "valid_utf8 (to_upper (hex_EncodeToString b))"
  by (intro valid_utf8_ascii ascii_upper ascii_hex)

lemma valid_codes:
  "code \<in> {ErrInvalidAuthorization, ErrExpiredAuthorization, ErrUnexpected, ErrNonceAlreadyUsed, ErrInvalidSignature,
    ErrInsufficientGrant, ErrInsufficientFunds, ErrBroadcastFailed} \<Longrightarrow> valid_utf8 code"
  by (auto simp: error_codes)

lemma settle_answers_valid:
  "valid_utf8 code \<Longrightarrow> valid_utf8 n \<Longrightarrow> valid_utf8 p \<Longrightarrow> valid_SettleResponse (settle_failed code n p)"
  "valid_utf8 h \<Longrightarrow> valid_utf8 n \<Longrightarrow> valid_utf8 p \<Longrightarrow> valid_SettleResponse (settle_paid h n p)"
  by (simp_all add: valid_SettleResponse_def)

lemma Settle_valid_response:
  assumes "Settle S (NewSettler (main_verifier S T N c)) req (m, w) = (r, st')" and "valid_Payload (vr_PaymentPayload req)"
  shows "valid_SettleResponse r"
proof -
  let ?v = "main_verifier S T N c"
  have valid: "valid_utf8 (pp_Network (vr_PaymentPayload req))" "valid_utf8 (a_From (request_auth req))"
    using assms(2) by (auto simp: valid_Payload_def valid_CosmosPayload_def valid_Authorization_def)
  obtain q m1 w1 where V: "Verify S ?v req (m, w) = (q, m1, w1)" by (metis prod.exhaust)
  show ?thesis
  proof (cases q)
    case (Inl err)
    with Verify_error_code [of S ?v req "(m, w)" err] V have "valid_utf8 (ErrorCode err)"
      by (intro valid_codes) auto
    with Inl assms(1) V valid show ?thesis by (auto simp: Settle_def NewSettler_def settle_answers_valid)
  next
    case (Inr payer)
    with Verify_payer V have payer: "valid_utf8 payer" using valid by metis
    obtain k m2 where k: "reserve_nonce ?v (request_auth req) m1 = (k, m2)" by fastforce
    show ?thesis
    proof (cases k)
      case (Some code)
      then have "valid_utf8 code"
        using k by (auto simp: reserve_nonce_def Let_def error_codes split: prod.splits option.splits if_splits)
      with Some assms(1) V Inr k payer valid show ?thesis
        by (auto simp: Settle_def NewSettler_def settle_answers_valid)
    next
      case None
      have net: "pp_Network (vr_PaymentPayload req) = ''cosmos:'' @ nc_chainID c"
        using V Inr by (auto simp: Verify_Inr check_request_Inr requirements_met_def Let_def split: if_splits)
      let ?a = "request_auth req"
      obtain h err w2 where b: "BroadcastAuthzSend S T N c (a_From ?a) (a_To ?a) (a_Denom ?a) (a_Amount ?a) w1 = ((h, err), w2)"
        by (metis prod.exhaust)
      have "valid_utf8 h" if "err = None"
        using BroadcastAuthzSend_calls [OF b] that valid_hash by auto
      moreover have "valid_utf8 ErrBroadcastFailed" by (intro valid_codes) simp
      ultimately show ?thesis
        using assms(1) V Inr k None payer valid b net
        by (auto simp: Settle_def NewSettler_def broadcast_response_def settle_answers_valid Let_def split: option.splits)
    qed
  qed
qed

section \<open>Asking over HTTP\<close>

definition settle_request :: "PaymentPayload \<Rightarrow> PaymentRequirements \<Rightarrow> VerifyRequest" where
  "settle_request payload requirements =
     \<lparr>vr_X402Version = 2, vr_PaymentPayload = payload, vr_PaymentRequirements = requirements\<rparr>"

lemma settle_request_sel [simp]:
  "vr_PaymentPayload (settle_request p q) = p" "vr_PaymentRequirements (settle_request p q) = q"
  by (simp_all add: settle_request_def)

lemma settle_request_valid: "valid_Payload p \<Longrightarrow> valid_Requirements q \<Longrightarrow> valid_Request (settle_request p q)"
  by (simp add: settle_request_def valid_Request_def int64_range_def)

lemma settleHandler_answer:
  assumes "r_Method r = ''POST''" and "r_Body r = json_print (VerifyRequest_json req)" and "valid_Request req"
    and "Settle S s req st = (resp, st1)"
  shows "settleHandler S s r st = (writeJSON 200 (SettleResponse_json resp) new_writer, st1)"
  using request.Decode_Marshal [OF assms(3), of "[]"] assms by (simp add: settleHandler_def num_stop_def)

lemma writeJSON_response:
  "hr_Status (response (writeJSON status j new_writer)) = status"
  "hr_Body (response (writeJSON status j new_writer)) = json_print j @ newline"
  by (simp_all add: writeJSON_def response_def)

lemma num_stop_newline [simp]: "num_stop newline"
  by (simp add: newline_def num_stop_def is_digit_def byte_def)

text \<open>The call of the middleware is \<open>Settle\<close> on the request it made, unless the connection loses something.\<close>

lemma callSettle_is_Settle:
  assumes "valid_Payload p" and "valid_Requirements q"
    and "Settle S (NewSettler (main_verifier S T N c)) (settle_request p q) (m, w) = (resp, st1)"
  shows "callSettle (facilitator_env S T N c jerr (mw_FacilitatorURL cfg) link) cfg p q (m, w) =
    (case link (w_ext w) of
       Delivered \<Rightarrow> (Inr resp, st1) | RequestLost err \<Rightarrow> (Inl err, m, w) | ReplyLost err \<Rightarrow> (Inl err, st1))"
proof -
  have resp: "valid_SettleResponse resp"
    using Settle_valid_response [OF assms(3)] assms(1) by simp
  note valid = settle_request_valid [OF assms(1,2)]
  have body: "settle_body p q = json_print (VerifyRequest_json (settle_request p q))"
    by (simp add: settle_body_def settle_request_def)
  have prefix: "has_prefix (mw_FacilitatorURL cfg @ ''/settle'') (mw_FacilitatorURL cfg)"
    by (simp add: has_prefix_iff)
  have served: "serve_http S jerr (main_verifier S T N c)
      \<lparr>r_Method = ''POST'', r_Host = mw_FacilitatorURL cfg, r_Path = ''/settle'', r_TLS = False,
       r_Header = header_Set ''Content-Type'' ''application/json'' [], r_Body = settle_body p q\<rparr> (m, w)
    = (writeJSON 200 (SettleResponse_json resp) new_writer, st1)"
    using settleHandler_answer [OF _ _ valid assms(3)] by (simp add: serve_http_def body)
  show ?thesis
    using settle_response.Decode_Marshal [OF resp num_stop_newline]
    by (simp add: callSettle_def facilitator_env_def incoming_def prefix served writeJSON_response Let_def
        split: delivery.splits)
qed

section \<open>What the middleware sends is valid\<close>

definition valid_config :: "Config \<Rightarrow> bool" where
  "valid_config cfg \<longleftrightarrow>
     list_all valid_utf8 [mw_PayTo cfg, mw_Asset cfg, mw_Amount cfg, mw_Network cfg, mw_FacilitatorAddr cfg,
       mw_Description cfg, mw_MimeType cfg, mw_Symbol cfg]"

lemma with_defaults_sel [simp]:
  "mw_PayTo (with_defaults cfg) = mw_PayTo cfg" "mw_Asset (with_defaults cfg) = mw_Asset cfg"
  "mw_Amount (with_defaults cfg) = mw_Amount cfg" "mw_Network (with_defaults cfg) = mw_Network cfg"
  "mw_FacilitatorURL (with_defaults cfg) = mw_FacilitatorURL cfg"
  "mw_FacilitatorAddr (with_defaults cfg) = mw_FacilitatorAddr cfg"
  "mw_Description (with_defaults cfg) = mw_Description cfg" "mw_MimeType (with_defaults cfg) = mw_MimeType cfg"
  "mw_Decimals (with_defaults cfg) = mw_Decimals cfg" "mw_Symbol (with_defaults cfg) = mw_Symbol cfg"
  "mw_MaxTimeoutSeconds (with_defaults cfg) = (if mw_MaxTimeoutSeconds cfg = 0 then 60 else mw_MaxTimeoutSeconds cfg)"
  by (simp_all add: with_defaults_def Let_def)

lemma valid_chain_suffix:
  assumes "valid_utf8 net" and "take 7 net = ''cosmos:''"
  shows "valid_utf8 (drop 7 net)"
proof -
  have net: "net = ''cosmos:'' @ drop 7 net" using append_take_drop_id [of 7 net] assms(2) by simp
  have "valid_utf8 (''cosmos:'' @ drop 7 net)" using assms(1) net by simp
  then show ?thesis by (simp add: byte_def)
qed

lemma buildRequirements_valid:
  assumes "valid_config cfg" and "valid_utf8 (r_Host r)" and "valid_utf8 (r_Path r)"
  shows "valid_Requirements (buildRequirements (with_defaults cfg) r)"
  using assms valid_chain_suffix [of "mw_Network cfg"]
  by (auto simp: valid_config_def buildRequirements_def valid_Requirements_def valid_Extra_def Scheme_def Let_def
      byte_def intro!: valid_utf8_append)

lemma decodePayload_valid: "decodePayload jerr hdr = Inr p \<Longrightarrow> valid_Payload p \<and> pp_Scheme p = Scheme"
  by (auto simp: decodePayload_def split: option.splits if_splits dest: Unmarshal_valid_Payload)

text \<open>The facilitator behind \<open>link\<close> is the service that the middleware relies on.\<close>

lemma facilitator_env_json [simp]: "json_error (facilitator_env S T N c jerr base link) = jerr"
  by (simp add: facilitator_env_def)

abbreviation proper_request :: "Config \<Rightarrow> http_request \<Rightarrow> bool" where
  "proper_request cfg r \<equiv> valid_config cfg \<and> valid_utf8 (r_Host r) \<and> valid_utf8 (r_Path r)"

interpretation service: settle_service "facilitator_env S T N c jerr (mw_FacilitatorURL cfg) link" cfg "proper_request cfg"
  "\<lambda>p q. Settle S (NewSettler (main_verifier S T N c)) (settle_request p q)" for S T N c jerr cfg link
proof
  fix r hdr p y resp y1
  assume fine: "proper_request cfg r"
    and p: "decodePayload (json_error (facilitator_env S T N c jerr (mw_FacilitatorURL cfg) link)) hdr = Inr p"
    and settle: "Settle S (NewSettler (main_verifier S T N c)) (settle_request p (buildRequirements (with_defaults cfg) r)) y = (resp, y1)"
  obtain m w m1 w1 where y: "y = (m, w)" and y1: "y1 = (m1, w1)" by (metis surj_pair)
  have "valid_Payload p" using decodePayload_valid [OF p] by simp
  moreover have "valid_Requirements (buildRequirements (with_defaults cfg) r)" using fine by (intro buildRequirements_valid) auto
  ultimately show "callSettle (facilitator_env S T N c jerr (mw_FacilitatorURL cfg) link) (with_defaults cfg) p
        (buildRequirements (with_defaults cfg) r) y = (Inr resp, y1)
      \<or> (\<exists>err y2. callSettle (facilitator_env S T N c jerr (mw_FacilitatorURL cfg) link) (with_defaults cfg) p
        (buildRequirements (with_defaults cfg) r) y = (Inl err, y2) \<and> y2 \<in> {y, y1})"
    using callSettle_is_Settle [of p "buildRequirements (with_defaults cfg) r" S T N c m w resp y1 jerr "with_defaults cfg" link] settle
    by (cases "link (w_ext w)") (auto simp: y y1 split: delivery.splits)
qed

lemma admitted_settled:
  assumes "admitted (facilitator_env S T N c jerr (mw_FacilitatorURL cfg) link) cfg r y = Some (resp, st1)"
    and "proper_request cfg r"
  obtains p where "decodePayload jerr (header_Get (r_Header r) ''PAYMENT-SIGNATURE'') = Inr p"
    and "Settle S (NewSettler (main_verifier S T N c)) (settle_request p (buildRequirements (with_defaults cfg) r)) y
      = (resp, st1)"
    and "s_Success resp"
  using service.service_admits [OF assms] by auto

text \<open>The other way round: what becomes of a request whose header decodes.\<close>

lemma decodePayload_nonempty: "decodePayload jerr hdr = Inr p \<Longrightarrow> hdr \<noteq> []"
  by (auto simp: decodePayload_def base64_Decode_def Unmarshal_def json_Unmarshal_def skip_ws_def split: option.splits)

lemma admitted_request:
  assumes "decodePayload jerr (header_Get (r_Header r) ''PAYMENT-SIGNATURE'') = Inr p"
    and "valid_config cfg" and "valid_utf8 (r_Host r)" and "valid_utf8 (r_Path r)"
    and "Settle S (NewSettler (main_verifier S T N c)) (settle_request p (buildRequirements (with_defaults cfg) r)) (m, w)
      = (resp, st1)"
  shows "admitted (facilitator_env S T N c jerr (mw_FacilitatorURL cfg) link) cfg r (m, w) =
    (if s_Success resp then (case link (w_ext w) of Delivered \<Rightarrow> Some (resp, st1) | _ \<Rightarrow> None) else None)"
proof -
  have valid: "valid_Payload p" using decodePayload_valid [OF assms(1)] by simp
  from callSettle_is_Settle [OF valid buildRequirements_valid [OF assms(2-4)] assms(5), of jerr "with_defaults cfg" link]
  show ?thesis
    using decodePayload_nonempty [OF assms(1)] assms(1)
    by (auto simp: admitted_def Let_def split: delivery.splits)
qed

lemma lost_reply_refused:
  assumes "decodePayload jerr (header_Get (r_Header r) ''PAYMENT-SIGNATURE'') = Inr p"
    and "valid_config cfg" and "valid_utf8 (r_Host r)" and "valid_utf8 (r_Path r)"
    and "Settle S (NewSettler (main_verifier S T N c)) (settle_request p (buildRequirements (with_defaults cfg) r)) (m, w)
      = (resp, st1)"
    and "link (w_ext w) = ReplyLost err"
  shows "Paid (facilitator_env S T N c jerr (mw_FacilitatorURL cfg) link) cfg next rw r (m, w) =
    (writeFailure (buildRequirements (with_defaults cfg) r) ErrUnexpected rw, st1)"
proof -
  have valid: "valid_Payload p" using decodePayload_valid [OF assms(1)] by simp
  from callSettle_is_Settle [OF valid buildRequirements_valid [OF assms(2-4)] assms(5), of jerr "with_defaults cfg" link]
  show ?thesis
    using decodePayload_nonempty [OF assms(1)] assms(1,6)
    by (simp add: Paid_def Let_def)
qed

section \<open>What a successful settlement means\<close>

text \<open>The facts about a success that the properties use, in one place.\<close>

lemma settled_facts:
  assumes "Settle S (NewSettler (main_verifier S T N c)) req (m, w) = (resp, m', w')" and "s_Success resp" and "mem_invar m"
  defines "k \<equiv> nonceKey (a_From (request_auth req)) (a_ChainID (request_auth req)) (a_Nonce (request_auth req))"
  shows "sent_payments w' = sent_payments w @ [payment_of req]" and "mem_status m k = Unseen"
    and "mem_status m' k = Consumed (s_Transaction resp)"
    and "requirements_met (vf_chains (main_verifier S T N c)) req (noble_client S T N c)"
    and "payer_signed S (noble_client S T N c) (pp_Payload (vr_PaymentPayload req)) (s_Payer resp)"
    and "s_Payer resp = a_From (request_auth req)"
proof -
  have oc: "settles S (main_verifier S T N c) req Settled (m, w) resp (m', w')"
    using assms(1,2) by (rule program.settle_success_paid)
  show "sent_payments w' = sent_payments w @ [payment_of req]"
    using program.settles_sent(3) [OF oc assms(3)] by simp
  show "mem_status m k = Unseen" and "mem_status m' k = Consumed (s_Transaction resp)"
    unfolding k_def using program.paid_unseen [OF oc assms(3)] program.paid_consumed [OF oc assms(3)] by simp_all
  from oc obtain payer m1 w1 where V: "Verify S (main_verifier S T N c) req (m, w) = (Inr payer, m1, w1)"
    and payer: "s_Payer resp = payer" by (auto elim!: paidE)
  obtain client where facts: "requirements_met (vf_chains (main_verifier S T N c)) req client"
      "payer_signed S client (pp_Payload (vr_PaymentPayload req)) payer"
    using V by (auto simp: Verify_Inr check_request_Inr check_chain_Inr Let_def)
  have "client = noble_client S T N c"
    using facts(1) by (auto simp: requirements_met_def Let_def split: if_splits)
  with facts Verify_payer [OF V] payer show "requirements_met (vf_chains (main_verifier S T N c)) req (noble_client S T N c)"
    and "payer_signed S (noble_client S T N c) (pp_Payload (vr_PaymentPayload req)) (s_Payer resp)"
    and "s_Payer resp = a_From (request_auth req)" by auto
qed

end
