(* ===== verification/Payer.thy ===== *)
theory Payer
  imports Client Server EndToEnd
begin

text \<open>
  The demo client against the demo server and the facilitator: what the client signs is what \<open>Verify\<close> checks, and a
  run of the whole program, from the first request of the client to the last, is one \<open>Settle\<close> on the request that
  the client, the middleware and the two encodings between them make.
\<close>

section \<open>What the client signs is what the facilitator checks\<close>

lemma unat_minus_small: "k \<le> unat (n::int64) \<Longrightarrow> k < 18446744073709551616 \<Longrightarrow> unat (n - of_nat k) = unat n - k"
  by (simp add: unat_sub_if_size unsigned_of_nat take_bit_nat_eq_self word_le_nat_alt)

lemma unat_plus_small: "unat (n::int64) + k < 18446744073709551616 \<Longrightarrow> unat (n + of_nat k) = unat n + k"
proof -
  assume a: "unat n + k < 18446744073709551616"
  then have "unat (of_nat k :: int64) = k"
    by (simp add: unsigned_of_nat take_bit_nat_eq_self)
  with a show ?thesis by (subst unat_add_lem [THEN iffD1]) simp_all
qed

lemma authorization_window:
  assumes "5 \<le> unat now" and "unat now + 30 < 18446744073709551616"
  shows "unat (a_ValidAfter (make_authorization q addr nonce now False)) = unat now - 5"
    and "unat (a_ValidBefore (make_authorization q addr nonce now False)) = unat now + 30"
  using unat_minus_small [of 5 now] unat_plus_small [of now 30] assms by (simp_all add: make_authorization_def)

lemma expired_window:
  assumes "60 \<le> unat now"
  shows "unat (a_ValidAfter (make_authorization q addr nonce now True)) = unat now - 60"
    and "unat (a_ValidBefore (make_authorization q addr nonce now True)) = unat now - 10"
  using unat_minus_small [of 60 now] unat_minus_small [of 10 now] assms by (simp_all add: make_authorization_def)

lemma made_request_sel [simp]:
  "c_Authorization (pp_Payload (make_payload q auth sg pk)) = auth"
  "pp_Network (make_payload q auth sg pk) = pr_Network q" "pp_Scheme (make_payload q auth sg pk) = Scheme"
  "c_PublicKey (pp_Payload (make_payload q auth sg pk)) = base64_Encode pk"
  "c_Signature (pp_Payload (make_payload q auth sg pk)) = base64_Encode sg"
  by (simp_all add: make_payload_def)

lemma made_authorization_sel [simp]:
  "a_From (make_authorization q addr nonce now ex) = addr" "a_To (make_authorization q addr nonce now ex) = pr_PayTo q"
  "a_Denom (make_authorization q addr nonce now ex) = pr_Asset q"
  "a_Amount (make_authorization q addr nonce now ex) = pr_MaxAmountRequired q"
  "a_Nonce (make_authorization q addr nonce now ex) = nonce"
  "a_Resource (make_authorization q addr nonce now ex) = pr_Resource q"
  "a_ChainID (make_authorization q addr nonce now ex) = x_ChainID (pr_Extra q)"
  by (simp_all add: make_authorization_def)

lemma at_most_refl [simp]: "at_most a a"
  by (simp add: at_most_def split: option.splits)

text \<open>A payload made for the requirements of a server that the facilitator supports meets them.\<close>

definition supported :: "('s, 'e) Verifier \<Rightarrow> PaymentRequirements \<Rightarrow> 'e ChainClient \<Rightarrow> bool" where
  "supported v q client \<longleftrightarrow>
     pr_Scheme q = Scheme \<and> map_of (vf_chains v) (pr_Network q) = Some client
     \<and> x_ChainID (pr_Extra q) = trim_prefix (pr_Network q) ''cosmos:''
     \<and> x_ChainID (pr_Extra q) = cl_ChainID client"

text \<open>The payment that a request authorizes is the one its requirements ask for.\<close>

definition matches :: "VerifyRequest \<Rightarrow> bool" where
  "matches req \<longleftrightarrow>
     (let pp = vr_PaymentPayload req; q = vr_PaymentRequirements req; a = c_Authorization (pp_Payload pp) in
      pp_Scheme pp = Scheme \<and> pp_Network pp = pr_Network q \<and> a_To a = pr_PayTo q \<and> a_Denom a = pr_Asset q
      \<and> a_Amount a = pr_MaxAmountRequired q \<and> a_Resource a = pr_Resource q \<and> a_ChainID a = x_ChainID (pr_Extra q))"

lemma matches_static:
  assumes "supported v (vr_PaymentRequirements req) client" and "matches req"
  shows "requirements_met (vf_chains v) req client"
  using assms by (auto simp: supported_def matches_def requirements_met_def Let_def)

lemma made_request_matches: "matches (settle_request (make_payload q (make_authorization q addr nonce now ex) sg pk) q)"
  by (simp add: matches_def)

lemmas made_request_static = matches_static [OF _ made_request_matches, unfolded settle_request_sel]

text \<open>A matching, signed and timely request with a covering grant verifies, whoever made it.\<close>

lemma matching_request_verifies:
  assumes "supported v (vr_PaymentRequirements req) client" and "matches req" and "signature_scheme S"
    and "derive_trimmed invalid S mnemonic (cl_AccountPrefix client) = Inr (priv, a_From (request_auth req))"
    and "sign_authorization S priv (request_auth req) = Inr (sg, pk)"
    and "c_PublicKey (pp_Payload (vr_PaymentPayload req)) = base64_Encode pk"
    and "c_Signature (pp_Payload (vr_PaymentPayload req)) = base64_Encode sg"
    and "vf_clock v e = (t, e1)" and "window_open (unat (Unix t)) req"
    and "ns_Exists (vf_nonces v) (a_From (request_auth req)) (a_ChainID (request_auth req)) (a_Nonce (request_auth req)) s = (Inr False, s1)"
    and "grant_covers v client req e1 e2" and "balance_covers client (request_auth req) e2 e3"
  shows "Verify S v req (s, e) = (Inr (a_From (request_auth req)), s1, e3)"
proof -
  have "payer_signed S client (pp_Payload (vr_PaymentPayload req)) (a_From (request_auth req))"
    using signed_verifies [OF assms(3-5)] assms(6,7) by (simp add: payer_signed_def)
  with assms(11,12) have chain: "check_chain S v client req e1 = (Inr (a_From (request_auth req)), e3)"
    unfolding check_chain_Inr Let_def by blast
  have request: "check_request v req e = (Inr client, e1)"
    using matches_static [OF assms(1,2)] assms(8,9) unfolding check_request_Inr by blast
  have "check_nonce v (request_auth req) s = (None, s1)" using assms(10) by (simp add: check_nonce_None)
  with chain request show ?thesis by (simp add: Verify_def)
qed

lemma made_request_window:
  assumes "5 \<le> unat now" and "unat now + 30 < 18446744073709551616"
    and "unat now - 5 \<le> t" and "t < unat now + 30"
    and "pr_MaxTimeoutSeconds q = 0 \<or> 35 \<le> unat (pr_MaxTimeoutSeconds q)"
  shows "window_open t (settle_request (make_payload q (make_authorization q addr nonce now False) sg pk) q)"
  using assms authorization_window [OF assms(1,2)] by (auto simp: window_open_def Let_def)

text \<open>An authorization made with \<open>X402_EXPIRED=1\<close> is refused as expired, before the store and the chain are asked.\<close>

lemma made_expired_refused:
  assumes "supported v q client" and "60 \<le> unat now" and "vf_clock v e = (t, e1)"
    and "unat now - 10 \<le> unat (Unix t)"
  shows "\<exists>err. Verify S v (settle_request (make_payload q (make_authorization q addr nonce now True) sg pk) q) (s, e)
      = (Inl err, s, e1) \<and> ErrorCode err = ErrExpiredAuthorization"
proof -
  let ?req = "settle_request (make_payload q (make_authorization q addr nonce now True) sg pk) q"
  have static: "check_static (vf_chains v) ?req = Inr client"
    using made_request_static [OF assms(1)] by (simp add: check_static_Inr)
  note ex = expired_window [OF assms(2), of q addr nonce]
  have "\<not> Unix t < a_ValidAfter (make_authorization q addr nonce now True)"
    and "a_ValidBefore (make_authorization q addr nonce now True) \<le> Unix t"
    using ex assms(4) by (simp_all add: word_less_nat_alt word_le_nat_alt)
  then have "\<exists>err. check_window (Unix t) ?req = Some err \<and> ErrorCode err = ErrExpiredAuthorization"
    by (simp add: check_window_def verifyErr_def ErrorCode_def)
  with static assms(3) show ?thesis
    by (auto simp: Verify_def check_request_def)
qed

text \<open>An honest, timely payload with a covering grant verifies.\<close>

lemma made_request_verifies:
  assumes "supported v q client" and "signature_scheme S"
    and "deriveKey S mnemonic (cl_AccountPrefix client) = Inr (priv, addr)"
    and "signAuth S priv (make_authorization q addr nonce now False) = Inr (sg, pk)"
    and "5 \<le> unat now" and "unat now + 30 < 18446744073709551616"
    and "vf_clock v e = (t, e1)" and "unat now - 5 \<le> unat (Unix t)" and "unat (Unix t) < unat now + 30"
    and "pr_MaxTimeoutSeconds q = 0 \<or> 35 \<le> unat (pr_MaxTimeoutSeconds q)"
    and "ns_Exists (vf_nonces v) addr (x_ChainID (pr_Extra q)) nonce s = (Inr False, s1)"
    and "grant_covers v client (settle_request (make_payload q (make_authorization q addr nonce now False) sg pk) q) e1 e2"
    and "balance_covers client (make_authorization q addr nonce now False) e2 e3"
  shows "Verify S v (settle_request (make_payload q (make_authorization q addr nonce now False) sg pk) q) (s, e)
    = (Inr addr, s1, e3)"
  using assms
  by (intro matching_request_verifies [where sg = sg and pk = pk and priv = priv and client = client and mnemonic = mnemonic
        and invalid = "ErrNew ''invalid mnemonic''", THEN trans] made_request_matches made_request_window)
    (simp_all add: deriveKey_def signAuth_def)

section \<open>The payload passes through the header\<close>

lemma valid_nonce: "valid_utf8 (''0x'' @ hex_EncodeToString b)"
  using ascii_hex [of b] by (intro valid_utf8_ascii) (simp add: byte_def)

lemma make_payload_valid:
  assumes "valid_Requirements q" and "valid_utf8 addr" and "valid_utf8 nonce"
  shows "valid_Payload (make_payload q (make_authorization q addr nonce now ex) sg pk)"
  using assms
  by (simp add: valid_Payload_def valid_CosmosPayload_def valid_Authorization_def valid_Requirements_def
      valid_Extra_def make_payload_def make_authorization_def Scheme_def int64_range_def)

lemma header_decodes:
  assumes "valid_Payload p" and "pp_Scheme p = Scheme"
  shows "decodePayload jerr (encodeHeader (PaymentPayload_json p)) = Inr p"
  using payload.Unmarshal_Marshal [OF assms(1)] assms(2) by (simp add: decodePayload_def encodeHeader_def)

lemma decodeHeader_requirements:
  assumes "valid_Requirements q"
  shows "decodeHeader jerr PaymentRequirements_fields PaymentRequirements_zero (base64_Encode (json_print (PaymentRequirements_json q))) = Inr q"
  using requirements.Unmarshal_Marshal [OF assms] by (simp add: decodeHeader_def)

lemma decodeHeader_receipt:
  assumes "valid_SettleResponse resp"
  shows "decodeHeader jerr SettleResponse_fields SettleResponse_zero (base64_Encode (json_print (SettleResponse_json resp))) = Inr resp"
  using settle_response.Unmarshal_Marshal [OF assms] by (simp add: decodeHeader_def)

section \<open>The whole program\<close>

text \<open>
  The state that client, server and facilitator share is the facilitator's nonce store with the world. The
  server listens at \<open>http://host\<close>; the facilitator is reached through \<open>link\<close>.
\<close>

definition shop ::
  "cosmos_sdk \<Rightarrow> tx_sdk \<Rightarrow> 'x network \<Rightarrow> NobleClient \<Rightarrow> (string \<Rightarrow> string) \<Rightarrow> ('x \<Rightarrow> delivery) \<Rightarrow> Config \<Rightarrow>
    http_request \<Rightarrow> MemoryNonceStore \<times> 'x world \<Rightarrow> writer \<times> MemoryNonceStore \<times> 'x world" where
  "shop S T N c jerr link cfg =
     server_mux (facilitator_env S T N c jerr (mw_FacilitatorURL cfg) link)
       (\<lambda>(m, w). let (t, w1) = time_Now N w in (t, m, w1)) cfg"

definition shop_client ::
  "cosmos_sdk \<Rightarrow> tx_sdk \<Rightarrow> 'x network \<Rightarrow> NobleClient \<Rightarrow> (string \<Rightarrow> string) \<Rightarrow> ('x \<Rightarrow> delivery) \<Rightarrow> Config \<Rightarrow> string \<Rightarrow>
    (string \<Rightarrow> string) \<Rightarrow> (nat \<Rightarrow> 'x world \<Rightarrow> (goerr + bytes) \<times> 'x world) \<Rightarrow> (MemoryNonceStore \<times> 'x world) client_env" where
  "shop_client S T N c jerr link cfg host Getenv rand =
     \<lparr>cl_Getenv = Getenv,
      cl_Do = (\<lambda>client req y.
        if has_prefix (o_URL req) (''http://'' @ host) then
          let (wr, y1) = shop S T N c jerr link cfg
                \<lparr>r_Method = o_Method req, r_Host = host, r_Path = drop (length (''http://'' @ host)) (o_URL req),
                 r_TLS = False, r_Header = o_Header req, r_Body = o_Body req\<rparr> y
          in (Inr (response wr), y1)
        else (Inl (Foreign ''no such host''), y)),
      cl_rand = (\<lambda>n (m, w). let (b, w1) = rand n w in (b, m, w1)),
      cl_Now = (\<lambda>(m, w). let (t, w1) = time_Now N w in (t, m, w1)),
      cl_request_error = (\<lambda>_. None), cl_json_error = jerr\<rparr>"

definition premium_request :: "string \<Rightarrow> header \<Rightarrow> http_request" where
  "premium_request host h =
     \<lparr>r_Method = ''GET'', r_Host = host, r_Path = ''/premium'', r_TLS = False, r_Header = h, r_Body = []\<rparr>"

definition shop_url :: "string \<Rightarrow> string" where
  "shop_url host = ''http://'' @ host @ ''/premium''"

lemma shop_client_Do:
  "cl_Do (shop_client S T N c jerr link cfg host Getenv rand) hc (get_request (shop_url host) h) y =
    (let (wr, y1) = shop S T N c jerr link cfg (premium_request host h) y in (Inr (response wr), y1))"
proof -
  have "has_prefix (''http://'' @ host @ ''/premium'') (''http://'' @ host)"
    using has_prefix_iff [of "(''http://'' @ host) @ ''/premium''" "''http://'' @ host"] by simp
  then show ?thesis by (simp add: shop_url_def shop_client_def get_request_def premium_request_def)
qed

lemma shop_client_sel [simp]:
  "cl_request_error (shop_client S T N c jerr link cfg host Getenv rand) url = None"
  "cl_json_error (shop_client S T N c jerr link cfg host Getenv rand) = jerr"
  "cl_Getenv (shop_client S T N c jerr link cfg host Getenv rand) = Getenv"
  "cl_rand (shop_client S T N c jerr link cfg host Getenv rand) n (m, w) = (let (b, w1) = rand n w in (b, m, w1))"
  "cl_Now (shop_client S T N c jerr link cfg host Getenv rand) (m, w) = (let (t, w1) = time_Now N w in (t, m, w1))"
  by (simp_all add: shop_client_def)

text \<open>The requirements do not depend on the payment header, so both requests of the client are for the same ones.\<close>

lemma requirements_same_header:
  assumes "header_Get h ''X-Forwarded-Proto'' = header_Get h' ''X-Forwarded-Proto''"
  shows "buildRequirements cfg (premium_request host h) = buildRequirements cfg (premium_request host h')"
  using assms by (simp add: buildRequirements_def premium_request_def)

lemma payment_header_only: "header_Get (header_Set ''PAYMENT-SIGNATURE'' v []) ''X-Forwarded-Proto'' = []"
proof -
  have "canonical ''X-Forwarded-Proto'' = ''X-Forwarded-Proto''" by code_simp
  then show ?thesis by simp
qed

section \<open>A run of the client\<close>

lemma more_canonical [simp]: "canonical ''Content-Type'' = ''Content-Type''" "canonical ''X-Forwarded-Proto'' = ''X-Forwarded-Proto''"
  by code_simp+

lemma encode_nonempty [simp]: "json_print (PaymentRequirements_json q) \<noteq> []"
  "json_print (SettleResponse_json r) \<noteq> []" "json_print (PaymentPayload_json p) \<noteq> []"
proof -
  have "json_print (JObj m) \<noteq> []" for m by (cases "JObj m" rule: json_print.cases) auto
  then show "json_print (PaymentRequirements_json q) \<noteq> []" and "json_print (SettleResponse_json r) \<noteq> []"
    and "json_print (PaymentPayload_json p) \<noteq> []"
    unfolding PaymentRequirements_json_def SettleResponse_json_def PaymentPayload_json_def by blast+
qed

lemma encodeHeader_nonempty [simp]: "encodeHeader (PaymentPayload_json p) \<noteq> []"
  by (simp add: encodeHeader_def)

lemma unpaid_answer:
  "shop S T N c jerr link cfg (premium_request host []) y =
    (writeRequired (buildRequirements (with_defaults cfg) (premium_request host [])) new_writer, y)"
  by (simp add: shop_def server_mux_def Paid_def premium_request_def Let_def)

abbreviation shop_requirements :: "Config \<Rightarrow> string \<Rightarrow> PaymentRequirements" where
  "shop_requirements cfg host \<equiv> buildRequirements (with_defaults cfg) (premium_request host [])"

lemma shop_requirements_valid: "valid_config cfg \<Longrightarrow> valid_utf8 host \<Longrightarrow> valid_Requirements (shop_requirements cfg host)"
  by (intro buildRequirements_valid) (simp_all add: premium_request_def)

lemma first_request:
  assumes "valid_config cfg" and "valid_utf8 host"
  shows "fetch_requirements (shop_client S T N c jerr link cfg host Getenv rand) (shop_url host) y =
    (Inr (shop_requirements cfg host), y)"
  using decodeHeader_requirements [OF shop_requirements_valid [OF assms], of jerr]
  by (simp add: fetch_requirements_def shop_client_Do unpaid_answer writeRequired_def response_def Let_def)

text \<open>The client's view of a settlement: the receipt, and the body or the reason of the end.\<close>

definition client_view :: "'x network \<Rightarrow> string \<Rightarrow> SettleResponse \<Rightarrow> MemoryNonceStore \<times> 'x world \<Rightarrow>
    (SettleResponse option \<times> (exit + string)) \<times> MemoryNonceStore \<times> 'x world" where
  "client_view N network resp st =
     (if s_Success resp then
        let (t, w1) = time_Now N (snd st) in
        ((Some resp, Inr (json_print (premium_json t) @ newline)), fst st, w1)
      else
        ((Some (settle_failed (s_ErrorReason resp) network []),
          Inl (Fatal (Errorf ''paid request returned status %d, body=%s'' [AInt 402, AStr []]))), st))"

lemma paid_request_view:
  assumes "valid_config cfg" and "valid_utf8 host" and "valid_Payload p" and "pp_Scheme p = Scheme"
    and "Settle S (NewSettler (main_verifier S T N c)) (settle_request p (shop_requirements cfg host)) (m, w) = (resp, m1, w1)"
    and "link (w_ext w) = Delivered"
  shows "send_payment (shop_client S T N c jerr link cfg host Getenv rand) (shop_url host) p (m, w) =
    client_view N (mw_Network cfg) resp (m1, w1)"
proof -
  let ?h = "header_Set ''PAYMENT-SIGNATURE'' (encodeHeader (PaymentPayload_json p)) []"
  let ?q = "shop_requirements cfg host"
  have q: "buildRequirements (with_defaults cfg) (premium_request host ?h) = ?q"
    by (rule requirements_same_header) (simp add: payment_header_only)
  have resp: "valid_SettleResponse resp"
    using Settle_valid_response [OF assms(5)] assms(3) by simp
  have call: "callSettle (facilitator_env S T N c jerr (mw_FacilitatorURL cfg) link) (with_defaults cfg) p ?q (m, w) = (Inr resp, m1, w1)"
    using callSettle_is_Settle [OF assms(3) shop_requirements_valid [OF assms(1,2)] assms(5), of jerr "with_defaults cfg" link] assms(6)
    by simp
  have answer: "shop S T N c jerr link cfg (premium_request host ?h) (m, w) =
      (if s_Success resp then premium (\<lambda>(m, w). let (t, w1) = time_Now N w in (t, m, w1)) (setResponseHeader resp new_writer) (premium_request host ?h) (m1, w1)
       else (writeFailure ?q (s_ErrorReason resp) new_writer, m1, w1))"
    using header_decodes [OF assms(3,4), of jerr] call q
    by (simp add: shop_def server_mux_def Paid_def premium_request_def Let_def)
  have fail: "valid_SettleResponse (settle_failed (s_ErrorReason resp) (mw_Network cfg) [])"
    using resp assms(1) by (simp add: valid_SettleResponse_def valid_config_def)
  have net: "pr_Network ?q = mw_Network cfg" by (simp add: buildRequirements_def Let_def)
  have failed: "SettleResponse_zero\<lparr>s_Success := False, s_ErrorReason := s_ErrorReason resp, s_Network := mw_Network cfg\<rparr>
      = settle_failed (s_ErrorReason resp) (mw_Network cfg) []"
    by (simp add: settle_failed_def SettleResponse_zero_def)
  show ?thesis
    using decodeHeader_receipt [OF resp, of jerr] decodeHeader_receipt [OF fail, of jerr]
    by (simp add: send_payment_def shop_client_Do answer client_view_def premium_def response_def setResponseHeader_def
        writeFailure_def net failed Let_def split: prod.splits)
qed

text \<open>The nonce of a run: a fresh one, or the fixed one of the replay test.\<close>

definition run_nonce :: "(string \<Rightarrow> string) \<Rightarrow> bytes \<Rightarrow> string" where
  "run_nonce Getenv b =
     (if Getenv ''X402_REUSE_NONCE'' = ''1'' then ''0x'' @ repeat_str ''ab'' 32 else ''0x'' @ hex_EncodeToString b)"

lemma run_nonce_valid: "valid_utf8 (run_nonce Getenv b)"
proof -
  have "valid_utf8 (''0x'' @ repeat_str ''ab'' 32)" by code_simp
  then show ?thesis using valid_nonce [of b] by (simp add: run_nonce_def)
qed

lemma client_main_run:
  fixes Getenv
  defines "pfx \<equiv> envOr Getenv ''X402_NOBLE_PREFIX'' ''noble''"
  assumes "valid_config cfg" and "valid_utf8 host" and "valid_utf8 addr"
    and "envOr Getenv ''X402_SERVER_URL'' ''http://localhost:8080/premium'' = shop_url host"
    and "Getenv ''X402_PAYER_MNEMONIC'' \<noteq> []"
    and "deriveKey S (Getenv ''X402_PAYER_MNEMONIC'') pfx = Inr (priv, addr)"
    and "rand 32 w = (Inr b, w1)" and "time_Now N w1 = (t, w2)" and "link (w_ext w2) = Delivered"
    and "auth = make_authorization (shop_requirements cfg host) addr (run_nonce Getenv b) (Unix t) (Getenv ''X402_EXPIRED'' = ''1'')"
    and "signAuth S priv auth = Inr (sg, pk)"
    and "Settle S (NewSettler (main_verifier S T N c))
      (settle_request (make_payload (shop_requirements cfg host) auth sg pk) (shop_requirements cfg host)) (m, w2) = (resp, m', w')"
  shows "client_main S (shop_client S T N c jerr link cfg host Getenv rand) (m, w) = client_view N (mw_Network cfg) resp (m', w')"
proof -
  let ?q = "shop_requirements cfg host"
  have valid: "valid_Payload (make_payload ?q auth sg pk)"
    unfolding assms(11) using assms(4) run_nonce_valid shop_requirements_valid [OF assms(2,3)] by (intro make_payload_valid)
  have sent: "send_payment (shop_client S T N c jerr link cfg host Getenv rand) (shop_url host) (make_payload ?q auth sg pk) (m, w2) =
      client_view N (mw_Network cfg) resp (m', w')"
    using paid_request_view [where link = link, OF assms(2,3) valid _ assms(13,10)] by simp
  have fresh: "freshNonce (shop_client S T N c jerr link cfg host Getenv rand) (m, w) = (Inr (''0x'' @ hex_EncodeToString b), m, w1)"
    using assms(8) by (simp add: freshNonce_def fresh_nonce_def)
  show ?thesis
    using first_request [OF assms(2,3), of S T N c jerr link Getenv rand "(m, w)"] fresh assms(5-7,9,12) sent
    unfolding client_main_def
    by (cases "Getenv ''X402_REUSE_NONCE'' = ''1''") (simp_all add: pfx_def assms(11) run_nonce_def Let_def)
qed

section \<open>An honest client is served\<close>

lemma shop_supported:
  assumes "mw_Network cfg = ''cosmos:'' @ nc_chainID c" and "nc_chainID c \<noteq> []"
  shows "supported (main_verifier S T N c) (shop_requirements cfg host) (noble_client S T N c)"
proof -
  have "x_ChainID (pr_Extra (shop_requirements cfg host)) = trim_prefix (mw_Network cfg) ''cosmos:''"
    using requirements_chainID [of "with_defaults cfg" "premium_request host []"] assms by simp
  moreover have "trim_prefix (''cosmos:'' @ nc_chainID c) ''cosmos:'' = nc_chainID c" by (rule trim_prefix_append)
  moreover have "pr_Scheme (shop_requirements cfg host) = Scheme" "pr_Network (shop_requirements cfg host) = mw_Network cfg"
    by (simp_all add: buildRequirements_def Let_def)
  ultimately show ?thesis using assms(1) by (simp add: supported_def)
qed

text \<open>A verified request whose broadcast succeeds is settled.\<close>

lemma verified_settles:
  assumes "Verify S (main_verifier S T N c) req (m, w) = (Inr addr, m, w1)"
    and "pp_Network (vr_PaymentPayload req) = ''cosmos:'' @ nc_chainID c"
    and "map_of m (nonceKey (a_From (request_auth req)) (a_ChainID (request_auth req)) (a_Nonce (request_auth req))) = None"
    and "BroadcastAuthzSend S T N c (a_From (request_auth req)) (a_To (request_auth req)) (a_Denom (request_auth req))
      (a_Amount (request_auth req)) w1 = ((h, None), w2)"
  shows "\<exists>m'. Settle S (NewSettler (main_verifier S T N c)) req (m, w) =
    (settle_paid h (pp_Network (vr_PaymentPayload req)) addr, m', w2)"
proof -
  obtain m1 where "reserve_nonce (main_verifier S T N c) (request_auth req) m = (None, m1)"
    using assms(3) by (simp add: reserve_nonce_def Reserve_def Let_def)
  with assms show ?thesis
    by (simp add: Settle_def NewSettler_def broadcast_response_def Let_def)
qed

end
