(* ===== verification/Concurrency.thy ===== *)
theory Concurrency
  imports FacilitatorCmd
begin

text \<open>
  Settlements run in the goroutines of the HTTP server, next to the goroutine of \<open>cmd/main.go\<close> that
  collects the nonce store every thirty seconds. The methods of the store are atomic (its mutex is
  held for the whole body), so a run interleaves the pieces of \<open>Settle\<close> between them. \<open>advance\<close> is the
  next piece of one settlement; \<open>step\<close> lets any settlement advance, a request arrive, the store be
  collected, or the environment move on. \<open>guard\<close> restricts when a collection may happen; the program
  has no such restriction.

  The main result is the invariant \<open>exclusive\<close>: while no collection drops the reservation of a
  settlement in flight, at most one settlement per nonce is between its reservation and its end, and
  at most one ever succeeds. Without the restriction this fails: \<open>Spec2Isabelle\<close> has the run.
\<close>

datatype phase =
    Arrived
  | Checked
  | Fresh
  | Verified string
  | Holding string
  | Broadcast string "string \<times> goerr option"
  | Answered SettleResponse

fun advance ::
  "cosmos_sdk \<Rightarrow> ('s, 'e) Verifier \<Rightarrow> VerifyRequest \<Rightarrow> phase \<times> 's \<times> 'e \<Rightarrow> phase \<times> 's \<times> 'e" where
  "advance S v req (Arrived, s, e) =
     (case check_request v req e of
        (Inl err, e1) \<Rightarrow> (Answered (settle_failed (ErrorCode err) (pp_Network (vr_PaymentPayload req)) []), s, e1)
      | (Inr _, e1) \<Rightarrow> (Checked, s, e1))"
| "advance S v req (Checked, s, e) =
     (case check_nonce v (request_auth req) s of
        (Some err, s1) \<Rightarrow> (Answered (settle_failed (ErrorCode err) (pp_Network (vr_PaymentPayload req)) []), s1, e)
      | (None, s1) \<Rightarrow> (Fresh, s1, e))"
| "advance S v req (Fresh, s, e) =
     (case check_chain S v (the (map_of (vf_chains v) (pp_Network (vr_PaymentPayload req)))) req e of
        (Inl err, e1) \<Rightarrow> (Answered (settle_failed (ErrorCode err) (pp_Network (vr_PaymentPayload req)) []), s, e1)
      | (Inr payer, e1) \<Rightarrow> (Verified payer, s, e1))"
| "advance S v req (Verified payer, s, e) =
     (case reserve_nonce v (request_auth req) s of
        (Some code, s1) \<Rightarrow> (Answered (settle_failed code (pp_Network (vr_PaymentPayload req)) payer), s1, e)
      | (None, s1) \<Rightarrow> (Holding payer, s1, e))"
| "advance S v req (Holding payer, s, e) =
     (let a = request_auth req;
          client = the (map_of (vf_chains v) (pp_Network (vr_PaymentPayload req)));
          (r, e1) = cl_BroadcastAuthzSend client (a_From a) (a_To a) (a_Denom a) (a_Amount a) e
      in (Broadcast payer r, s, e1))"
| "advance S v req (Broadcast payer r, s, e) =
     (Answered (broadcast_response (pp_Network (vr_PaymentPayload req)) payer r),
      finish_nonce v (request_auth req) r s, e)"
| "advance S v req (Answered r, s, e) = (Answered r, s, e)"

text \<open>A settlement that nothing interrupts is \<open>Settle\<close>: six pieces are enough.\<close>

lemma uninterrupted:
  assumes "Settle S (NewSettler v) req (s, e) = (r, s', e')"
  shows "(advance S v req ^^ 6) (Arrived, s, e) = (Answered r, s', e')"
proof -
  have six: "(f ^^ 6) x = f (f (f (f (f (f x)))))" for f :: "'c \<Rightarrow> 'c" and x
    by (simp add: eval_nat_numeral)
  obtain q e1 where q: "check_request v req e = (q, e1)" by fastforce
  show ?thesis
  proof (cases q)
    case (Inl err)
    with assms q show ?thesis by (auto simp: six Settle_def NewSettler_def Verify_def)
  next
    case (Inr client)
    then have client: "map_of (vf_chains v) (pp_Network (vr_PaymentPayload req)) = Some client"
      using q by (auto simp: check_request_Inr requirements_met_def Let_def)
    obtain u s1 where u: "check_nonce v (request_auth req) s = (u, s1)" by fastforce
    obtain p e2 where p: "check_chain S v client req e1 = (p, e2)" by fastforce
    show ?thesis
      using assms q Inr client u p
      by (auto simp: six Settle_def NewSettler_def Verify_def Let_def broadcast_response_def
          split: option.splits sum.splits prod.splits)
  qed
qed

section \<open>Interleavings\<close>

type_synonym ('s, 'e) config = "(VerifyRequest \<times> phase) list \<times> 's \<times> 'e"

inductive step ::
  "cosmos_sdk \<Rightarrow> ('s, 'e) Verifier \<Rightarrow> (gotime \<Rightarrow> 's \<Rightarrow> nat \<times> 's) \<Rightarrow> ('e \<Rightarrow> payment list) \<Rightarrow>
    ((VerifyRequest \<times> phase) list \<Rightarrow> gotime \<Rightarrow> bool) \<Rightarrow> ('s, 'e) config \<Rightarrow> ('s, 'e) config \<Rightarrow> bool"
  for S v gc sent guard where
  arrive: "step S v gc sent guard (ts, s, e) (ts @ [(req, Arrived)], s, e)"
| run: "i < length ts \<Longrightarrow> ts ! i = (req, ph) \<Longrightarrow> advance S v req (ph, s, e) = (ph', s', e') \<Longrightarrow>
    step S v gc sent guard (ts, s, e) (ts[i := (req, ph')], s', e')"
| collect: "guard ts now \<Longrightarrow> step S v gc sent guard (ts, s, e) (ts, snd (gc now s), e)"
| elapse: "sent e' = sent e \<Longrightarrow> step S v gc sent guard (ts, s, e) (ts, s, e')"

inductive_cases stepE: "step S v gc sent guard c c'"

definition any_time :: "(VerifyRequest \<times> phase) list \<Rightarrow> gotime \<Rightarrow> bool" where
  "any_time ts now = True"

fun held :: "phase \<Rightarrow> bool" where
  "held (Holding _) = True"
| "held (Broadcast _ _) = True"
| "held _ = False"

fun succeeded :: "phase \<Rightarrow> bool" where
  "succeeded (Answered r) = s_Success r"
| "succeeded _ = False"

text \<open>A collection spares the settlements in flight if its clock does not pass their expiry.\<close>

definition spares_in_flight :: "(VerifyRequest \<times> phase) list \<Rightarrow> gotime \<Rightarrow> bool" where
  "spares_in_flight ts now \<longleftrightarrow>
     list_all (\<lambda>(req, ph). held ph \<longrightarrow> \<not> After now (time_Unix (a_ValidBefore (request_auth req)))) ts"

lemma two_arrivals:
  "(step S v gc sent guard)\<^sup>*\<^sup>* ([], s, e) ([(req, Arrived), (req, Arrived)], s, e)"
  using step.arrive [of S v gc sent guard "[]" s e req] step.arrive [of S v gc sent guard "[(req, Arrived)]" s e req]
  by simp

context local_facilitator
begin

lemma reserve_frame:
  assumes "reserve_nonce v a s = (r, s1)" and "invar s" and "k \<noteq> key (a_From a) (a_ChainID a) (a_Nonce a)"
  shows "status s1 k = status s k"
  using frame [of s "DoReserve (a_From a) (a_ChainID a) (a_Nonce a) (time_Unix (a_ValidBefore a))"] assms
    reserve_as_op [of a s] by simp

lemma finish_frame:
  assumes "invar s" and "k \<noteq> key (a_From a) (a_ChainID a) (a_Nonce a)"
  shows "status (finish_nonce v a r s) k = status s k"
  using frame [of s "DoRelease (a_From a) (a_ChainID a) (a_Nonce a)"]
    frame [of s "DoCommit (a_From a) (a_ChainID a) (a_Nonce a) (fst r)"] assms finish_as_op [of a r s]
  by (auto split: prod.splits option.splits)

lemma finish_status:
  assumes "invar s" and "status s (key (a_From a) (a_ChainID a) (a_Nonce a)) = Reserved t"
  shows "status (finish_nonce v a r s) (key (a_From a) (a_ChainID a) (a_Nonce a))
    = (case r of (h, None) \<Rightarrow> Consumed h | (h, Some err) \<Rightarrow> Unseen)"
  using commit_status [OF assms(1), of "a_From a" "a_ChainID a" "a_Nonce a"]
    release_status [OF assms(1), of "a_From a" "a_ChainID a" "a_Nonce a"] assms(2)
  by (simp add: finish_nonce_def nonces split: prod.splits option.splits)

text \<open>
  What one piece of a settlement does to the store: it touches the one key, takes it when it is
  free, and leaves it consumed or free when it ends.
\<close>

definition own :: "VerifyRequest \<Rightarrow> phase \<Rightarrow> 's \<Rightarrow> bool" where
  "own req ph s \<longleftrightarrow>
     (held ph \<longrightarrow> status s (request_key req) = Reserved (time_Unix (a_ValidBefore (request_auth req))))
     \<and> (succeeded ph \<longrightarrow> is_Consumed (status s (request_key req)))"

lemma own_simps [simp]:
  "own req Arrived s" "own req Checked s" "own req Fresh s" "own req (Verified p) s"
  "own req (Holding p) s \<longleftrightarrow> status s (request_key req) = Reserved (time_Unix (a_ValidBefore (request_auth req)))"
  "own req (Broadcast p r) s \<longleftrightarrow> status s (request_key req) = Reserved (time_Unix (a_ValidBefore (request_auth req)))"
  "own req (Answered q) s \<longleftrightarrow> (s_Success q \<longrightarrow> is_Consumed (status s (request_key req)))"
  by (simp_all add: own_def)

lemma advance_store:
  assumes "advance S v req (ph, s, e) = (ph', s', e')" and "invar s" and "own req ph s"
  shows "invar s' \<and> (\<forall>k. k \<noteq> request_key req \<longrightarrow> status s' k = status s k) \<and> own req ph' s'
    \<and> (held ph' \<longrightarrow> held ph \<or> status s (request_key req) = Unseen)
    \<and> (succeeded ph' \<longrightarrow> succeeded ph \<or> held ph)
    \<and> (held ph \<or> status s (request_key req) = Unseen \<or> status s' (request_key req) = status s (request_key req))"
proof (cases ph)
  case Arrived
  with assms show ?thesis by (auto split: prod.splits sum.splits)
next
  case Checked
  obtain u s1 where u: "check_nonce v (request_auth req) s = (u, s1)" by fastforce
  with Checked assms check_nonce_keeps [OF assms(2) u] show ?thesis by (auto split: option.splits)
next
  case Fresh
  with assms show ?thesis by (auto split: prod.splits sum.splits)
next
  case (Verified payer)
  obtain u s1 where u: "reserve_nonce v (request_auth req) s = (u, s1)" by fastforce
  have fr: "\<forall>k. k \<noteq> request_key req \<longrightarrow> status s1 k = status s k"
    using reserve_frame [OF u assms(2)] by blast
  show ?thesis
  proof (cases u)
    case None
    with Verified assms(1) u fr reserve_None [OF _ assms(2), of "request_auth req" s1] show ?thesis by auto
  next
    case (Some code)
    with Verified assms(1) u fr reserve_code [OF _ assms(2), of "request_auth req" code s1] show ?thesis by auto
  qed
next
  case (Holding payer)
  with assms show ?thesis by (auto simp: Let_def split: prod.splits)
next
  case (Broadcast payer r)
  then have s': "ph' = Answered (broadcast_response (pp_Network (vr_PaymentPayload req)) payer r)"
    "s' = finish_nonce v (request_auth req) r s" using assms(1) by auto
  have "status s (request_key req) = Reserved (time_Unix (a_ValidBefore (request_auth req)))"
    using Broadcast assms(3) by simp
  from finish_status [OF assms(2) this, of r] finish_frame [OF assms(2)] finish_invar [OF assms(2)]
  show ?thesis
    unfolding s' Broadcast by (auto simp: broadcast_response_def split: prod.splits option.splits)
next
  case (Answered r)
  with assms show ?thesis by auto
qed

definition exclusive :: "('s, 'e) config \<Rightarrow> bool" where
  "exclusive c \<longleftrightarrow>
     (case c of (ts, s, e) \<Rightarrow>
        invar s
        \<and> (\<forall>i < length ts. own (fst (ts ! i)) (snd (ts ! i)) s)
        \<and> (\<forall>i < length ts. \<forall>j < length ts. i \<noteq> j \<longrightarrow> request_key (fst (ts ! i)) = request_key (fst (ts ! j)) \<longrightarrow>
              \<not> (held (snd (ts ! i)) \<and> held (snd (ts ! j))) \<and> \<not> (succeeded (snd (ts ! i)) \<and> succeeded (snd (ts ! j)))))"

lemma exclusiveD:
  assumes "exclusive (ts, s, e)" and "i < length ts"
  shows "invar s" and "own (fst (ts ! i)) (snd (ts ! i)) s"
    and "j < length ts \<Longrightarrow> i \<noteq> j \<Longrightarrow> request_key (fst (ts ! i)) = request_key (fst (ts ! j)) \<Longrightarrow>
      \<not> (held (snd (ts ! i)) \<and> held (snd (ts ! j))) \<and> \<not> (succeeded (snd (ts ! i)) \<and> succeeded (snd (ts ! j)))"
  using assms by (auto simp: exclusive_def)

text \<open>A settlement that advances leaves the others what they own.\<close>

lemma own_other:
  assumes "exclusive (ts, s, e)" and "i < length ts" and "ts ! i = (req, ph)"
    and "advance S v req (ph, s, e) = (ph', s', e')" and "j < length ts" and "j \<noteq> i"
  shows "own (fst (ts ! j)) (snd (ts ! j)) s'"
proof -
  have own: "own req ph s" and inv: "invar s" using exclusiveD(1,2) [OF assms(1,2)] assms(3) by auto
  note A = advance_store [OF assms(4) inv own]
  note J = exclusiveD(2) [OF assms(1,5)] exclusiveD(3) [OF assms(1,5,2,6)]
  show ?thesis
  proof (cases "request_key (fst (ts ! j)) = request_key req")
    case False
    with A J(1) show ?thesis by (simp add: own_def)
  next
    case True
    then show ?thesis
    proof (cases "held ph")
      case held: True
      then have "status s (request_key req) = Reserved (time_Unix (a_ValidBefore (request_auth req)))"
        using own by (simp add: own_def)
      then have "\<not> held (snd (ts ! j)) \<and> \<not> succeeded (snd (ts ! j))"
        using J True held assms(3) by (auto simp: own_def)
      then show ?thesis by (simp add: own_def)
    next
      case False
      with A J(1) True show ?thesis by (auto simp: own_def)
    qed
  qed
qed

lemma exclusive_run:
  assumes ex: "exclusive (ts, s, e)" and i: "i < length ts" "ts ! i = (req, ph)"
    and adv: "advance S v req (ph, s, e) = (ph', s', e')"
  shows "exclusive (ts[i := (req, ph')], s', e')"
proof -
  have own: "own req ph s" and inv: "invar s" using exclusiveD(1,2) [OF ex i(1)] i(2) by auto
  note A = advance_store [OF adv inv own]
  have pair: "\<not> (held ph' \<and> held (snd (ts ! j))) \<and> \<not> (succeeded ph' \<and> succeeded (snd (ts ! j)))"
    if j: "j < length ts" "i \<noteq> j" "request_key req = request_key (fst (ts ! j))" for j
  proof -
    have old: "\<not> (held ph \<and> held (snd (ts ! j)))" "\<not> (succeeded ph \<and> succeeded (snd (ts ! j)))"
      using exclusiveD(3) [OF ex i(1) j(1,2)] i(2) j(3) by auto
    have oj: "own (fst (ts ! j)) (snd (ts ! j)) s" using exclusiveD(2) [OF ex j(1)] .
    have "\<not> (held ph \<and> succeeded (snd (ts ! j)))"
      using own oj j(3) by (auto simp: own_def)
    with A old oj j(3) show ?thesis by (auto simp: own_def)
  qed
  show ?thesis
    unfolding exclusive_def prod.case
  proof (intro conjI allI impI)
    show "invar s'" using A by blast
    fix j assume j: "j < length (ts[i := (req, ph')])"
    show "own (fst (ts[i := (req, ph')] ! j)) (snd (ts[i := (req, ph')] ! j)) s'"
      using A own_other [OF ex i adv, of j] j by (cases "j = i") auto
    fix l assume l: "l < length (ts[i := (req, ph')])" "j \<noteq> l"
      and k: "request_key (fst (ts[i := (req, ph')] ! j)) = request_key (fst (ts[i := (req, ph')] ! l))"
    have "\<not> (held (snd (ts[i := (req, ph')] ! j)) \<and> held (snd (ts[i := (req, ph')] ! l)))
      \<and> \<not> (succeeded (snd (ts[i := (req, ph')] ! j)) \<and> succeeded (snd (ts[i := (req, ph')] ! l)))"
      using pair [of j] pair [of l] exclusiveD(3) [OF ex, of j l] j l k
      by (cases "j = i"; cases "l = i") auto
    then show "\<not> (held (snd (ts[i := (req, ph')] ! j)) \<and> held (snd (ts[i := (req, ph')] ! l)))"
      and "\<not> (succeeded (snd (ts[i := (req, ph')] ! j)) \<and> succeeded (snd (ts[i := (req, ph')] ! l)))"
      by blast+
  qed
qed

lemma exclusive_collect:
  assumes ex: "exclusive (ts, s, e)" and guard: "spares_in_flight ts now"
  shows "exclusive (ts, snd (gc now s), e)"
proof -
  have inv: "invar s" using ex by (simp add: exclusive_def)
  have "own (fst (ts ! i)) (snd (ts ! i)) (snd (gc now s))" if i: "i < length ts" for i
  proof -
    have "held (snd (ts ! i)) \<longrightarrow> \<not> After now (time_Unix (a_ValidBefore (request_auth (fst (ts ! i)))))"
      using guard i by (auto simp: spares_in_flight_def list_all_iff split_beta)
    with exclusiveD(2) [OF ex i] show ?thesis
      by (auto simp: own_def gc_status [OF inv] split: nonce_status.splits)
  qed
  with ex gc_invar [OF inv, of now] show ?thesis by (auto simp: exclusive_def)
qed

lemma exclusive_arrive:
  assumes ex: "exclusive (ts, s, e)"
  shows "exclusive (ts @ [(req, Arrived)], s, e)"
proof -
  let ?ts = "ts @ [(req, Arrived)]"
  have new: "?ts ! i = (if i < length ts then ts ! i else (req, Arrived))" if "i < length ?ts" for i
    using that by (simp add: nth_append)
  show ?thesis
    unfolding exclusive_def prod.case
  proof (intro conjI allI impI)
    show "invar s" using ex by (simp add: exclusive_def)
    fix i assume i: "i < length ?ts"
    show "own (fst (?ts ! i)) (snd (?ts ! i)) s"
      using exclusiveD(2) [OF ex, of i] by (simp add: new [OF i])
    fix j assume j: "j < length ?ts" "i \<noteq> j" "request_key (fst (?ts ! i)) = request_key (fst (?ts ! j))"
    show "\<not> (held (snd (?ts ! i)) \<and> held (snd (?ts ! j)))"
      and "\<not> (succeeded (snd (?ts ! i)) \<and> succeeded (snd (?ts ! j)))"
      using exclusiveD(3) [OF ex, of i j] j(2,3) unfolding new [OF i] new [OF j(1)]
      by (simp_all split: if_splits)
  qed
qed

lemma exclusive_step:
  assumes "step S v gc sent spares_in_flight c c'" and "exclusive c"
  shows "exclusive c'"
  using assms
proof (cases rule: step.cases)
  case (run i ts req ph s e ph' s' e')
  with assms(2) show ?thesis using exclusive_run by blast
next
  case (elapse e' e ts s)
  with assms(2) show ?thesis by (simp add: exclusive_def)
qed (auto intro: exclusive_arrive exclusive_collect)

lemma exclusive_reachable:
  "(step S v gc sent spares_in_flight)\<^sup>*\<^sup>* c c' \<Longrightarrow> exclusive c \<Longrightarrow> exclusive c'"
  by (induction rule: rtranclp_induct) (auto intro: exclusive_step)

text \<open>From an empty house: at most one success per nonce.\<close>

lemma interleaved_once:
  assumes "(step S v gc sent spares_in_flight)\<^sup>*\<^sup>* ([], s, e) (ts, s', e')" and "invar s"
    and "i < length ts" and "j < length ts" and "i \<noteq> j"
    and "request_key (fst (ts ! i)) = request_key (fst (ts ! j))"
  shows "\<not> (succeeded (snd (ts ! i)) \<and> succeeded (snd (ts ! j)))"
    and "\<not> (held (snd (ts ! i)) \<and> held (snd (ts ! j)))"
    and "\<not> (held (snd (ts ! i)) \<and> succeeded (snd (ts ! j)))"
proof -
  have "exclusive ([], s, e)" using assms(2) by (simp add: exclusive_def)
  with assms(1) have ex: "exclusive (ts, s', e')" by (rule exclusive_reachable)
  from exclusiveD(3) [OF ex assms(3-6)]
  show "\<not> (succeeded (snd (ts ! i)) \<and> succeeded (snd (ts ! j)))"
    and "\<not> (held (snd (ts ! i)) \<and> held (snd (ts ! j)))" by blast+
  from exclusiveD(2) [OF ex assms(3)] exclusiveD(2) [OF ex assms(4)] assms(6)
  show "\<not> (held (snd (ts ! i)) \<and> succeeded (snd (ts ! j)))" by (auto simp: own_def)
qed

end

end
