(* ===== verification/Instances.thy ===== *)
theory Instances
  imports Concurrency
begin

text \<open>
  Concrete packages, endpoints and a payment, on which the theorems with hypotheses are applied. The
  signature scheme signs a message with a mix of the key and the message; the addresses are hexadecimal;
  the chain has one grant without expiry. The endpoint \<open>Tx\<close> is slow and knows nothing the first time when
  the outside is 0; otherwise it reports the transaction as included.
\<close>

definition demo_mix :: "bytes \<Rightarrow> bytes \<Rightarrow> bytes" where
  "demo_mix key msg = take 64 (key @ rev msg @ replicate 64 (CHR ''s''))"

definition demo_sdk :: cosmos_sdk where
  "demo_sdk =
     \<lparr>SortJSON = sort_text, PubKeySize = 33,
      VerifySignature = (\<lambda>key msg sig. sig = demo_mix key msg),
      Address = take 20,
      ConvertAndEncode = (\<lambda>prefix bz. Inr (prefix @ ''1'' @ hex_EncodeToString bz)),
      PubKey = id, Sign = (\<lambda>key msg. Inr (demo_mix key msg)),
      IsMnemonicValid = (\<lambda>m. m \<noteq> []), NewSeed = (\<lambda>m p. m @ p), ComputeMastersFromSeed = (\<lambda>s. (s, [])),
      DerivePrivateKeyForPath = (\<lambda>m c path. Inr (take 33 (m @ replicate 33 (CHR ''k'')))),
      NewMnemonic = (\<lambda>e. Inr e)\<rparr>"

definition demo_tx :: tx_sdk where
  "demo_tx =
     \<lparr>ParseCoinNormalized = (\<lambda>s. Inr \<lparr>coin_Denom = ''uusdc'', coin_Amount = takeWhile is_digit s\<rparr>),
      ParseCoinsNormalized = (\<lambda>s. Inr [\<lparr>coin_Denom = ''uusdc'', coin_Amount = takeWhile is_digit s\<rparr>]),
      NewCoins = id, NewInt64Coin = (\<lambda>d n. \<lparr>coin_Denom = d, coin_Amount = show_int (sint n)\<rparr>),
      AccAddressFromBech32 = (\<lambda>prefix addr. Inr addr),
      NewMsgGrant = (\<lambda>a b auth t. Inr (MsgGrant a b auth (Some t))),
      MsgSendTypeURL = ''/cosmos.bank.v1beta1.MsgSend''\<rparr>"

definition demo_cdc :: codec where
  "demo_cdc =
     \<lparr>UnpackAuthorization = (\<lambda>any. Inr (SendAuthorization [\<lparr>coin_Denom = ''uusdc'', coin_Amount = ''1000000''\<rparr>])),
      UnpackAccount = (\<lambda>any. Inr (7, 3))\<rparr>"

definition demo_txConfig :: tx_config where
  "demo_txConfig =
     \<lparr>MsgsError = (\<lambda>_. None), SignaturesError = (\<lambda>_. None),
      GetSignBytes = (\<lambda>d t. Inr (tx_Memo t)), TxEncoder = (\<lambda>t. Inr (tx_Memo t))\<rparr>"

text \<open>A registry that is the list of its modules; its codec is of use when all five are there.\<close>

definition demo_codec :: "sdk_module list codec_sdk" where
  "demo_codec =
     \<lparr>NewInterfaceRegistryWithOptions = (\<lambda>opts. if AddressCodec opts = [] then Inl (Foreign ''no prefix'') else Inr []),
      RegisterInterfaces = (\<lambda>m ms. m # ms),
      NewProtoCodec = (\<lambda>ms. if length ms = 5 then demo_cdc else demo_cdc\<lparr>UnpackAccount := (\<lambda>any. Inl (Foreign ''unregistered''))\<rparr>),
      NewTxConfig = (\<lambda>cdc modes. demo_txConfig)\<rparr>"

definition demo_net :: "nat network" where
  "demo_net =
     \<lparr>Grants = (\<lambda>a b m x. (Inr [\<lparr>g_Authorization = [], g_Expiration = None\<rparr>], 0, x)),
      Balance = (\<lambda>a d x. (Inr (Some \<lparr>coin_Denom = d, coin_Amount = ''1000000''\<rparr>), 0, x)),
      Account = (\<lambda>a x. (Inr [], 0, x)),
      BroadcastTxSync = (\<lambda>bz x. (Inr \<lparr>br_Code = 0, br_Log = [], br_Hash = ''J''\<rparr>, 0, x)),
      Tx = (\<lambda>h x. if x = 0 then (Inr None, 31 * second, 1)
                  else (Inr (Some \<lparr>tr_Height = 5, tr_Code = 0, tr_Log = []\<rparr>), 0, x)),
      NewGRPC = (\<lambda>a u x. (None, 0, x)), NewRPC = (\<lambda>a b x. (None, 0, x)),
      elapse = (\<lambda>x. (0, x)), ctx_Done = (\<lambda>t x. (None, x))\<rparr>"

definition demo_key :: bytes where
  "demo_key = replicate 33 (CHR ''k'')"

definition demo_payer :: string where
  "demo_payer = ''noble1'' @ hex_EncodeToString (take 20 demo_key)"

definition demo_client :: NobleClient where
  "demo_client = \<lparr>nc_chainID = ''grand-1'', nc_prefix = ''noble'', nc_denom = ''uusdc'', nc_gasPrice = one_tenth,
     nc_signer = replicate 33 (CHR ''f''), nc_address = ''noble1facilitator'',
     nc_cdc = demo_cdc, nc_txConfig = demo_txConfig\<rparr>"

lemma demo_client_codec [simp]:
  "nc_cdc demo_client = demo_cdc" "nc_txConfig demo_client = demo_txConfig"
  "UnpackAuthorization demo_cdc any = Inr (SendAuthorization [\<lparr>coin_Denom = ''uusdc'', coin_Amount = ''1000000''\<rparr>])"
  "UnpackAccount demo_cdc any = Inr (7, 3)"
  by (simp_all add: demo_client_def demo_cdc_def)

definition demo_auth :: Authorization where
  "demo_auth = \<lparr>a_From = demo_payer, a_To = ''noble1seller'', a_Denom = ''uusdc'', a_Amount = ''10000'',
     a_Nonce = ''0x01'', a_ValidAfter = 1000, a_ValidBefore = 1060,
     a_Resource = ''http://shop/premium'', a_ChainID = ''grand-1''\<rparr>"

definition demo_payload :: PaymentPayload where
  "demo_payload = \<lparr>pp_X402Version = 2, pp_Scheme = Scheme, pp_Network = ''cosmos:grand-1'',
     pp_Payload = \<lparr>c_From = demo_payer, c_PublicKey = base64_Encode demo_key,
       c_Signature = base64_Encode (demo_mix demo_key (preimage_text demo_auth)),
       c_Authorization = demo_auth\<rparr>\<rparr>"

definition demo_requirements :: PaymentRequirements where
  "demo_requirements = \<lparr>pr_Scheme = Scheme, pr_Network = ''cosmos:grand-1'', pr_MaxAmountRequired = ''10000'',
     pr_Asset = ''uusdc'', pr_PayTo = ''noble1seller'', pr_Resource = ''http://shop/premium'',
     pr_Description = [], pr_MimeType = [], pr_MaxTimeoutSeconds = 60, pr_OutputSchema = [],
     pr_Extra = \<lparr>x_Facilitator = ''noble1facilitator'', x_ChainID = ''grand-1'', x_Decimals = 6, x_Symbol = ''USDC''\<rparr>\<rparr>"

definition demo_request :: VerifyRequest where
  "demo_request = \<lparr>vr_X402Version = 2, vr_PaymentPayload = demo_payload, vr_PaymentRequirements = demo_requirements\<rparr>"

definition demo_config :: bech32_config where
  "demo_config = \<lparr>account_prefix = (''noble'', ''noblepub''), validator_prefix = (''noblevaloper'', ''noblevaloperpub''),
     consensus_prefix = (''noblevalcons'', ''noblevalconspub'')\<rparr>"

definition demo_world :: "nat \<Rightarrow> rpc list \<Rightarrow> nat \<Rightarrow> nat world" where
  "demo_world seconds calls x =
     \<lparr>w_clock = seconds * second, w_config = demo_config, w_calls = calls, w_ext = x\<rparr>"

abbreviation demo_verifier :: "(MemoryNonceStore, nat world) Verifier" where
  "demo_verifier \<equiv> main_verifier demo_sdk demo_tx demo_net demo_client"

section \<open>How the payment goes through\<close>

lemma demo_payer_text: "list_all (\<lambda>c. byte c < 128 \<and> c \<noteq> CHR ''|'') demo_payer"
  by code_simp

lemma demo_valid_auth: "valid_Authorization demo_auth" "exact_times demo_auth"
proof -
  have "valid_utf8 demo_payer"
    using demo_payer_text by (intro valid_utf8_ascii) (simp add: list_all_iff)
  then show "valid_Authorization demo_auth" "exact_times demo_auth"
    by (simp_all add: valid_Authorization_def demo_auth_def exact_times_def)
qed

lemma demo_valid_request: "valid_Request demo_request"
  using demo_valid_auth(1)
  by (simp add: valid_Request_def valid_Payload_def valid_CosmosPayload_def valid_Requirements_def valid_Extra_def
      demo_request_def demo_payload_def demo_requirements_def Scheme_def int64_range_def
      valid_Authorization_def demo_auth_def)

lemma demo_preimage: "adr036Preimage demo_sdk demo_auth = Inr (preimage_text demo_auth)"
  by (rule adr036Preimage_eq) (simp_all add: demo_valid_auth demo_sdk_def sorts_json_sort_text)

lemma demo_signed:
  "VerifyADR036 demo_sdk (base64_Encode demo_key) (base64_Encode (demo_mix demo_key (preimage_text demo_auth)))
     demo_auth ''noble'' = Inr demo_payer"
  using VerifyADR036_accepts [OF demo_preimage, of demo_key "demo_mix demo_key (preimage_text demo_auth)" "''noble''"]
  by (simp add: demo_sdk_def demo_key_def demo_mix_def demo_auth_def demo_payer_def)

lemma demo_amounts: "at_most ''10000'' ''10000''" "at_most ''10000'' ''1000000''"
  by (simp_all add: at_most_def big_SetString_def parse_nat_def is_digit_def digits_val_def digit_val_def byte_def)

lemma demo_static: "requirements_met (vf_chains demo_verifier) demo_request (noble_client demo_sdk demo_tx demo_net demo_client)"
  by (simp add: requirements_met_def demo_request_def demo_payload_def demo_requirements_def demo_auth_def
      demo_client_def demo_amounts trim_prefix_def has_prefix_def Let_def)

lemma demo_window: "1000 \<le> t \<Longrightarrow> t < 1060 \<Longrightarrow> window_open t demo_request"
  by (simp add: window_open_def demo_request_def demo_payload_def demo_requirements_def demo_auth_def Let_def)


abbreviation demo_chain :: "nat world ChainClient" where
  "demo_chain \<equiv> noble_client demo_sdk demo_tx demo_net demo_client"

text \<open>The calls of one verification and of one broadcast.\<close>

definition demo_queries :: "rpc list" where
  "demo_queries = [CallGrants demo_payer ''noble1facilitator'' (MsgSendTypeURL demo_tx), CallBalance demo_payer ''uusdc'']"

definition demo_txn :: tx where
  "demo_txn = exec_tx demo_sdk demo_tx demo_client
     (exec_send demo_tx ''noble1facilitator'' demo_payer ''noble1seller'' \<lparr>coin_Denom = ''uusdc'', coin_Amount = ''10000''\<rparr>)
     3 (Some (demo_mix (nc_signer demo_client) ''x402-cosmos''))"

definition demo_sends :: "rpc list" where
  "demo_sends = [CallAccount ''noble1facilitator'', CallBroadcast (Some (payment_of demo_request)) demo_txn, CallTx ''J'']"

lemma demo_calls [simp]:
  "call c (Grants demo_net a b m) (demo_world t cs x) = (Inr [\<lparr>g_Authorization = [], g_Expiration = None\<rparr>], demo_world t (cs @ [c]) x)"
  "call c (Balance demo_net a d) (demo_world t cs x) = (Inr (Some \<lparr>coin_Denom = d, coin_Amount = ''1000000''\<rparr>), demo_world t (cs @ [c]) x)"
  "call c (Account demo_net a) (demo_world t cs x) = (Inr [], demo_world t (cs @ [c]) x)"
  "call c (BroadcastTxSync demo_net bz) (demo_world t cs x) = (Inr \<lparr>br_Code = 0, br_Log = [], br_Hash = ''J''\<rparr>, demo_world t (cs @ [c]) x)"
  "call c (Tx demo_net h) (demo_world t cs 0) = (Inr None, demo_world (t + 31) (cs @ [c]) 1)"
  "call c (Tx demo_net h) (demo_world t cs (Suc x)) = (Inr (Some \<lparr>tr_Height = 5, tr_Code = 0, tr_Log = []\<rparr>), demo_world t (cs @ [c]) (Suc x))"
  "read_clock demo_net (demo_world t cs x) = (t * second, demo_world t cs x)"
  by (simp_all add: call_def demo_net_def demo_world_def read_clock_def algebra_simps Let_def)

lemma demo_clock [simp]: "time_Now demo_net (demo_world t cs x) = (gotime_of (t * second), demo_world t cs x)"
  by (simp add: time_Now_def)

lemma demo_world_sel [simp]: "w_clock (demo_world t cs x) = t * second" "w_config (demo_world t cs x) = demo_config"
  "w_calls (demo_world t cs x) = cs"
  by (simp_all add: demo_world_def)

lemma demo_check_request:
  assumes "1000 \<le> t" and "t < 1060"
  shows "check_request demo_verifier demo_request (demo_world t cs x) = (Inr demo_chain, demo_world t cs x)"
proof -
  have "t * second div second = t" by (simp add: second_def)
  then have "unat (Unix (gotime_of (t * second))) = t"
    using assms by (simp add: Unix_gotime_of unsigned_of_nat take_bit_nat_eq_self)
  with demo_static demo_window [OF assms] show ?thesis
    by (simp add: check_request_Inr)
qed

lemma demo_check_nonce [simp]:
  "check_nonce demo_verifier demo_auth m =
    (if map_of m (nonceKey demo_payer ''grand-1'' ''0x01'') = None then None
     else Some (verifyErr ErrNonceAlreadyUsed (MsgText ''nonce already observed'')), m)"
  by (simp add: check_nonce_def Exists_def demo_auth_def)

lemma demo_request_sel [simp]:
  "c_Authorization (pp_Payload demo_payload) = demo_auth" "vr_PaymentPayload demo_request = demo_payload"
  "vr_PaymentRequirements demo_request = demo_requirements"
  by (simp_all add: demo_request_def demo_payload_def)

lemma demo_check_chain:
  "check_chain demo_sdk demo_verifier demo_chain demo_request (demo_world t cs x)
    = (Inr demo_payer, demo_world t (cs @ demo_queries) x)"
proof -
  have "payer_signed demo_sdk demo_chain (pp_Payload demo_payload) demo_payer"
    using demo_signed by (simp add: payer_signed_def demo_payload_def demo_client_def)
  moreover have "grant_covers demo_verifier demo_chain demo_request (demo_world t cs x)
      (demo_world t (cs @ [CallGrants demo_payer ''noble1facilitator'' (MsgSendTypeURL demo_tx)]) x)"
    by (simp add: grant_covers_def demo_auth_def demo_requirements_def QuerySendAuthorization_def demo_tx_def
        demo_amounts check_expiry_def Let_def)
  moreover have "balance_covers demo_chain demo_auth
      (demo_world t (cs @ [CallGrants demo_payer ''noble1facilitator'' (MsgSendTypeURL demo_tx)]) x)
      (demo_world t (cs @ demo_queries) x)"
    by (simp add: balance_covers_def demo_auth_def QueryBalance_def demo_amounts demo_queries_def)
  ultimately show ?thesis
    by (auto simp: check_chain_Inr Let_def)
qed

text \<open>The broadcast: confirmed at once, or after a poll of 31 seconds that learns nothing.\<close>

lemma demo_build:
  "build_exec_tx demo_sdk demo_tx demo_client
      (exec_send demo_tx ''noble1facilitator'' demo_payer ''noble1seller'' \<lparr>coin_Denom = ''uusdc'', coin_Amount = ''10000''\<rparr>) 7 3
    = Inr (demo_txn, ''x402-cosmos'')"
  by (simp add: build_exec_tx_def Let_def SetMsgs_def SetSignatures_def demo_client_def demo_txConfig_def demo_tx_def demo_sdk_def demo_txn_def
      NewTxBuilder_def fee_of_def gasLimit_def exec_tx_def)

lemma demo_select [simp]: "select_tick demo_net tick (demo_world t cs x) =
    (None, demo_world t cs x\<lparr>w_clock := max (t * second) tick\<rparr>)"
  by (simp add: select_tick_def demo_net_def demo_world_def)

lemma demo_wait:
  "waitForTx demo_net h (30 * second) (demo_world t cs (Suc x)) = (None, demo_world t (cs @ [CallTx h]) (Suc x))"
  "waitForTx demo_net h (30 * second) (demo_world t cs 0) =
    (Some (Errorf ''timeout waiting for tx %X'' [AStr h]), demo_world (t + 31) (cs @ [CallTx h]) 1)"
  by (simp_all add: waitForTx_def wait_loop.simps included_def algebra_simps) (simp add: second_def)

lemma demo_coin: "ParseCoinNormalized demo_tx ''10000uusdc'' = Inr \<lparr>coin_Denom = ''uusdc'', coin_Amount = ''10000''\<rparr>"
  by (simp add: demo_tx_def is_digit_def byte_def)

lemma demo_payment: "payment_of demo_request = \<lparr>pay_from = demo_payer, pay_to = ''noble1seller'', pay_text = ''10000uusdc''\<rparr>"
  by (simp add: payment_of_def demo_auth_def Let_def)

lemma demo_broadcast:
  "BroadcastAuthzSend demo_sdk demo_tx demo_net demo_client demo_payer ''noble1seller'' ''uusdc'' ''10000'' (demo_world t cs x) =
    (if x = 0
     then ((''4A'', Some (Errorf ''wait for inclusion: %w'' [AErrW (Errorf ''timeout waiting for tx %X'' [AStr ''J''])])),
           demo_world (t + 31) (cs @ demo_sends) 1)
     else ((''4A'', None), demo_world t (cs @ demo_sends) x))"
proof -
  have hash: "to_upper (hex_EncodeToString ''J'') = ''4A''" by code_simp
  have acc: "AccAddressFromBech32 demo_tx p a = Inr a" for p a by (simp add: demo_tx_def)
  have addr: "nc_address demo_client = ''noble1facilitator''" by (simp add: demo_client_def)
  have query: "queryAccountNumSeq demo_net demo_client a (demo_world t cs x) =
      (Inr (7, 3), demo_world t (cs @ [CallAccount a]) x)" for a t cs x
    by (simp add: queryAccountNumSeq_def)
  note run = BroadcastAuthzSend_def hash acc addr query demo_coin demo_build [unfolded exec_send_def]
    demo_sends_def demo_payment Let_def
  show ?thesis
    by (cases x) (simp_all add: run demo_wait)
qed

text \<open>The payment from end to end, on an empty store.\<close>

definition demo_store :: "nonceState \<Rightarrow> MemoryNonceStore" where
  "demo_store st = [(nonceKey demo_payer ''grand-1'' ''0x01'', st)]"

definition demo_state :: "bool \<Rightarrow> string \<Rightarrow> nonceState" where
  "demo_state c h = \<lparr>st_committed = c, st_txHash = h, st_validBefore = time_Unix 1060\<rparr>"

lemma demo_reserve [simp]:
  "reserve_nonce demo_verifier demo_auth NewMemoryNonceStore = (None, demo_store (demo_state False []))"
  by (simp add: reserve_nonce_def Reserve_def demo_auth_def NewMemoryNonceStore_def demo_store_def demo_state_def Let_def)

lemma demo_finish [simp]:
  "finish_nonce demo_verifier demo_auth (h, None) (demo_store (demo_state False [])) = demo_store (demo_state True h)"
  "finish_nonce demo_verifier demo_auth (h, Some err) (demo_store (demo_state False [])) = NewMemoryNonceStore"
  by (simp_all add: finish_nonce_def Commit_def Release_def demo_auth_def demo_store_def demo_state_def
      NewMemoryNonceStore_def Let_def)

lemma demo_Verify:
  assumes "1000 \<le> t" and "t < 1060"
  shows "Verify demo_sdk demo_verifier demo_request (NewMemoryNonceStore, demo_world t cs x)
    = (Inr demo_payer, NewMemoryNonceStore, demo_world t (cs @ demo_queries) x)"
  using demo_check_request [OF assms, of cs x] demo_check_chain [of t cs x]
  by (simp add: Verify_def NewMemoryNonceStore_def)

lemma demo_client_of [simp]: "map_of (vf_chains demo_verifier) (pp_Network demo_payload) = Some demo_chain"
  by (simp add: demo_payload_def demo_client_def)

lemma demo_Settle:
  assumes "1000 \<le> t" and "t < 1060"
  shows "Settle demo_sdk (NewSettler demo_verifier) demo_request (NewMemoryNonceStore, demo_world t cs x) =
    (if x = 0
     then (settle_failed ErrBroadcastFailed ''cosmos:grand-1'' demo_payer, NewMemoryNonceStore,
           demo_world (t + 31) (cs @ demo_queries @ demo_sends) 1)
     else (settle_paid ''4A'' ''cosmos:grand-1'' demo_payer, demo_store (demo_state True ''4A''),
           demo_world t (cs @ demo_queries @ demo_sends) x))"
proof -
  have auth: "a_From demo_auth = demo_payer" "a_To demo_auth = ''noble1seller''" "a_Denom demo_auth = ''uusdc''"
    "a_Amount demo_auth = ''10000''" "pp_Network demo_payload = ''cosmos:grand-1''"
    by (simp_all add: demo_auth_def demo_payload_def)
  show ?thesis
    using demo_client_of
    by (simp add: Settle_def NewSettler_def demo_Verify [OF assms] auth demo_broadcast broadcast_response_def Let_def)
qed

end
