(* ===== verification/Progress.thy ===== *)
theory Progress
  imports Concurrency
begin

text \<open>
  Interleavings with the moves they are made of: \<open>act\<close> is a step with its label, \<open>trace\<close> a sequence of them. A settlement
  that moves ends: six moves of its own are enough, whatever happens in between (\<open>trace_finishes\<close>). And it leaves nothing behind:
  a reservation in the store is always that of a settlement that still has to end (\<open>covered\<close>), with or without a
  restriction on the collector.
\<close>

datatype label = Arrives VerifyRequest | Runs nat | Collects gotime | Elapses

inductive act ::
  "cosmos_sdk \<Rightarrow> ('s, 'e) Verifier \<Rightarrow> (gotime \<Rightarrow> 's \<Rightarrow> nat \<times> 's) \<Rightarrow> ('e \<Rightarrow> payment list) \<Rightarrow>
    ((VerifyRequest \<times> phase) list \<Rightarrow> gotime \<Rightarrow> bool) \<Rightarrow> label \<Rightarrow> ('s, 'e) config \<Rightarrow> ('s, 'e) config \<Rightarrow> bool"
  for S v gc sent guard where
  arrives: "act S v gc sent guard (Arrives req) (ts, s, e) (ts @ [(req, Arrived)], s, e)"
| runs: "i < length ts \<Longrightarrow> ts ! i = (req, ph) \<Longrightarrow> advance S v req (ph, s, e) = (ph', s', e') \<Longrightarrow>
    act S v gc sent guard (Runs i) (ts, s, e) (ts[i := (req, ph')], s', e')"
| collects: "guard ts now \<Longrightarrow> act S v gc sent guard (Collects now) (ts, s, e) (ts, snd (gc now s), e)"
| elapses: "sent e' = sent e \<Longrightarrow> act S v gc sent guard Elapses (ts, s, e) (ts, s, e')"

inductive_simps act_Runs: "act S v gc sent guard (Runs i) c c'"
inductive_simps act_Arrives: "act S v gc sent guard (Arrives req) c c'"
inductive_simps act_Collects: "act S v gc sent guard (Collects now) c c'"
inductive_simps act_Elapses: "act S v gc sent guard Elapses c c'"

lemmas act_simps = act_Runs act_Arrives act_Collects act_Elapses

lemma step_iff_act: "step S v gc sent guard c c' \<longleftrightarrow> (\<exists>l. act S v gc sent guard l c c')"
proof
  assume "step S v gc sent guard c c'"
  then show "\<exists>l. act S v gc sent guard l c c'"
    by cases (metis act.intros)+
next
  assume "\<exists>l. act S v gc sent guard l c c'"
  then obtain l where "act S v gc sent guard l c c'" ..
  then show "step S v gc sent guard c c'"
    by cases (metis step.intros)+
qed

inductive trace ::
  "cosmos_sdk \<Rightarrow> ('s, 'e) Verifier \<Rightarrow> (gotime \<Rightarrow> 's \<Rightarrow> nat \<times> 's) \<Rightarrow> ('e \<Rightarrow> payment list) \<Rightarrow>
    ((VerifyRequest \<times> phase) list \<Rightarrow> gotime \<Rightarrow> bool) \<Rightarrow> label list \<Rightarrow> ('s, 'e) config \<Rightarrow> ('s, 'e) config \<Rightarrow> bool"
  for S v gc sent guard where
  stop: "trace S v gc sent guard [] c c"
| more: "act S v gc sent guard l c c1 \<Longrightarrow> trace S v gc sent guard ls c1 c2 \<Longrightarrow> trace S v gc sent guard (l # ls) c c2"

lemma trace_reaches: "trace S v gc sent guard ls c c' \<Longrightarrow> (step S v gc sent guard)\<^sup>*\<^sup>* c c'"
  by (induction rule: trace.induct) (auto simp: step_iff_act intro: converse_rtranclp_into_rtranclp)

lemma reaches_trace: "(step S v gc sent guard)\<^sup>*\<^sup>* c c' \<Longrightarrow> \<exists>ls. trace S v gc sent guard ls c c'"
proof (induction rule: converse_rtranclp_induct)
  case base
  show ?case by (blast intro: trace.stop)
next
  case (step c c1)
  then show ?case unfolding step_iff_act by (blast intro: trace.more)
qed

lemma trace_append:
  "trace S v gc sent guard ls c c1 \<Longrightarrow> trace S v gc sent guard ls' c1 c2 \<Longrightarrow> trace S v gc sent guard (ls @ ls') c c2"
  by (induction rule: trace.induct) (auto intro: trace.more)

text \<open>A settlement that nothing interrupts is a trace, and its end is that of \<open>Settle\<close>.\<close>

lemma trace_alone:
  "(advance S v req ^^ n) (ph, s, e) = (ph', s', e') \<Longrightarrow> i < length ts \<Longrightarrow> ts ! i = (req, ph) \<Longrightarrow>
    trace S v gc sent guard (replicate n (Runs i)) (ts, s, e) (ts[i := (req, ph')], s', e')"
proof (induction n arbitrary: ph s e ts)
  case 0
  then have "ts[i := (req, ph')] = ts" by (metis funpow_0 list_update_id prod.inject)
  with 0 show ?case by (auto intro: trace.stop)
next
  case (Suc n)
  obtain ph1 s1 e1 where one: "advance S v req (ph, s, e) = (ph1, s1, e1)" by (metis surj_pair)
  with Suc.prems(1) have "(advance S v req ^^ n) (ph1, s1, e1) = (ph', s', e')" by (simp add: funpow_swap1)
  from Suc.IH [OF this, of "ts[i := (req, ph1)]"] Suc.prems(2) act.runs [OF Suc.prems(2,3) one]
  show ?case by (auto intro: trace.more)
qed

lemma trace_Settle:
  assumes "Settle S (NewSettler v) req (s, e) = (r, s', e')"
  shows "trace S v gc sent guard (Arrives req # replicate 6 (Runs (length ts))) (ts, s, e) (ts @ [(req, Answered r)], s', e')"
proof -
  have "trace S v gc sent guard (replicate 6 (Runs (length ts))) (ts @ [(req, Arrived)], s, e)
      ((ts @ [(req, Arrived)])[length ts := (req, Answered r)], s', e')"
    by (rule trace_alone [OF uninterrupted [OF assms]]) simp_all
  then have "trace S v gc sent guard (replicate 6 (Runs (length ts))) (ts @ [(req, Arrived)], s, e)
      (ts @ [(req, Answered r)], s', e')" by simp
  with act.arrives show ?thesis by (rule trace.more)
qed

section \<open>A settlement that moves ends\<close>

text \<open>The moves a settlement still has to make, at most.\<close>

fun moves_left :: "phase \<Rightarrow> nat" where
  "moves_left Arrived = 6"
| "moves_left Checked = 5"
| "moves_left Fresh = 4"
| "moves_left (Verified _) = 3"
| "moves_left (Holding _) = 2"
| "moves_left (Broadcast _ _) = 1"
| "moves_left (Answered _) = 0"

lemma moves_left_0 [simp]: "moves_left ph = 0 \<longleftrightarrow> (\<exists>r. ph = Answered r)"
  by (cases ph) simp_all

lemma moves_left_le: "moves_left ph \<le> 6"
  by (cases ph) simp_all

lemma advance_moves: "advance S v req (ph, s, e) = (ph', s', e') \<Longrightarrow> moves_left ph' \<le> moves_left ph - 1"
  by (cases ph) (auto simp: Let_def split: sum.splits option.splits prod.splits)

lemma act_moves:
  assumes "act S v gc sent guard l (ts, s, e) (ts', s', e')" and "i < length ts"
  shows "i < length ts' \<and> fst (ts' ! i) = fst (ts ! i)
    \<and> moves_left (snd (ts' ! i)) \<le> moves_left (snd (ts ! i)) - (if l = Runs i then 1 else 0)"
  using assms(1)
proof cases
  case (runs j req ph ph')
  then show ?thesis using assms(2) advance_moves [OF runs(5)] by (auto simp: nth_list_update)
qed (use assms(2) in \<open>auto simp: nth_append\<close>)

lemma act_arrival:
  assumes "act S v gc sent guard l (ts, s, e) (ts', s', e')" and "\<not> i < length ts"
  shows "l \<noteq> Runs i \<and> (i < length ts' \<longrightarrow> moves_left (snd (ts' ! i)) = 6)"
  using assms(1) by cases (use assms(2) in \<open>auto simp: nth_append less_Suc_eq\<close>)

lemma trace_moves:
  assumes "trace S v gc sent guard ls c c'" and "i < length (fst c')"
  shows "moves_left (snd (fst c' ! i)) \<le> (if i < length (fst c) then moves_left (snd (fst c ! i)) else 6) - count_list ls (Runs i)"
  using assms
proof (induction rule: trace.induct)
  case (more l c c1 ls c2)
  obtain ts s e ts1 s1 e1 where c: "c = (ts, s, e)" "c1 = (ts1, s1, e1)" by (metis surj_pair)
  note act = more.hyps(1) [unfolded c]
  show ?case
  proof (cases "i < length ts")
    case True
    with act_moves [OF act this] more.IH more.prems show ?thesis by (auto simp: c)
  next
    case False
    with act_arrival [OF act this] more.IH more.prems show ?thesis by (auto simp: c split: if_splits)
  qed
qed simp

text \<open>Six moves of its own, and a settlement that came in later is answered.\<close>

lemma trace_finishes:
  assumes "trace S v gc sent guard ls ([], st) (ts, st')" and "i < length ts" and "6 \<le> count_list ls (Runs i)"
  shows "\<exists>r. snd (ts ! i) = Answered r"
  using trace_moves [OF assms(1), of i] assms(2,3) by simp

section \<open>Nothing is left behind\<close>

context local_facilitator
begin

definition covered :: "('s, 'e) config \<Rightarrow> bool" where
  "covered = (\<lambda>(ts, s, e). invar s \<and>
     (\<forall>k t. status s k = Reserved t \<longrightarrow>
        (\<exists>(req, ph) \<in> set ts. held ph \<and> request_key req = k \<and> t = time_Unix (a_ValidBefore (request_auth req)))))"

text \<open>Whatever the store held for the nonce, the end of a settlement leaves no reservation.\<close>

lemma finish_not_reserved:
  assumes "invar s"
  shows "status (finish_nonce v a r s) (key (a_From a) (a_ChainID a) (a_Nonce a)) \<noteq> Reserved t"
proof (cases "status s (key (a_From a) (a_ChainID a) (a_Nonce a))")
  case (Reserved u)
  from finish_status [OF assms this, of r] show ?thesis by (auto split: prod.splits option.splits)
next
  case (Consumed h)
  obtain opn where "finish_nonce v a r s = run_op ops opn s" using finish_step by blast
  with consumed_stable [OF assms, of "key (a_From a) (a_ChainID a) (a_Nonce a)" opn] Consumed show ?thesis by auto
next
  case Unseen
  obtain h err where r: "r = (h, err)" by fastforce
  show ?thesis
  proof (cases err)
    case None
    obtain u s1 where "ns_Commit ops (a_From a) (a_ChainID a) (a_Nonce a) h s = (u, s1)" by fastforce
    with commit_ok [OF assms, of "a_From a" "a_ChainID a" "a_Nonce a" h s1]
      commit_error [OF assms, of "a_From a" "a_ChainID a" "a_Nonce a" h _ s1] Unseen None r show ?thesis
      by (cases u) (auto simp: finish_nonce_def nonces)
  next
    case (Some x)
    obtain u s1 where "ns_Release ops (a_From a) (a_ChainID a) (a_Nonce a) s = (u, s1)" by fastforce
    with release_ok [OF assms, of "a_From a" "a_ChainID a" "a_Nonce a" s1]
      release_error [OF assms, of "a_From a" "a_ChainID a" "a_Nonce a" _ s1] Unseen Some r show ?thesis
      by (cases u) (auto simp: finish_nonce_def nonces)
  qed
qed

lemma advance_invar: "advance S v req (ph, s, e) = (ph', s', e') \<Longrightarrow> invar s \<Longrightarrow> invar s'"
  using check_nonce_keeps [of s "request_auth req"] reserve_None(3) [of "request_auth req" s] reserve_code(3) [of "request_auth req" s]
    finish_invar [of s "request_auth req"]
  by (cases ph) (auto simp: Let_def split: sum.splits option.splits prod.splits)

text \<open>A move creates at most its own reservation, and gives up its own when it ends.\<close>

lemma advance_reserves:
  assumes "advance S v req (ph, s, e) = (ph', s', e')" and "invar s" and "status s' k = Reserved t"
  shows "k = request_key req \<and> held ph' \<and> t = time_Unix (a_ValidBefore (request_auth req))
    \<or> status s k = Reserved t \<and> (k = request_key req \<longrightarrow> held ph \<longrightarrow> held ph')"
proof (cases ph)
  case Checked
  obtain u s1 where u: "check_nonce v (request_auth req) s = (u, s1)" by fastforce
  with Checked assms check_nonce_keeps [OF assms(2) u] show ?thesis by (auto split: option.splits)
next
  case (Verified payer)
  obtain u s1 where u: "reserve_nonce v (request_auth req) s = (u, s1)" by fastforce
  with Verified assms reserve_frame [OF u assms(2), of k] reserve_None [OF _ assms(2), of "request_auth req" s1]
    reserve_code [OF _ assms(2), of "request_auth req" _ s1]
  show ?thesis by (cases "k = request_key req") (auto split: option.splits)
next
  case (Broadcast payer r)
  with assms finish_not_reserved [OF assms(2), of "request_auth req" r t] finish_frame [OF assms(2), of k "request_auth req" r]
  show ?thesis by (cases "k = request_key req") auto
qed (use assms in \<open>auto simp: Let_def split: prod.splits sum.splits\<close>)

lemma covered_act:
  assumes "act S v gc sent guard l c c'" and "covered c"
  shows "covered c'"
  using assms(1)
proof cases
  case (runs i ts req ph s e ph' s' e')
  have inv: "invar s" using assms(2) runs by (simp add: covered_def)
  have "invar s'" using advance_invar [OF runs(6) inv] .
  moreover have "\<exists>(req', ph1) \<in> set (ts[i := (req, ph')]). held ph1 \<and> request_key req' = k
      \<and> t = time_Unix (a_ValidBefore (request_auth req'))" if k: "status s' k = Reserved t" for k t
  proof -
    have new: "(req, ph') \<in> set (ts[i := (req, ph')])" using runs(4) by (rule set_update_memI)
    from advance_reserves [OF runs(6) inv k] show ?thesis
    proof
      assume "k = request_key req \<and> held ph' \<and> t = time_Unix (a_ValidBefore (request_auth req))"
      with new show ?thesis by blast
    next
      assume old: "status s k = Reserved t \<and> (k = request_key req \<longrightarrow> held ph \<longrightarrow> held ph')"
      then obtain j where j: "j < length ts" "held (snd (ts ! j))" "request_key (fst (ts ! j)) = k"
          "t = time_Unix (a_ValidBefore (request_auth (fst (ts ! j))))"
        using assms(2) runs(2) by (fastforce simp: covered_def in_set_conv_nth)
      show ?thesis
      proof (cases "j = i")
        case True
        with j old new runs(5) show ?thesis by auto
      next
        case False
        then have "ts ! j \<in> set (ts[i := (req, ph')])"
          using j(1) by (metis length_list_update nth_list_update_neq nth_mem)
        with j show ?thesis by (intro bexI [of _ "ts ! j"]) (auto split: prod.splits)
      qed
    qed
  qed
  ultimately show ?thesis by (simp add: covered_def runs)
next
  case (collects ts now s e)
  with assms(2) gc_invar [of s now] gc_status [of s now] show ?thesis
    by (fastforce simp: covered_def split: nonce_status.splits if_splits)
qed (use assms(2) in \<open>auto simp: covered_def\<close>)

lemma covered_trace: "trace S v gc sent guard ls c c' \<Longrightarrow> covered c \<Longrightarrow> covered c'"
  by (induction rule: trace.induct) (auto intro: covered_act)

lemma leaves_no_reservation:
  assumes "trace S v gc sent guard ls ([], s, e) (ts, s', e')" and "invar s" and "\<And>k. status s k = Unseen"
    and "status s' k = Reserved t"
  shows "\<exists>i < length ts. held (snd (ts ! i)) \<and> request_key (fst (ts ! i)) = k \<and> count_list ls (Runs i) < 6"
proof -
  have "covered ([], s, e)" using assms(2,3) by (simp add: covered_def)
  with assms(1) have "covered (ts, s', e')" by (rule covered_trace)
  with assms(4) obtain i where i: "i < length ts" "held (snd (ts ! i))" "request_key (fst (ts ! i)) = k"
    by (fastforce simp: covered_def in_set_conv_nth)
  moreover have "\<not> 6 \<le> count_list ls (Runs i)"
    using trace_finishes [OF assms(1) i(1)] i(2) by auto
  ultimately show ?thesis by (intro exI [of _ i]) simp
qed

end

end
