(* ===== verification/Broadcasts.thy ===== *)
theory Broadcasts
  imports Noble
begin

text \<open>
  \<open>BroadcastAuthzSend\<close> in the pieces that other settlements can come between: it asks for the account's sequence number, it signs and
  submits a transaction with this number, and it waits. Nothing in the program keeps two settlements of the same facilitator from
  asking before either submits. A chain takes a sequence number once (\<open>takes_sequence_once\<close>, the documented behaviour of the chain's
  signature check), so the second transaction is refused, whatever its payer has granted and owns.
\<close>

text \<open>Up to the sequence number.\<close>

definition prepare_broadcast ::
  "tx_sdk \<Rightarrow> 'x network \<Rightarrow> NobleClient \<Rightarrow> payment \<Rightarrow> 'x world \<Rightarrow> (goerr + sdk_msg \<times> uint64 \<times> uint64) \<times> 'x world" where
  "prepare_broadcast T N c p w =
     (case wrap ''parse coin: %w'' (ParseCoinNormalized T (pay_text p)) of
        Inl err \<Rightarrow> (Inl err, w)
      | Inr coin \<Rightarrow>
     (case wrap ''parse facilitator addr: %w''
             (AccAddressFromBech32 T (fst (account_prefix (w_config w))) (nc_address c)) of
        Inl err \<Rightarrow> (Inl err, w)
      | Inr facilitatorAcc \<Rightarrow>
     (case queryAccountNumSeq N c (nc_address c) w of
        (Inl err, w1) \<Rightarrow> (Inl (Errorf ''query account: %w'' [AErrW err]), w1)
      | (Inr (accNum, accSeq), w1) \<Rightarrow>
          (Inr (exec_send T facilitatorAcc (pay_from p) (pay_to p) coin, accNum, accSeq), w1))))"

text \<open>Building, signing and submitting: the hash of the transaction that was taken.\<close>

definition submit_broadcast ::
  "cosmos_sdk \<Rightarrow> tx_sdk \<Rightarrow> 'x network \<Rightarrow> NobleClient \<Rightarrow> payment \<Rightarrow> sdk_msg \<Rightarrow> uint64 \<Rightarrow> uint64 \<Rightarrow> 'x world \<Rightarrow>
    (goerr + bytes) \<times> 'x world" where
  "submit_broadcast S T N c p exec accNum accSeq w =
     (case build_exec_tx S T c exec accNum accSeq of
        Inl err \<Rightarrow> (Inl err, w)
      | Inr (t, txBytes) \<Rightarrow>
     (case call (CallBroadcast (Some p) t) (BroadcastTxSync N txBytes) w of
        (Inl err, w1) \<Rightarrow> (Inl (Errorf ''%w: %v'' [AErrW ErrChainRPC, AErrV (Foreign err)]), w1)
      | (Inr res, w1) \<Rightarrow>
          if br_Code res \<noteq> 0 then
            (Inl (Errorf ''broadcast rejected: code=%d log=%q'' [AInt (int (br_Code res)), AStr (br_Log res)]), w1)
          else (Inr (br_Hash res), w1)))"

definition await_broadcast :: "'x network \<Rightarrow> bytes \<Rightarrow> 'x world \<Rightarrow> (string \<times> goerr option) \<times> 'x world" where
  "await_broadcast N hash w =
     (let (err, w1) = waitForTx N hash (30 * second) w in
      ((to_upper (hex_EncodeToString hash), map_option (\<lambda>err. Errorf ''wait for inclusion: %w'' [AErrW err]) err), w1))"

lemma BroadcastAuthzSend_pieces:
  "BroadcastAuthzSend S T N c from to denom amount w =
    (let p = \<lparr>pay_from = from, pay_to = to, pay_text = amount @ denom\<rparr> in
     case prepare_broadcast T N c p w of
       (Inl err, w1) \<Rightarrow> (([], Some err), w1)
     | (Inr (exec, accNum, accSeq), w1) \<Rightarrow>
    (case submit_broadcast S T N c p exec accNum accSeq w1 of
       (Inl err, w2) \<Rightarrow> (([], Some err), w2)
     | (Inr hash, w2) \<Rightarrow> await_broadcast N hash w2))"
  by (auto simp: BroadcastAuthzSend_def prepare_broadcast_def submit_broadcast_def await_broadcast_def exec_send_def Let_def
      split: sum.splits prod.splits option.splits)

section \<open>Sequence numbers\<close>

text \<open>\<open>next_seq\<close> is the sequence number that the chain expects of the facilitator's account; a transaction it takes has this one, and uses it up.\<close>

definition takes_sequence_once :: "'x network \<Rightarrow> tx_config \<Rightarrow> ('x \<Rightarrow> nat) \<Rightarrow> bool" where
  "takes_sequence_once N X next_seq \<longleftrightarrow>
     (\<forall>t bz x res d x'. TxEncoder X t = Inr bz \<longrightarrow> BroadcastTxSync N bz x = (Inr res, d, x') \<longrightarrow> br_Code res = 0 \<longrightarrow>
        map (\<lambda>s. unat (sig_Sequence s)) (tx_Signatures t) = [next_seq x] \<and> next_seq x < next_seq x')"

lemma submitted_sequence:
  assumes "takes_sequence_once N (nc_txConfig c) next_seq" and "submit_broadcast S T N c p exec accNum accSeq w = (Inr hash, w1)"
  shows "next_seq (w_ext w) = unat accSeq" and "unat accSeq < next_seq (w_ext w1)"
proof -
  obtain t txBytes res where b: "build_exec_tx S T c exec accNum accSeq = Inr (t, txBytes)"
    and r: "call (CallBroadcast (Some p) t) (BroadcastTxSync N txBytes) w = (Inr res, w1)" and ok: "br_Code res = 0"
    using assms(2) by (auto simp: submit_broadcast_def split: sum.splits prod.splits if_splits)
  obtain sig where "TxEncoder (nc_txConfig c) t = Inr txBytes" "tx_Signatures t = [sig]" "sig_Sequence sig = accSeq"
    using build_exec_tx_Inr [OF b] by (metis exec_tx_def signature_v2.select_convs(4) tx.select_convs(6))
  moreover obtain d where "BroadcastTxSync N txBytes (w_ext w) = (Inr res, d, w_ext w1)"
    using r by (auto simp: call_def Let_def split: prod.splits)
  ultimately have "map (\<lambda>s. unat (sig_Sequence s)) [sig] = [next_seq (w_ext w)] \<and> next_seq (w_ext w) < next_seq (w_ext w1)"
    using assms(1) ok unfolding takes_sequence_once_def by metis
  with \<open>sig_Sequence sig = accSeq\<close> show "next_seq (w_ext w) = unat accSeq" and "unat accSeq < next_seq (w_ext w1)" by auto
qed

text \<open>Of two submissions with the same number, the later one is refused.\<close>

lemma same_sequence_refused:
  assumes "takes_sequence_once N (nc_txConfig c) next_seq"
    and "submit_broadcast S T N c p exec accNum accSeq w = (Inr hash, w1)" and "next_seq (w_ext w1) \<le> next_seq (w_ext w2)"
  shows "\<exists>err w3. submit_broadcast S T N c p' exec' accNum' accSeq w2 = (Inl err, w3)"
proof -
  obtain r w3 where run: "submit_broadcast S T N c p' exec' accNum' accSeq w2 = (r, w3)" by fastforce
  show ?thesis
  proof (cases r)
    case (Inr hash')
    with submitted_sequence(1) [OF assms(1) run [unfolded Inr]] submitted_sequence(2) [OF assms(1,2)] assms(3)
    show ?thesis by simp
  qed (use run in blast)
qed

end
