(* ===== verification/Hazards.thy ===== *)
theory Hazards
  imports Instances EndToEnd Progress Broadcasts
begin

text \<open>
  Executions of the program, on the packages and endpoints of \<open>Instances\<close>, in which a nonce is paid more
  than once: a collection of the store that drops the reservation of a settlement in flight, and a broadcast
  whose confirmation comes after its timeout. Then the payment is settled twice in a row, two broadcasts share a sequence number, and the payment is sent through the middleware. The first two show that the guard \<open>spares_in_flight\<close> of the exclusion
  theorem is needed, and that "one success per nonce" is not "one payment per nonce".
\<close>

section \<open>The pieces of a settlement of the payment\<close>

lemma demo_network [simp]: "pp_Network demo_payload = ''cosmos:grand-1''"
  by (simp add: demo_payload_def)

lemma demo_lookup [simp]: "map_of (vf_chains demo_verifier) ''cosmos:grand-1'' = Some demo_chain"
  using demo_client_of by simp

lemma advance_request:
  assumes "1000 \<le> t" and "t < 1060"
  shows "advance demo_sdk demo_verifier demo_request (Arrived, m, demo_world t cs x) = (Checked, m, demo_world t cs x)"
  by (simp add: demo_check_request [OF assms])

lemma advance_nonce:
  "advance demo_sdk demo_verifier demo_request (Checked, NewMemoryNonceStore, e) = (Fresh, NewMemoryNonceStore, e)"
  by (simp add: NewMemoryNonceStore_def)

lemma advance_chain:
  "advance demo_sdk demo_verifier demo_request (Fresh, m, demo_world t cs x)
    = (Verified demo_payer, m, demo_world t (cs @ demo_queries) x)"
  using demo_check_chain [of t cs x] demo_lookup by (simp del: main_verifier_simps)

lemma advance_reserve:
  "advance demo_sdk demo_verifier demo_request (Verified demo_payer, NewMemoryNonceStore, e)
    = (Holding demo_payer, demo_store (demo_state False []), e)"
  by simp

lemma demo_auth_sel [simp]: "a_From demo_auth = demo_payer" "a_To demo_auth = ''noble1seller''"
  "a_Denom demo_auth = ''uusdc''" "a_Amount demo_auth = ''10000''" "a_ChainID demo_auth = ''grand-1''"
  "a_Nonce demo_auth = ''0x01''" "a_ValidBefore demo_auth = 1060"
  by (simp_all add: demo_auth_def)

lemma advance_broadcast:
  "advance demo_sdk demo_verifier demo_request (Holding demo_payer, m, demo_world t cs 1)
    = (Broadcast demo_payer (''4A'', None), m, demo_world t (cs @ demo_sends) 1)"
  using demo_lookup by (simp add: demo_broadcast Let_def del: main_verifier_simps)

lemma advance_finish:
  "advance demo_sdk demo_verifier demo_request (Broadcast demo_payer (''4A'', None), demo_store (demo_state c h), e)
    = (Answered (settle_paid ''4A'' ''cosmos:grand-1'' demo_payer), demo_store (demo_state True ''4A''), e)"
  by (simp add: broadcast_response_def finish_nonce_def Commit_def demo_store_def demo_state_def Let_def)

section \<open>A collection in between\<close>

abbreviation (input) demo_step where
  "demo_step \<equiv> step demo_sdk demo_verifier GC sent_payments any_time"

abbreviation (input) two_phases :: "phase \<Rightarrow> phase \<Rightarrow> (VerifyRequest \<times> phase) list" where
  "two_phases a b \<equiv> [(demo_request, a), (demo_request, b)]"

lemma first_advances:
  "advance demo_sdk demo_verifier demo_request (a, s, e) = (a', s', e') \<Longrightarrow>
    demo_step (two_phases a b, s, e) (two_phases a' b, s', e')"
  using step.run [of 0 "two_phases a b" demo_request a] by simp

lemma second_advances:
  "advance demo_sdk demo_verifier demo_request (b, s, e) = (b', s', e') \<Longrightarrow>
    demo_step (two_phases a b, s, e) (two_phases a b', s', e')"
  using step.run [of 1 "two_phases a b" demo_request b] by simp

lemma GC_drops_reservation:
  "snd (GC (time_Unix 1061) (demo_store (demo_state False []))) = NewMemoryNonceStore"
  by (simp add: GC_def demo_store_def demo_state_def NewMemoryNonceStore_def After_def time_Unix_def
      unixToInternal_def)

lemma first_is_held:
  "demo_step\<^sup>*\<^sup>* ([], NewMemoryNonceStore, demo_world 1050 [] 1)
    (two_phases (Holding demo_payer) Fresh, demo_store (demo_state False []), demo_world 1050 demo_queries 1)"
proof -
  have now: "advance demo_sdk demo_verifier demo_request (Arrived, m, demo_world 1050 cs x) = (Checked, m, demo_world 1050 cs x)"
    for m cs x using advance_request [of 1050] by (simp del: advance.simps)
  have "demo_step\<^sup>*\<^sup>* ([], NewMemoryNonceStore, demo_world 1050 [] 1)
      (two_phases Arrived Arrived, NewMemoryNonceStore, demo_world 1050 [] 1)"
    by (rule two_arrivals)
  also have "demo_step\<^sup>*\<^sup>* \<dots> (two_phases Checked Checked, NewMemoryNonceStore, demo_world 1050 [] 1)"
    using first_advances [OF now] second_advances [OF now] by (meson converse_rtranclp_into_rtranclp r_into_rtranclp)
  also have "demo_step\<^sup>*\<^sup>* \<dots> (two_phases Fresh Fresh, NewMemoryNonceStore, demo_world 1050 [] 1)"
    using first_advances [OF advance_nonce] second_advances [OF advance_nonce]
    by (meson converse_rtranclp_into_rtranclp r_into_rtranclp)
  also have "demo_step \<dots> (two_phases (Verified demo_payer) Fresh, NewMemoryNonceStore, demo_world 1050 demo_queries 1)"
    using first_advances [OF advance_chain [of _ 1050 "[]"]] by simp
  also have "demo_step \<dots> (two_phases (Holding demo_payer) Fresh, demo_store (demo_state False []), demo_world 1050 demo_queries 1)"
    by (rule first_advances [OF advance_reserve])
  finally show ?thesis .
qed

lemma both_are_held:
  "demo_step\<^sup>*\<^sup>* ([], NewMemoryNonceStore, demo_world 1050 [] 1)
    (two_phases (Holding demo_payer) (Holding demo_payer), demo_store (demo_state False []),
     demo_world 1061 (demo_queries @ demo_queries) 1)"
proof -
  note first_is_held
  also have "demo_step (two_phases (Holding demo_payer) Fresh, demo_store (demo_state False []), demo_world 1050 demo_queries 1)
      (two_phases (Holding demo_payer) Fresh, demo_store (demo_state False []), demo_world 1061 demo_queries 1)"
    by (rule step.elapse) (simp add: sent_payments_def)
  also have "demo_step \<dots> (two_phases (Holding demo_payer) Fresh, NewMemoryNonceStore, demo_world 1061 demo_queries 1)"
    using step.collect [of any_time "two_phases (Holding demo_payer) Fresh" "time_Unix 1061" demo_sdk demo_verifier GC
        sent_payments "demo_store (demo_state False [])"]
    by (simp add: any_time_def GC_drops_reservation)
  also have "demo_step \<dots> (two_phases (Holding demo_payer) (Verified demo_payer), NewMemoryNonceStore,
      demo_world 1061 (demo_queries @ demo_queries) 1)"
    by (rule second_advances [OF advance_chain])
  also have "demo_step \<dots> (two_phases (Holding demo_payer) (Holding demo_payer), demo_store (demo_state False []),
      demo_world 1061 (demo_queries @ demo_queries) 1)"
    by (rule second_advances [OF advance_reserve])
  finally show ?thesis .
qed

lemma both_succeed:
  "demo_step\<^sup>*\<^sup>* ([], NewMemoryNonceStore, demo_world 1050 [] 1)
    (let paid = Answered (settle_paid ''4A'' ''cosmos:grand-1'' demo_payer) in two_phases paid paid,
     demo_store (demo_state True ''4A''), demo_world 1061 (demo_queries @ demo_queries @ demo_sends @ demo_sends) 1)"
  unfolding Let_def
proof -
  note both_are_held
  also have "demo_step (two_phases (Holding demo_payer) (Holding demo_payer), demo_store (demo_state False []),
      demo_world 1061 (demo_queries @ demo_queries) 1)
    (two_phases (Broadcast demo_payer (''4A'', None)) (Holding demo_payer), demo_store (demo_state False []),
      demo_world 1061 (demo_queries @ demo_queries @ demo_sends) 1)"
    using first_advances [OF advance_broadcast [of _ 1061 "demo_queries @ demo_queries"]] by simp
  also have "demo_step \<dots>
    (two_phases (Broadcast demo_payer (''4A'', None)) (Broadcast demo_payer (''4A'', None)), demo_store (demo_state False []),
      demo_world 1061 (demo_queries @ demo_queries @ demo_sends @ demo_sends) 1)"
    using second_advances [OF advance_broadcast [of _ 1061 "demo_queries @ demo_queries @ demo_sends"]] by simp
  also have "demo_step \<dots>
    (two_phases (Answered (settle_paid ''4A'' ''cosmos:grand-1'' demo_payer)) (Broadcast demo_payer (''4A'', None)),
      demo_store (demo_state True ''4A''), demo_world 1061 (demo_queries @ demo_queries @ demo_sends @ demo_sends) 1)"
    by (rule first_advances [OF advance_finish])
  also have "demo_step \<dots>
    (two_phases (Answered (settle_paid ''4A'' ''cosmos:grand-1'' demo_payer)) (Answered (settle_paid ''4A'' ''cosmos:grand-1'' demo_payer)),
      demo_store (demo_state True ''4A''), demo_world 1061 (demo_queries @ demo_queries @ demo_sends @ demo_sends) 1)"
    by (rule second_advances [OF advance_finish])
  finally show "demo_step\<^sup>*\<^sup>* ([], NewMemoryNonceStore, demo_world 1050 [] 1)
    (two_phases (Answered (settle_paid ''4A'' ''cosmos:grand-1'' demo_payer)) (Answered (settle_paid ''4A'' ''cosmos:grand-1'' demo_payer)),
      demo_store (demo_state True ''4A''), demo_world 1061 (demo_queries @ demo_queries @ demo_sends @ demo_sends) 1)" .
qed

lemma demo_sent [simp]: "sent_in demo_queries = []" "sent_in demo_sends = [payment_of demo_request]"
  by (simp_all add: demo_queries_def demo_sends_def)

section \<open>Two settlements of the payment\<close>

text \<open>Two settlements of the payment, one after the other.\<close>

definition demo_labels :: "label list" where
  "demo_labels = (Arrives demo_request # replicate 6 (Runs 0)) @ Arrives demo_request # replicate 6 (Runs 1)"

abbreviation demo_paid :: SettleResponse where
  "demo_paid \<equiv> settle_paid ''4A'' ''cosmos:grand-1'' demo_payer"

lemma demo_labels_count: "count_list demo_labels (Runs 0) = 6" "count_list demo_labels (Runs 1) = 6"
proof -
  have six: "replicate 6 x = [x, x, x, x, x, x]" for x :: label by (simp add: eval_nat_numeral)
  show "count_list demo_labels (Runs 0) = 6" "count_list demo_labels (Runs 1) = 6"
    by (simp_all add: demo_labels_def six)
qed

lemma demo_twice:
  "\<exists>r m w. trace demo_sdk demo_verifier GC sent_payments guard demo_labels ([], NewMemoryNonceStore, demo_world 1010 [] 1)
      ([(demo_request, Answered demo_paid), (demo_request, Answered r)], m, w)"
proof -
  have one: "Settle demo_sdk (NewSettler demo_verifier) demo_request (NewMemoryNonceStore, demo_world 1010 [] 1) =
      (demo_paid, demo_store (demo_state True ''4A''), demo_world 1010 (demo_queries @ demo_sends) 1)"
    using demo_Settle [of 1010 "[]" 1] by simp
  obtain r m w where two: "Settle demo_sdk (NewSettler demo_verifier) demo_request
      (demo_store (demo_state True ''4A''), demo_world 1010 (demo_queries @ demo_sends) 1) = (r, m, w)" by (metis surj_pair)
  have "trace demo_sdk demo_verifier GC sent_payments guard demo_labels ([], NewMemoryNonceStore, demo_world 1010 [] 1)
      ([(demo_request, Answered demo_paid), (demo_request, Answered r)], m, w)"
    unfolding demo_labels_def
    using trace_Settle [OF one, of GC sent_payments guard "[]"] trace_Settle [OF two, of GC sent_payments guard "[(demo_request, Answered demo_paid)]"]
    by (intro trace_append) simp_all
  then show ?thesis by blast
qed

section \<open>Two broadcasts with one sequence number\<close>

text \<open>A chain whose outside is the next sequence number of the facilitator's account.\<close>

definition seq_net :: "nat network" where
  "seq_net = demo_net
     \<lparr>Account := (\<lambda>a x. (Inr (replicate x (CHR ''a'')), 0, x)),
      BroadcastTxSync := (\<lambda>bz x. (if length bz = x then (Inr \<lparr>br_Code = 0, br_Log = [], br_Hash = ''J''\<rparr>, 0, Suc x)
        else (Inr \<lparr>br_Code = 32, br_Log = ''account sequence mismatch'', br_Hash = ''J''\<rparr>, 0, x)))\<rparr>"

definition seq_client :: NobleClient where
  "seq_client = demo_client
     \<lparr>nc_cdc := demo_cdc\<lparr>UnpackAccount := (\<lambda>any. Inr (7, of_nat (length any)))\<rparr>,
      nc_txConfig := demo_txConfig
        \<lparr>SignaturesError := (\<lambda>sigs. if length sigs = 1 then None else Some (Foreign ''one signer'')),
         TxEncoder := (\<lambda>t. case tx_Signatures t of [s] \<Rightarrow> Inr (replicate (unat (sig_Sequence s)) (CHR ''t'')) | _ \<Rightarrow> Inl (Foreign ''one signer''))\<rparr>\<rparr>"

lemma seq_once: "takes_sequence_once seq_net (nc_txConfig seq_client) id"
  by (auto simp: takes_sequence_once_def seq_net_def seq_client_def split: list.splits if_splits)

definition seq_payment :: "string \<Rightarrow> payment" where
  "seq_payment payer = \<lparr>pay_from = payer, pay_to = ''noble1seller'', pay_text = ''10000uusdc''\<rparr>"

lemma seq_prepare: "\<exists>exec w'. prepare_broadcast demo_tx seq_net seq_client (seq_payment payer) w = (Inr (exec, 7, of_nat (w_ext w)), w')
    \<and> w_ext w' = w_ext w"
  by (simp add: prepare_broadcast_def queryAccountNumSeq_def seq_payment_def seq_net_def seq_client_def demo_tx_def call_def Let_def)

lemma seq_submit:
  assumes "w_ext w = 5"
  shows "\<exists>w'. submit_broadcast demo_sdk demo_tx seq_net seq_client p exec 7 5 w = (Inr ''J'', w') \<and> w_ext w' = 6"
  using assms
  by (simp add: submit_broadcast_def build_exec_tx_def SetMsgs_def SetSignatures_def NewTxBuilder_def seq_net_def seq_client_def
      demo_txConfig_def demo_sdk_def call_def Let_def)

section \<open>The payment behind the middleware\<close>

definition demo_cfg :: Config where
  "demo_cfg = \<lparr>mw_PayTo = ''noble1seller'', mw_Asset = ''uusdc'', mw_Amount = ''10000'', mw_Network = ''cosmos:grand-1'',
     mw_FacilitatorURL = ''http://facilitator'', mw_FacilitatorAddr = ''noble1facilitator'', mw_MaxTimeoutSeconds = 0,
     mw_Description = [], mw_MimeType = [], mw_Decimals = 6, mw_Symbol = ''USDC'', mw_HTTPClient = None\<rparr>"

definition demo_header :: string where
  "demo_header = base64_Encode (json_print (PaymentPayload_json demo_payload))"

definition demo_get :: http_request where
  "demo_get = \<lparr>r_Method = ''GET'', r_Host = ''shop'', r_Path = ''/premium'', r_TLS = False,
     r_Header = header_Set ''PAYMENT-SIGNATURE'' demo_header [], r_Body = []\<rparr>"

lemma demo_cfg_valid: "valid_config demo_cfg" "valid_utf8 (r_Host demo_get)" "valid_utf8 (r_Path demo_get)"
  by (simp_all add: valid_config_def demo_cfg_def demo_get_def)

lemma canonical_forwarded [simp]: "canonical ''X-Forwarded-Proto'' = ''X-Forwarded-Proto''"
  by code_simp

lemma demo_buildRequirements [simp]: "buildRequirements (with_defaults demo_cfg) demo_get = demo_requirements"
  by (simp add: buildRequirements_def demo_get_def demo_cfg_def demo_requirements_def)

lemma demo_decodes: "decodePayload jerr (header_Get (r_Header demo_get) ''PAYMENT-SIGNATURE'') = Inr demo_payload"
proof -
  have "valid_Payload demo_payload" using demo_valid_request by (simp add: valid_Request_def)
  then have "Unmarshal PaymentPayload_fields PaymentPayload_zero (json_print (PaymentPayload_json demo_payload)) = Some demo_payload"
    by (rule payload.Unmarshal_Marshal)
  then show ?thesis
    by (simp add: decodePayload_def demo_get_def demo_header_def) (simp add: demo_payload_def)
qed

lemma demo_settle_request [simp]: "settle_request demo_payload demo_requirements = demo_request"
  by (simp add: settle_request_def demo_request_def)

abbreviation demo_env :: "(nat \<Rightarrow> delivery) \<Rightarrow> (MemoryNonceStore \<times> nat world) http_env" where
  "demo_env link \<equiv> facilitator_env demo_sdk demo_tx demo_net demo_client (\<lambda>_. []) (mw_FacilitatorURL demo_cfg) link"

end
