(* ===== verification/DemoRun.thy ===== *)
theory DemoRun
  imports Payer Hazards
begin

text \<open>
  The demo client, server and facilitator on the packages and endpoints of \<open>Instances\<close>: a run in which an honest
  client pays and is served. The clock stands at 1010 seconds, the random bytes are 32 times the same one.
\<close>

definition demo_getenv :: "string \<Rightarrow> string" where
  "demo_getenv k =
     (if k = ''X402_SERVER_URL'' then ''http://shop/premium'' else if k = ''X402_PAYER_MNEMONIC'' then ''k'' else [])"

definition demo_rand :: "nat \<Rightarrow> nat world \<Rightarrow> (goerr + bytes) \<times> nat world" where
  "demo_rand n w = (Inr (replicate n (CHR ''r'')), w)"

abbreviation demo_now :: int64 where
  "demo_now \<equiv> Unix (gotime_of (1010 * second))"

abbreviation fresh_auth :: Authorization where
  "fresh_auth \<equiv> make_authorization demo_requirements demo_payer (run_nonce demo_getenv (replicate 32 (CHR ''r''))) demo_now False"

lemma demo_now_value: "unat demo_now = 1010"
  by (simp add: Unix_gotime_of second_def)

lemma demo_shop_requirements [simp]: "shop_requirements demo_cfg ''shop'' = demo_requirements"
  by (simp add: buildRequirements_def premium_request_def demo_cfg_def demo_requirements_def Let_def)

lemma demo_signature_scheme: "signature_scheme demo_sdk"
  by (auto simp: signature_scheme_def demo_sdk_def demo_mix_def)

lemma demo_derived: "deriveKey demo_sdk (demo_getenv ''X402_PAYER_MNEMONIC'') ''noble'' = Inr (demo_key, demo_payer)"
proof -
  have trim: "trim_space ''k'' = ''k''" by code_simp
  have key: "take 33 (''k'' @ replicate 33 (CHR ''k'')) = demo_key" by (simp add: demo_key_def numeral_eq_Suc)
  have addr: "CHR ''k'' # replicate 19 (CHR ''k'') = take 20 demo_key" by (simp add: demo_key_def numeral_eq_Suc)
  show ?thesis
    using key addr by (simp add: deriveKey_def derive_trimmed_def demo_getenv_def trim demo_sdk_def demo_payer_def Let_def)
qed

lemma demo_payer_valid: "valid_utf8 demo_payer"
  using demo_payer_text by (intro valid_utf8_ascii) (simp add: list_all_iff)

lemma demo_preimage_signed:
  assumes "valid_Authorization a" and "exact_times a"
  shows "\<exists>sg pk. sign_authorization demo_sdk demo_key a = Inr (sg, pk)"
proof -
  have "ADR036Preimage demo_sdk a = Inr (preimage_text a)"
    using adr036Preimage_eq [OF _ assms, of demo_sdk] by (simp add: ADR036Preimage_def demo_sdk_def sorts_json_sort_text)
  then show ?thesis by (simp add: sign_authorization_def) (simp add: demo_sdk_def)
qed

lemma demo_signed_fresh: "\<exists>sg pk. signAuth demo_sdk demo_key fresh_auth = Inr (sg, pk)"
  unfolding signAuth_def
proof (rule demo_preimage_signed)
  have "valid_Requirements demo_requirements"
    using demo_valid_request by (simp add: valid_Request_def)
  then show "valid_Authorization fresh_auth"
    using run_nonce_valid demo_payer_valid by (simp add: valid_Authorization_def valid_Requirements_def valid_Extra_def)
  show "exact_times fresh_auth"
    using authorization_window [of demo_now] demo_now_value by (simp add: exact_times_def)
qed

lemma demo_grant: "grant_covers demo_verifier demo_chain (settle_request (make_payload demo_requirements fresh_auth sg pk) demo_requirements)
    (demo_world t cs x) (demo_world t (cs @ [CallGrants demo_payer ''noble1facilitator'' (MsgSendTypeURL demo_tx)]) x)"
  by (simp add: grant_covers_def demo_requirements_def QuerySendAuthorization_def demo_tx_def
      demo_amounts check_expiry_def Let_def)

lemma demo_balance: "balance_covers demo_chain fresh_auth (demo_world t cs x) (demo_world t (cs @ [CallBalance demo_payer ''uusdc'']) x)"
  by (simp add: balance_covers_def demo_requirements_def QueryBalance_def demo_amounts)

end
