(* ===== verification/Grant.thy ===== *)
theory Grant
  imports Keys Noble
begin

text \<open>
  \<open>tools/grant/main.go\<close>: one transaction with a \<open>MsgGrant\<close> from the payer to the facilitator. The flags are what
  package \<open>flag\<close> makes of the command line: \<open>flag name\<close> is the text given for a flag, if any, and
  \<open>parse_duration\<close> its \<open>time.Duration\<close> (nanoseconds) for the one flag that has one. A boolean flag that is given is its parsed value.
\<close>

record grant_flags =
  gf_mnemonic :: string
  gf_grantee :: string
  gf_spendLimit :: string
  gf_expiration :: int
  gf_chainID :: string
  gf_prefix :: string
  gf_grpcEndpoint :: string
  gf_grpcTLS :: bool
  gf_rpcEndpoint :: string
  gf_gasDenom :: string

definition grant_parse ::
  "(string \<Rightarrow> string) \<Rightarrow> (string \<Rightarrow> string option) \<Rightarrow> (string \<Rightarrow> int) \<Rightarrow> (string \<Rightarrow> bool) \<Rightarrow> grant_flags" where
  "grant_parse Getenv flag parse_duration parse_bool =
     \<lparr>gf_mnemonic = flag_or flag ''mnemonic'' (Getenv ''PAYER_MNEMONIC''),
      gf_grantee = flag_or flag ''grantee'' [],
      gf_spendLimit = flag_or flag ''spend-limit'' ''1000000uusdc'',
      gf_expiration = (case flag ''expiration'' of Some v \<Rightarrow> parse_duration v | None \<Rightarrow> 24 * 3600 * 1000000000),
      gf_chainID = flag_or flag ''chain-id'' (envOr Getenv ''X402_NOBLE_CHAIN_ID'' ''grand-1''),
      gf_prefix = flag_or flag ''prefix'' (envOr Getenv ''X402_NOBLE_PREFIX'' ''noble''),
      gf_grpcEndpoint = flag_or flag ''grpc'' (envOr Getenv ''X402_NOBLE_GRPC'' ''noble-testnet-grpc.polkachu.com:21590''),
      gf_grpcTLS = (case flag ''grpc-tls'' of Some v \<Rightarrow> parse_bool v | None \<Rightarrow> Getenv ''X402_NOBLE_GRPC_TLS'' = ''true''),
      gf_rpcEndpoint = flag_or flag ''rpc'' (envOr Getenv ''X402_NOBLE_RPC'' ''https://noble-testnet-rpc.polkachu.com''),
      gf_gasDenom = flag_or flag ''gas-denom'' ''uusdc''\<rparr>"

definition grant_deriveKey :: "cosmos_sdk \<Rightarrow> string \<Rightarrow> string \<Rightarrow> goerr + bytes \<times> string" where
  "grant_deriveKey = derive_trimmed (Errorf ''invalid mnemonic'' [])"

text \<open>\<open>time.Time.Add\<close>, for a sum inside the range of \<open>int64\<close> seconds.\<close>

definition time_Add :: "gotime \<Rightarrow> int \<Rightarrow> gotime" where
  "time_Add t d =
     (let n = int (t_nsec t) + d in
      \<lparr>t_sec = t_sec t + of_int (n div 1000000000), t_nsec = nat (n mod 1000000000)\<rparr>)"

definition grant_gasLimit :: nat where
  "grant_gasLimit = 200000"

definition grant_dialGRPC :: "'x network \<Rightarrow> string \<Rightarrow> bool \<Rightarrow> 'x world \<Rightarrow> goerr option \<times> 'x world" where
  "grant_dialGRPC N endpoint useTLS w =
     (let (r, w1) = call (CallNewGRPC endpoint useTLS) (NewGRPC N endpoint useTLS) w
      in (map_option Foreign r, w1))"

text \<open>The context is \<open>context.Background()\<close>, which is never done.\<close>

definition background :: "'x network \<Rightarrow> 'x network" where
  "background N = N\<lparr>ctx_Done := (\<lambda>t x. (None, x))\<rparr>"

definition grant_waitForTx :: "'x network \<Rightarrow> bytes \<Rightarrow> nat \<Rightarrow> 'x world \<Rightarrow> goerr option \<times> 'x world" where
  "grant_waitForTx N hash timeout w =
     (let (now, w1) = read_clock N w; deadline = now + timeout
      in wait_loop (''tx failed: code=%d log=%q'', ''timeout waiting for %X'') (background N) hash now deadline w1)"

definition build_grant_tx ::
  "cosmos_sdk \<Rightarrow> tx_sdk \<Rightarrow> tx_config \<Rightarrow> grant_flags \<Rightarrow> bytes \<Rightarrow> string \<Rightarrow> bytes \<Rightarrow> sdk_msg \<Rightarrow> uint64 \<Rightarrow> uint64 \<Rightarrow> goerr + tx \<times> bytes" where
  "build_grant_tx S T txCfg g priv granter granterAcc msg accNum accSeq =
     (let feeAmt = f64_trunc (f64_mul (f64_of_nat grant_gasLimit) one_tenth);
          emptySig = \<lparr>sig_PubKey = PubKey S priv, sig_SignMode = SIGN_MODE_DIRECT,
                      sig_Signature = None, sig_Sequence = accSeq\<rparr>;
          signerData = \<lparr>sd_ChainID = gf_chainID g, sd_AccountNumber = accNum, sd_Sequence = accSeq,
                        sd_PubKey = PubKey S priv, sd_Address = granter\<rparr> in
      and_then (wrap ''set msg: %w'' (SetMsgs txCfg [msg] NewTxBuilder)) (\<lambda>b1.
      let b2 = b1\<lparr>tx_GasLimit := of_nat grant_gasLimit\<rparr>;
          b3 = b2\<lparr>tx_FeeAmount := NewCoins T [NewInt64Coin T (gf_gasDenom g) (of_nat feeAmt)]\<rparr>;
          b4 = b3\<lparr>tx_FeePayer := Some granterAcc, tx_Memo := ''x402-cosmos grant''\<rparr> in
      and_then (wrap ''set empty sig: %w'' (SetSignatures txCfg [emptySig] b4)) (\<lambda>b5.
      and_then (wrap ''get sign bytes: %w'' (GetSignBytes txCfg signerData b5)) (\<lambda>signBytes.
      and_then (wrap ''sign: %w'' (Sign S priv signBytes)) (\<lambda>sig.
      let signed_sig = emptySig\<lparr>sig_Signature := Some sig\<rparr> in
      and_then (wrap ''set sig: %w'' (SetSignatures txCfg [signed_sig] b5)) (\<lambda>b6.
      and_then (wrap ''encode tx: %w'' (TxEncoder txCfg b6)) (\<lambda>txBytes.
      Inr (b6, txBytes))))))))"

text \<open>A registry that cannot be built is a panic.\<close>

definition grant_makeCodec :: "'r codec_sdk \<Rightarrow> string \<Rightarrow> exit + codec \<times> tx_config" where
  "grant_makeCodec K prefix =
     (case NewInterfaceRegistryWithOptions K
             \<lparr>ProtoFiles = HybridResolver, AddressCodec = prefix, ValidatorAddressCodec = prefix @ ''valoper''\<rparr> of
        Inl err \<Rightarrow> Inl (Panic err)
      | Inr ir \<Rightarrow>
          let ir1 = RegisterInterfaces K Module_std ir;
              ir2 = RegisterInterfaces K Module_crypto ir1;
              ir3 = RegisterInterfaces K Module_auth ir2;
              ir4 = RegisterInterfaces K Module_bank ir3;
              ir5 = RegisterInterfaces K Module_authz ir4;
              cdc = NewProtoCodec K ir5
          in Inr (cdc, NewTxConfig K cdc DefaultSignModes))"

text \<open>What happens on the open connection, which \<open>defer\<close> closes however it ends.\<close>

definition grant_on_conn ::
  "cosmos_sdk \<Rightarrow> 'r codec_sdk \<Rightarrow> tx_sdk \<Rightarrow> 'x network \<Rightarrow> grant_flags \<Rightarrow> bytes \<Rightarrow> string \<Rightarrow> bytes \<Rightarrow> sdk_msg \<Rightarrow> 'x world \<Rightarrow>
    (exit + goerr option) \<times> 'x world" where
  "grant_on_conn S K T N g priv granter granterAcc msg w =
     (case call (CallNewRPC (gf_rpcEndpoint g) ''/websocket'') (NewRPC N (gf_rpcEndpoint g) ''/websocket'') w of
        (Some err, w1) \<Rightarrow> (Inr (Some (Errorf ''dial rpc: %w'' [AErrW (Foreign err)])), w1)
      | (None, w1) \<Rightarrow>
     (case grant_makeCodec K (gf_prefix g) of
        Inl panic \<Rightarrow> (Inl panic, w1)
      | Inr (cdc, txCfg) \<Rightarrow>
     (case call (CallAccount granter) (Account N granter) w1 of
        (Inl err, w2) \<Rightarrow> (Inr (Some (Errorf ''query account: %w'' [AErrW (Foreign err)])), w2)
      | (Inr any, w2) \<Rightarrow>
     (case UnpackAccount cdc any of
        Inl err \<Rightarrow> (Inr (Some (Errorf ''unpack account: %w'' [AErrW err])), w2)
      | Inr (accNum, accSeq) \<Rightarrow>
     (case build_grant_tx S T txCfg g priv granter granterAcc msg accNum accSeq of
        Inl err \<Rightarrow> (Inr (Some err), w2)
      | Inr (t, txBytes) \<Rightarrow>
     (case call (CallBroadcast None t) (BroadcastTxSync N txBytes) w2 of
        (Inl err, w3) \<Rightarrow> (Inr (Some (Errorf ''broadcast: %w'' [AErrW (Foreign err)])), w3)
      | (Inr res, w3) \<Rightarrow>
          if br_Code res \<noteq> 0 then
            (Inr (Some (Errorf ''broadcast rejected: code=%d log=%q'' [AInt (int (br_Code res)), AStr (br_Log res)])), w3)
          else
           (case grant_waitForTx N (br_Hash res) (30 * second) w3 of
              (Some err, w4) \<Rightarrow> (Inr (Some (Errorf ''inclusion: %w'' [AErrW err])), w4)
            | (None, w4) \<Rightarrow> (Inr None, w4))))))))"

definition grant_run ::
  "cosmos_sdk \<Rightarrow> 'r codec_sdk \<Rightarrow> tx_sdk \<Rightarrow> 'x network \<Rightarrow> grant_flags \<Rightarrow> 'x world \<Rightarrow> (exit + goerr option) \<times> 'x world" where
  "grant_run S K T N g w0 =
     (let w = set_prefixes (gf_prefix g) w0; cfg_prefix = fst (account_prefix (w_config w)) in
      case grant_deriveKey S (gf_mnemonic g) (gf_prefix g) of
        Inl err \<Rightarrow> (Inr (Some (Errorf ''derive payer key: %w'' [AErrW err])), w)
      | Inr (priv, granter) \<Rightarrow>
     (case ParseCoinsNormalized T (gf_spendLimit g) of
        Inl err \<Rightarrow> (Inr (Some (Errorf ''parse spend-limit: %w'' [AErrW err])), w)
      | Inr coins \<Rightarrow>
          let (now, w1) = time_Now N w; expTime = time_Add now (gf_expiration g);
              auth = SendAuthorization coins in
     (case AccAddressFromBech32 T cfg_prefix granter of
        Inl err \<Rightarrow> (Inr (Some (Errorf ''parse granter: %w'' [AErrW err])), w1)
      | Inr granterAcc \<Rightarrow>
     (case AccAddressFromBech32 T cfg_prefix (gf_grantee g) of
        Inl err \<Rightarrow> (Inr (Some (Errorf ''parse grantee: %w'' [AErrW err])), w1)
      | Inr granteeAcc \<Rightarrow>
     (case NewMsgGrant T granterAcc granteeAcc auth expTime of
        Inl err \<Rightarrow> (Inr (Some (Errorf ''build MsgGrant: %w'' [AErrW err])), w1)
      | Inr msg \<Rightarrow>
     (case grant_dialGRPC N (gf_grpcEndpoint g) (gf_grpcTLS g) w1 of
        (Some err, w2) \<Rightarrow> (Inr (Some (Errorf ''dial grpc: %w'' [AErrW err])), w2)
      | (None, w2) \<Rightarrow>
          let (r, w3) = grant_on_conn S K T N g priv granter granterAcc msg w2 in (r, Close w3)))))))"

definition grant_main ::
  "cosmos_sdk \<Rightarrow> 'r codec_sdk \<Rightarrow> tx_sdk \<Rightarrow> 'x network \<Rightarrow> grant_flags \<Rightarrow> 'x world \<Rightarrow> exit option \<times> 'x world" where
  "grant_main S K T N g w =
     (if gf_mnemonic g = [] then (Some (Fatal (ErrNew ''--mnemonic (or PAYER_MNEMONIC) is required'')), w)
      else if gf_grantee g = [] then (Some (Fatal (ErrNew ''--grantee is required'')), w)
      else
       (case grant_run S K T N g w of
          (Inl panic, w1) \<Rightarrow> (Some panic, w1)
        | (Inr r, w1) \<Rightarrow> (map_option Fatal r, w1)))"

section \<open>What a run does\<close>

lemma build_grant_tx_content:
  assumes "build_grant_tx S T txCfg g priv granter acc msg accNum accSeq = Inr (t, txBytes)"
  shows "tx_Msgs t = [msg]" and "tx_FeeAmount t = NewCoins T [NewInt64Coin T (gf_gasDenom g) 20000]"
    and "tx_FeePayer t = Some acc" and "TxEncoder txCfg t = Inr txBytes"
  using assms
  by (auto simp: build_grant_tx_def Let_def returns grant_gasLimit_def fee_200000 one_tenth_value [symmetric])

lemma tx_confirmed_background: "tx_confirmed (background N) hash \<longleftrightarrow> tx_confirmed N hash"
  by (simp add: tx_confirmed_def background_def)

lemma grant_waitForTx_calls:
  assumes "grant_waitForTx N hash timeout w = (r, w')"
  shows "\<exists>k \<le> timeout div second + 2. 0 < k \<and> w_calls w' = w_calls w @ replicate k (CallTx hash)"
    and "r = None \<Longrightarrow> tx_confirmed N hash"
proof -
  obtain now w1 where t: "read_clock N w = (now, w1)" by fastforce
  from assms have loop: "wait_loop (''tx failed: code=%d log=%q'', ''timeout waiting for %X'') (background N) hash now (now + timeout) w1 = (r, w')"
    by (simp add: grant_waitForTx_def t)
  from wait_loop_polls [OF loop] read_clockE [OF t]
  show "\<exists>k \<le> timeout div second + 2. 0 < k \<and> w_calls w' = w_calls w @ replicate k (CallTx hash)"
    by (auto simp: polls_left_def)
  show "r = None \<Longrightarrow> tx_confirmed N hash"
    using wait_loop_result [OF loop] by (simp add: wait_result_def tx_confirmed_background)
qed

text \<open>The calls on the connection: never a close, and at most one broadcast, which is no payment.\<close>

lemma grant_on_conn_calls:
  assumes "grant_on_conn S K T N g priv granter acc msg w = (r, w')"
  shows "\<exists>ds. w_calls w' = w_calls w @ ds \<and> CallClose \<notin> set ds \<and> sent_in ds = []
    \<and> (r = Inr None \<longrightarrow> (\<exists>t k hash. ds = [CallNewRPC (gf_rpcEndpoint g) ''/websocket'', CallAccount granter,
          CallBroadcast None t] @ replicate k (CallTx hash)
        \<and> 0 < k \<and> k \<le> 32 \<and> tx_Msgs t = [msg] \<and> tx_FeeAmount t = NewCoins T [NewInt64Coin T (gf_gasDenom g) 20000]
        \<and> tx_FeePayer t = Some acc \<and> tx_confirmed N hash))"
proof -
  obtain q1 w1 where rpc: "call (CallNewRPC (gf_rpcEndpoint g) ''/websocket'') (NewRPC N (gf_rpcEndpoint g) ''/websocket'') w = (q1, w1)"
    by fastforce
  obtain q2 w2 where account: "call (CallAccount granter) (Account N granter) w1 = (q2, w2)" by fastforce
  note calls = callE(1) [OF rpc] callE(1) [OF account]
  show ?thesis
  proof (cases "r = Inr None \<or> w' \<noteq> w1 \<and> w' \<noteq> w2")
    case False
    then have r: "r \<noteq> Inr None" and w': "w' = w1 \<or> w' = w2" by auto
    show ?thesis using w'
    proof
      assume "w' = w1" with calls r show ?thesis by simp
    next
      assume "w' = w2" with calls r show ?thesis by simp
    qed
  next
    case True
    then obtain cdc txCfg any num seq t txBytes where q: "q1 = None" "grant_makeCodec K (gf_prefix g) = Inr (cdc, txCfg)"
        "q2 = Inr any" "UnpackAccount cdc any = Inr (num, seq)"
      and b: "build_grant_tx S T txCfg g priv granter acc msg num seq = Inr (t, txBytes)"
      using assms rpc account by (auto simp: grant_on_conn_def split: option.splits sum.splits)
    obtain q3 w3 where br: "call (CallBroadcast None t) (BroadcastTxSync N txBytes) w2 = (q3, w3)" by fastforce
    note run = assms [unfolded grant_on_conn_def rpc q account prod.case option.case sum.case b br]
    note calls = calls callE(1) [OF br]
    show ?thesis
    proof (cases "\<exists>res. q3 = Inr res \<and> br_Code res = 0")
      case False
      with run have "w' = w3 \<and> r \<noteq> Inr None" by (auto split: sum.splits if_splits)
      with calls show ?thesis by auto
    next
      case True
      then obtain res where res: "q3 = Inr res" "br_Code res = 0" by blast
      obtain e w4 where wt: "grant_waitForTx N (br_Hash res) (30 * second) w3 = (e, w4)" by fastforce
      with run res have w': "w' = w4" "r = Inr None \<longleftrightarrow> e = None" by (auto split: option.splits)
      obtain k where k: "k \<le> 32" "0 < k" "w_calls w4 = w_calls w3 @ replicate k (CallTx (br_Hash res))"
        using grant_waitForTx_calls(1) [OF wt] by (auto simp: second_def)
      have ds: "w_calls w' = w_calls w @ ([CallNewRPC (gf_rpcEndpoint g) ''/websocket'', CallAccount granter,
          CallBroadcast None t] @ replicate k (CallTx (br_Hash res)))"
        using calls k w' by simp
      moreover have "tx_confirmed N (br_Hash res)" if "r = Inr None"
        using grant_waitForTx_calls(2) [OF wt] that w' by simp
      ultimately show ?thesis
        using build_grant_tx_content [OF b] k(1,2)
        by (intro exI [of _ "[CallNewRPC (gf_rpcEndpoint g) ''/websocket'', CallAccount granter,
          CallBroadcast None t] @ replicate k (CallTx (br_Hash res))"]) simp
    qed
  qed
qed

lemma grant_dialE:
  "grant_dialGRPC N endpoint useTLS w = (r, w1) \<Longrightarrow> w_calls w1 = w_calls w @ [CallNewGRPC endpoint useTLS]"
  by (auto simp: grant_dialGRPC_def dest: callE(1) split: prod.splits)

text \<open>The connection is opened at most once and, once open, closed by the last call, whatever went wrong in between.\<close>

lemma grant_run_calls:
  assumes "grant_run S K T N g w = (r, w')"
  shows "\<exists>cs. w_calls w' = w_calls w @ cs \<and> sent_in cs = []
    \<and> (cs = [] \<or> cs = [CallNewGRPC (gf_grpcEndpoint g) (gf_grpcTLS g)]
      \<or> (\<exists>ds. cs = CallNewGRPC (gf_grpcEndpoint g) (gf_grpcTLS g) # ds @ [CallClose] \<and> CallClose \<notin> set ds))"
proof -
  let ?w = "set_prefixes (gf_prefix g) w"
  obtain now w1 where t: "time_Now N ?w = (now, w1)" by fastforce
  have w1: "w_calls w1 = w_calls w" using w_calls_time_Now [of N ?w] by (simp add: t)
  show ?thesis
  proof (cases "w' = ?w \<or> w' = w1")
    case True
    with w1 show ?thesis by auto
  next
    case False
    obtain q w2 where d: "grant_dialGRPC N (gf_grpcEndpoint g) (gf_grpcTLS g) w1 = (q, w2)" by fastforce
    from assms False obtain priv granter acc msg where
      run: "(case q of Some err \<Rightarrow> (Inr (Some (Errorf ''dial grpc: %w'' [AErrW err])), w2)
        | None \<Rightarrow> let (r, w3) = grant_on_conn S K T N g priv granter acc msg w2 in (r, Close w3)) = (r, w')"
      unfolding grant_run_def Let_def
      by (auto simp: t d split: sum.splits option.splits)
    show ?thesis
    proof (cases q)
      case (Some err)
      with run grant_dialE [OF d] w1 show ?thesis by auto
    next
      case None
      obtain r3 w3 where c: "grant_on_conn S K T N g priv granter acc msg w2 = (r3, w3)" by fastforce
      from grant_on_conn_calls [OF c] obtain ds where "w_calls w3 = w_calls w2 @ ds" "CallClose \<notin> set ds" "sent_in ds = []"
        by blast
      moreover from this have "w_calls w' = w_calls w @ (CallNewGRPC (gf_grpcEndpoint g) (gf_grpcTLS g) # ds @ [CallClose])"
        using run None c grant_dialE [OF d] w1 by (auto simp: Close_def)
      ultimately show ?thesis
        by (intro exI [of _ "CallNewGRPC (gf_grpcEndpoint g) (gf_grpcTLS g) # ds @ [CallClose]"]) auto
    qed
  qed
qed

lemma grant_run_success:
  assumes "grant_run S K T N g w = (Inr None, w')"
  shows "\<exists>priv granter coins acc grantee msg t k hash.
    grant_deriveKey S (gf_mnemonic g) (gf_prefix g) = Inr (priv, granter)
    \<and> ParseCoinsNormalized T (gf_spendLimit g) = Inr coins
    \<and> AccAddressFromBech32 T (gf_prefix g) granter = Inr acc
    \<and> AccAddressFromBech32 T (gf_prefix g) (gf_grantee g) = Inr grantee
    \<and> NewMsgGrant T acc grantee (SendAuthorization coins)
        (time_Add (fst (time_Now N (set_prefixes (gf_prefix g) w))) (gf_expiration g)) = Inr msg
    \<and> w_calls w' = w_calls w @ [CallNewGRPC (gf_grpcEndpoint g) (gf_grpcTLS g),
        CallNewRPC (gf_rpcEndpoint g) ''/websocket'', CallAccount granter, CallBroadcast None t] @ replicate k (CallTx hash) @ [CallClose]
    \<and> tx_Msgs t = [msg] \<and> tx_FeeAmount t = NewCoins T [NewInt64Coin T (gf_gasDenom g) 20000] \<and> tx_FeePayer t = Some acc
    \<and> 0 < k \<and> k \<le> 32 \<and> tx_confirmed N hash"
proof -
  let ?w = "set_prefixes (gf_prefix g) w"
  have prefix: "fst (account_prefix (w_config ?w)) = gf_prefix g" by (simp add: set_prefixes_def)
  obtain now w1 where t: "time_Now N ?w = (now, w1)" by fastforce
  have w1: "w_calls w1 = w_calls w" using w_calls_time_Now [of N ?w] by (simp add: t)
  obtain q w2 where d: "grant_dialGRPC N (gf_grpcEndpoint g) (gf_grpcTLS g) w1 = (q, w2)" by fastforce
  from assms obtain priv granter coins acc grantee msg where
      made: "grant_deriveKey S (gf_mnemonic g) (gf_prefix g) = Inr (priv, granter)"
        "ParseCoinsNormalized T (gf_spendLimit g) = Inr coins"
        "AccAddressFromBech32 T (gf_prefix g) granter = Inr acc"
        "AccAddressFromBech32 T (gf_prefix g) (gf_grantee g) = Inr grantee"
        "NewMsgGrant T acc grantee (SendAuthorization coins) (time_Add now (gf_expiration g)) = Inr msg"
    and q: "q = None"
    and run: "(let (r, w3) = grant_on_conn S K T N g priv granter acc msg w2 in (r, Close w3)) = (Inr None, w')"
    unfolding grant_run_def Let_def prefix
    by (auto simp: t d split: sum.splits option.splits)
  obtain r3 w3 where c: "grant_on_conn S K T N g priv granter acc msg w2 = (r3, w3)" by fastforce
  with run have r3: "r3 = Inr None" "w' = Close w3" by auto
  from grant_on_conn_calls [OF c] r3 obtain u k hash where
    "w_calls w3 = w_calls w2 @ [CallNewRPC (gf_rpcEndpoint g) ''/websocket'', CallAccount granter, CallBroadcast None u]
        @ replicate k (CallTx hash)"
    "0 < k" "k \<le> 32" "tx_Msgs u = [msg]" "tx_FeeAmount u = NewCoins T [NewInt64Coin T (gf_gasDenom g) 20000]"
    "tx_FeePayer u = Some acc" "tx_confirmed N hash" by auto
  moreover from this(1) have "w_calls w' = w_calls w @ [CallNewGRPC (gf_grpcEndpoint g) (gf_grpcTLS g),
        CallNewRPC (gf_rpcEndpoint g) ''/websocket'', CallAccount granter, CallBroadcast None u] @ replicate k (CallTx hash) @ [CallClose]"
    using grant_dialE [OF d] w1 r3 by (simp add: Close_def)
  ultimately show ?thesis using made by (auto simp: t)
qed

end
