(* ===== verification/JsonIndent.thy ===== *)
theory JsonIndent
  imports JsonParse
begin

text \<open>
  \<open>json.MarshalIndent\<close> with an empty prefix and an indent of two spaces: every element and member on a line of its own,
  a space after each colon. What it prints is read back like the compact text.
\<close>

definition indent_line :: "nat \<Rightarrow> string" where
  "indent_line n = CHR 0x0A # replicate (2 * n) (CHR '' '')"

fun json_indent :: "nat \<Rightarrow> json \<Rightarrow> string"
  and indent_elems :: "nat \<Rightarrow> json list \<Rightarrow> string"
  and indent_members :: "nat \<Rightarrow> (string \<times> json) list \<Rightarrow> string" where
  "json_indent n (JArr (x # xs)) =
     CHR ''['' # indent_line (Suc n) @ json_indent (Suc n) x @ indent_elems (Suc n) xs @ indent_line n @ '']''"
| "json_indent n (JObj ((k, v) # m)) =
     CHR ''{'' # indent_line (Suc n) @ json_quote k @ '': '' @ json_indent (Suc n) v @ indent_members (Suc n) m
       @ indent_line n @ ''}''"
| "json_indent n j = json_print j"
| "indent_elems n [] = []"
| "indent_elems n (x # xs) = CHR '','' # indent_line n @ json_indent n x @ indent_elems n xs"
| "indent_members n [] = []"
| "indent_members n ((k, v) # m) =
     CHR '','' # indent_line n @ json_quote k @ '': '' @ json_indent n v @ indent_members n m"

lemma skip_ws_line [simp]: "skip_ws (indent_line n @ s) = skip_ws s"
  by (induction n) (simp_all add: indent_line_def skip_ws_def json_space_def byte_def)

lemma skip_ws_blank [simp]: "skip_ws (CHR '' '' # s) = skip_ws s"
  by (simp add: skip_ws_def json_space_def byte_def)

text \<open>A text reads as a value when some fuel is enough; then the length of the text is.\<close>

definition reads_as :: "nat \<Rightarrow> string \<Rightarrow> json \<Rightarrow> bool" where
  "reads_as d s j \<longleftrightarrow> (\<forall>r. num_stop r \<longrightarrow> (\<forall>n \<ge> length s. parse_value n d (s @ r) = Some (j, r)))"

lemma reads_asD: "reads_as d s j \<Longrightarrow> num_stop r \<Longrightarrow> length s \<le> n \<Longrightarrow> parse_value n d (s @ r) = Some (j, r)"
  by (auto simp: reads_as_def)

lemma reads_asI:
  assumes "\<And>r. num_stop r \<Longrightarrow> \<exists>n. parse_value n d (s @ r) = Some (j, r)"
  shows "reads_as d s j"
proof -
  have "parse_value n d (s @ r) = Some (j, r)" if "num_stop r" "length s \<le> n" for r n
    using assms [OF that(1)] parse_consumes(1) [of _ d "s @ r" j r] that(2) by auto
  then show ?thesis by (simp add: reads_as_def)
qed

lemma parse_value_skip: "skip_ws s = skip_ws s' \<Longrightarrow> parse_value n d s = parse_value n d s'"
  by (cases n) simp_all

lemma parse_members_skip: "skip_ws s = skip_ws s' \<Longrightarrow> parse_members n d s = parse_members n d s'"
  by (cases n) simp_all

lemma reads_as_line: "reads_as d s j \<Longrightarrow> reads_as d (indent_line k @ s) j"
  using parse_value_skip [of "indent_line k @ s @ r" "s @ r" for r] by (auto simp: reads_as_def)

lemma reads_as_blank: "reads_as d s j \<Longrightarrow> reads_as d (CHR '' '' # s) j"
  using parse_value_skip [of "CHR '' '' # s @ r" "s @ r" for r] by (auto simp: reads_as_def)

lemma stop_line [simp]: "num_stop (indent_line n @ s)" "num_stop (CHR '','' # s)"
  by (simp_all add: num_stop_def indent_line_def is_digit_def byte_def)

lemma stop_elems: "num_stop (indent_elems n xs @ indent_line k @ s)" "num_stop (indent_members n m @ indent_line k @ s)"
  by (cases xs; simp) (cases m; auto)

lemma elems_read:
  assumes "reads_as d s e"
    and "list_all (\<lambda>x. reads_as d (json_indent n x) x) xs"
    and "length (s @ indent_elems n xs @ indent_line k @ CHR '']'' # r) < f"
  shows "parse_elems f d (s @ indent_elems n xs @ indent_line k @ CHR '']'' # r) = Some (e # xs, r)"
  using assms
proof (induction xs arbitrary: s e f)
  case Nil
  then obtain f' where f: "f = Suc f'" by (cases f) auto
  have "parse_value f' d (s @ indent_line k @ CHR '']'' # r) = Some (e, indent_line k @ CHR '']'' # r)"
    using Nil f by (intro reads_asD) auto
  then show ?case by (simp add: f)
next
  case (Cons x xs)
  then obtain f' where f: "f = Suc f'" by (cases f) auto
  have v: "parse_value f' d (s @ indent_elems n (x # xs) @ indent_line k @ CHR '']'' # r)
      = Some (e, indent_elems n (x # xs) @ indent_line k @ CHR '']'' # r)"
    using Cons.prems f by (intro reads_asD stop_elems) auto
  have "parse_elems f' d ((indent_line n @ json_indent n x) @ indent_elems n xs @ indent_line k @ CHR '']'' # r) = Some (x # xs, r)"
    using Cons.prems f by (intro Cons.IH) (auto intro: reads_as_line)
  with v show ?case by (simp add: f)
qed

lemma members_read:
  assumes "valid_utf8 key" and "reads_as d s e"
    and "list_all (\<lambda>(q, x). valid_utf8 q \<and> reads_as d (json_indent n x) x) m"
    and "length (json_quote key @ CHR '':'' # s @ indent_members n m @ indent_line k @ CHR ''}'' # r) < f"
  shows "parse_members f d (json_quote key @ CHR '':'' # s @ indent_members n m @ indent_line k @ CHR ''}'' # r) = Some ((key, e) # m, r)"
  using assms
proof (induction m arbitrary: key s e f)
  case Nil
  then obtain f' where f: "f = Suc f'" by (cases f) auto
  have "parse_value f' d (s @ indent_line k @ CHR ''}'' # r) = Some (e, indent_line k @ CHR ''}'' # r)"
    using Nil f by (intro reads_asD) auto
  with json_unquote_escape [OF Nil.prems(1)] show ?case by (simp add: f json_quote_def)
next
  case (Cons kv m)
  obtain q x where kv: "kv = (q, x)" by (cases kv)
  obtain f' where f: "f = Suc f'" using Cons.prems(4) by (cases f) auto
  have v: "parse_value f' d (s @ indent_members n (kv # m) @ indent_line k @ CHR ''}'' # r)
      = Some (e, indent_members n (kv # m) @ indent_line k @ CHR ''}'' # r)"
    using Cons.prems f by (intro reads_asD stop_elems) auto
  have "parse_members f' d (json_quote q @ CHR '':'' # (CHR '' '' # json_indent n x) @ indent_members n m @ indent_line k @ CHR ''}'' # r)
      = Some ((q, x) # m, r)"
    using Cons.prems f kv by (intro Cons.IH) (auto intro: reads_as_blank)
  then have "parse_members f' d (indent_line n @ json_quote q @ '': '' @ json_indent n x @ indent_members n m @ indent_line k @ CHR ''}'' # r)
      = Some ((q, x) # m, r)"
    using parse_members_skip [OF skip_ws_line, of f' d n] by simp
  with v json_unquote_escape [OF Cons.prems(1)] show ?case
    by (simp add: f kv json_quote_def)
qed

text \<open>What follows an opening bracket: the closing bracket is not the first thing.\<close>

lemma scan_number_starts:
  "scan_number (CHR '']'' # t) = None" "scan_number (CHR ''}'' # t) = None"
  by (simp_all add: scan_number_def scan_int_def)

lemma parse_value_starts:
  assumes "parse_value n d s = Some v"
  shows "\<exists>c t. skip_ws s = c # t \<and> c \<noteq> CHR '']''"
proof -
  obtain n' where n: "n = Suc n'" using assms by (cases n) auto
  obtain c t where c: "skip_ws s = c # t" using assms n by (cases "skip_ws s") auto
  have "c \<noteq> CHR '']''"
  proof
    assume "c = CHR '']''"
    with c n have "parse_value n d s = None" by (simp add: scan_number_starts quote_def)
    with assms show False by simp
  qed
  with c show ?thesis by blast
qed

lemma parse_elems_starts:
  "parse_elems n d s = Some v \<Longrightarrow> \<exists>c t. skip_ws s = c # t \<and> c \<noteq> CHR '']''"
  by (cases n) (auto split: option.splits dest: parse_value_starts)

lemma parse_elems_skip: "parse_elems n d (skip_ws s) = parse_elems n d s"
  using parse_value_skip [of "skip_ws s" s]
  by (cases n) (simp_all add: skip_ws_def)

lemma parse_array:
  assumes "parse_elems n d s = Some (xs, r)"
  shows "parse_value (Suc n) (Suc d) (CHR ''['' # s) = Some (JArr xs, r)"
proof -
  obtain c t where c: "skip_ws s = c # t" "c \<noteq> CHR '']''" using parse_elems_starts [OF assms] by blast
  with assms have "parse_elems n d (c # t) = Some (xs, r)" using parse_elems_skip [of n d s] by simp
  with c show ?thesis by simp
qed

lemma parse_object:
  assumes "parse_members n d (json_quote k @ s) = Some (m, r)"
  shows "parse_value (Suc n) (Suc d) (CHR ''{'' # indent_line i @ json_quote k @ s) = Some (JObj m, r)"
  using assms by (simp add: json_quote_def)

text \<open>Compact and indented text read as the same value.\<close>

lemma reads_as_print:
  assumes "json_ok j" and "json_depth j \<le> d"
  shows "reads_as d (json_print j) j"
  using readsD [OF json_print_reads(1) [OF assms] lessI] by (blast intro: reads_asI)

lemma json_indent_reads:
  "json_ok j \<Longrightarrow> json_depth j \<le> d \<Longrightarrow> reads_as d (json_indent n j) j"
  "list_all json_ok xs \<Longrightarrow> elems_depth xs \<le> d \<Longrightarrow> list_all (\<lambda>x. reads_as d (json_indent n x) x) xs"
  "members_ok m \<Longrightarrow> members_depth m \<le> d \<Longrightarrow>
    list_all (\<lambda>(q, x). valid_utf8 q \<and> reads_as d (json_indent n x) x) m"
proof (induction n j and n xs and n m arbitrary: d and d and d
    rule: json_indent_indent_elems_indent_members.induct)
  case (1 n x xs)
  obtain d' where d: "d = Suc d'" using "1.prems" by (cases d) auto
  show ?case
  proof (rule reads_asI)
    fix r :: string
    have "parse_elems f d' ((indent_line (Suc n) @ json_indent (Suc n) x) @ indent_elems (Suc n) xs @ indent_line n @ CHR '']'' # r)
        = Some (x # xs, r)"
      if "length ((indent_line (Suc n) @ json_indent (Suc n) x) @ indent_elems (Suc n) xs @ indent_line n @ CHR '']'' # r) < f" for f
      using that "1.prems" d by (intro elems_read reads_as_line "1.IH") auto
    from parse_array [OF this [OF lessI]]
    show "\<exists>f. parse_value f d (json_indent n (JArr (x # xs)) @ r) = Some (JArr (x # xs), r)"
      by (intro exI) (simp add: d del: parse_value.simps)
  qed
next
  case (2 n k v m)
  obtain d' where d: "d = Suc d'" using "2.prems" by (cases d) auto
  show ?case
  proof (rule reads_asI)
    fix r :: string
    have "parse_members f d' (json_quote k @ CHR '':'' # (CHR '' '' # json_indent (Suc n) v) @ indent_members (Suc n) m @ indent_line n @ CHR ''}'' # r)
        = Some ((k, v) # m, r)"
      if "length (json_quote k @ CHR '':'' # (CHR '' '' # json_indent (Suc n) v) @ indent_members (Suc n) m @ indent_line n @ CHR ''}'' # r) < f" for f
      using that "2.prems" d by (intro members_read reads_as_blank "2.IH") auto
    from parse_object [OF this [OF lessI], of "Suc n"]
    show "\<exists>f. parse_value f d (json_indent n (JObj ((k, v) # m)) @ r) = Some (JObj ((k, v) # m), r)"
      by (intro exI) (simp add: d del: parse_value.simps)
  qed
next
  case "3_1"
  then show ?case by (simp only: json_indent.simps reads_as_print)
next
  case "3_2"
  then show ?case by (simp only: json_indent.simps reads_as_print)
next
  case "3_3"
  then show ?case by (simp only: json_indent.simps reads_as_print)
next
  case "3_4"
  then show ?case by (simp only: json_indent.simps reads_as_print)
next
  case "3_5"
  then show ?case by (simp only: json_indent.simps reads_as_print)
next
  case "3_6"
  then show ?case by (simp only: json_indent.simps reads_as_print)
qed auto

theorem json_indent_decodes:
  assumes "json_ok j" and "json_depth j \<le> max_depth" and "num_stop r"
  shows "json_Decode (json_indent 0 j @ r) = Some j"
proof -
  have "parse_value (Suc (length (json_indent 0 j @ r))) max_depth (json_indent 0 j @ r) = Some (j, r)"
    using assms(3) by (intro reads_asD [OF json_indent_reads(1) [OF assms(1,2)]]) auto
  then show ?thesis unfolding json_Decode_def by simp
qed

end
