(* ===== verification/Fixture.thy ===== *)
theory Fixture
  imports Payer JsonIndent
begin

text \<open>
  \<open>tools/fixture/main.go\<close>: a signed body for \<open>/settle\<close>, written to the standard output or to a file. The environment
  holds random bytes, the clock and \<open>os.WriteFile\<close> (path, content, permissions). Flags are what package \<open>flag\<close> makes of the command line.

  The result is the text on the standard output, or how the program ended before that.
\<close>

record fixture_flags =
  ff_payerMnemonic :: string
  ff_recipient :: string
  ff_facilitator :: string
  ff_amount :: string
  ff_asset :: string
  ff_network :: string
  ff_chainID :: string
  ff_prefix :: string
  ff_resource :: string
  ff_validitySeconds :: int64
  ff_maxTimeoutSeconds :: uint64
  ff_output :: string

record 'y fixture_env =
  fx_rand :: "nat \<Rightarrow> 'y \<Rightarrow> (goerr + bytes) \<times> 'y"
  fx_Now :: "'y \<Rightarrow> gotime \<times> 'y"
  fx_WriteFile :: "string \<Rightarrow> string \<Rightarrow> nat \<Rightarrow> 'y \<Rightarrow> goerr option \<times> 'y"

definition fixture_parse ::
  "(string \<Rightarrow> string) \<Rightarrow> (string \<Rightarrow> string option) \<Rightarrow> (string \<Rightarrow> int64) \<Rightarrow> (string \<Rightarrow> uint64) \<Rightarrow> fixture_flags" where
  "fixture_parse Getenv flag parse_int64 parse_uint64 =
     \<lparr>ff_payerMnemonic = flag_or flag ''payer-mnemonic'' (Getenv ''X402_PAYER_MNEMONIC''),
      ff_recipient = flag_or flag ''recipient'' (Getenv ''X402_PAY_TO''),
      ff_facilitator = flag_or flag ''facilitator'' (Getenv ''X402_FACILITATOR_GRANTEE''),
      ff_amount = flag_or flag ''amount'' (envOr Getenv ''X402_AMOUNT'' ''10000''),
      ff_asset = flag_or flag ''asset'' (envOr Getenv ''X402_ASSET'' ''uusdc''),
      ff_network = flag_or flag ''network'' (envOr Getenv ''X402_NETWORK'' ''cosmos:grand-1''),
      ff_chainID = flag_or flag ''chain-id'' (envOr Getenv ''X402_NOBLE_CHAIN_ID'' ''grand-1''),
      ff_prefix = flag_or flag ''prefix'' (envOr Getenv ''X402_NOBLE_PREFIX'' ''noble''),
      ff_resource = flag_or flag ''resource'' ''https://suverse-pay.example/v1/smoke'',
      ff_validitySeconds = (case flag ''validity-seconds'' of Some v \<Rightarrow> parse_int64 v | None \<Rightarrow> 50),
      ff_maxTimeoutSeconds = (case flag ''max-timeout-seconds'' of Some v \<Rightarrow> parse_uint64 v | None \<Rightarrow> 60),
      ff_output = flag_or flag ''output'' ''-''\<rparr>"

definition fixture_deriveKey :: "cosmos_sdk \<Rightarrow> string \<Rightarrow> string \<Rightarrow> goerr + bytes \<times> string" where
  "fixture_deriveKey = derive_trimmed (ErrNew ''invalid mnemonic'')"

definition fixture_freshNonce :: "'y fixture_env \<Rightarrow> 'y \<Rightarrow> (exit + string) \<times> 'y" where
  "fixture_freshNonce E = fresh_nonce (fx_rand E)"

definition fixture_authorization :: "fixture_flags \<Rightarrow> string \<Rightarrow> string \<Rightarrow> int64 \<Rightarrow> Authorization" where
  "fixture_authorization f payerAddr nonce now =
     \<lparr>a_From = payerAddr, a_To = ff_recipient f, a_Denom = ff_asset f, a_Amount = ff_amount f, a_Nonce = nonce,
      a_ValidAfter = now - 5, a_ValidBefore = now + ff_validitySeconds f,
      a_Resource = ff_resource f, a_ChainID = ff_chainID f\<rparr>"

definition fixture_payload :: "fixture_flags \<Rightarrow> string \<Rightarrow> Authorization \<Rightarrow> bytes \<Rightarrow> bytes \<Rightarrow> PaymentPayload" where
  "fixture_payload f payerAddr auth signature pubKey =
     \<lparr>pp_X402Version = 2, pp_Scheme = Scheme, pp_Network = ff_network f,
      pp_Payload = \<lparr>c_From = payerAddr, c_PublicKey = base64_Encode pubKey,
                    c_Signature = base64_Encode signature, c_Authorization = auth\<rparr>\<rparr>"

definition fixture_requirements :: "fixture_flags \<Rightarrow> PaymentRequirements" where
  "fixture_requirements f =
     PaymentRequirements_zero\<lparr>pr_Scheme := Scheme, pr_Network := ff_network f, pr_MaxAmountRequired := ff_amount f,
       pr_Asset := ff_asset f, pr_PayTo := ff_recipient f, pr_Resource := ff_resource f,
       pr_MaxTimeoutSeconds := ff_maxTimeoutSeconds f,
       pr_Extra := RequirementsExtra_zero\<lparr>x_Facilitator := ff_facilitator f, x_ChainID := ff_chainID f\<rparr>\<rparr>"

text \<open>The anonymous struct of payload and requirements, and what \<open>json.MarshalIndent(fixture, "", "  ")\<close> makes of it.\<close>

definition fixture_json :: "PaymentPayload \<Rightarrow> PaymentRequirements \<Rightarrow> json" where
  "fixture_json p q =
     JObj [(''paymentPayload'', PaymentPayload_json p), (''paymentRequirements'', PaymentRequirements_json q)]"

definition fixture_text :: "PaymentPayload \<Rightarrow> PaymentRequirements \<Rightarrow> string" where
  "fixture_text p q = json_indent 0 (fixture_json p q)"

definition write_fixture :: "'y fixture_env \<Rightarrow> string \<Rightarrow> string \<Rightarrow> 'y \<Rightarrow> (exit + string) \<times> 'y" where
  "write_fixture E output out y =
     (if output = ''-'' then (Inr (out @ newline), y)
      else case fx_WriteFile E output (out @ newline) 420 y of
          (Some err, y1) \<Rightarrow> (Inl (Fatal (Errorf ''write %s: %v'' [AStr output, AErrV err])), y1)
        | (None, y1) \<Rightarrow> (Inr [], y1))"

definition fixture_main ::
  "cosmos_sdk \<Rightarrow> 'y fixture_env \<Rightarrow> fixture_flags \<Rightarrow> 'y \<Rightarrow> (exit + string) \<times> 'y" where
  "fixture_main S E f y =
     (if ff_payerMnemonic f = [] then (Inl (Fatal (ErrNew ''--payer-mnemonic (or X402_PAYER_MNEMONIC) is required'')), y)
      else if ff_recipient f = [] then (Inl (Fatal (ErrNew ''--recipient (or X402_PAY_TO) is required'')), y)
      else if ff_facilitator f = [] then (Inl (Fatal (ErrNew ''--facilitator (or X402_FACILITATOR_GRANTEE) is required'')), y)
      else
     (case fixture_deriveKey S (ff_payerMnemonic f) (ff_prefix f) of
        Inl err \<Rightarrow> (Inl (Fatal (Errorf ''derive payer key: %v'' [AErrV err])), y)
      | Inr (priv, payerAddr) \<Rightarrow>
          let (t, y1) = fx_Now E y; now = Unix t in
         (case fixture_freshNonce E y1 of
            (Inl ex, y2) \<Rightarrow> (Inl ex, y2)
          | (Inr nonce, y2) \<Rightarrow>
              let auth = fixture_authorization f payerAddr nonce now in
             (case ADR036Preimage S auth of
                Inl err \<Rightarrow> (Inl (Fatal (Errorf ''preimage: %v'' [AErrV err])), y2)
              | Inr preimage \<Rightarrow>
             (case Sign S priv preimage of
                Inl err \<Rightarrow> (Inl (Fatal (Errorf ''sign: %v'' [AErrV err])), y2)
              | Inr signature \<Rightarrow>
                  let payload = fixture_payload f payerAddr auth signature (PubKey S priv);
                      requirements = fixture_requirements f
                  in write_fixture E (ff_output f) (fixture_text payload requirements) y2)))))"

section \<open>The written body is read as the request it was made from\<close>

definition fixture_request :: "PaymentPayload \<Rightarrow> PaymentRequirements \<Rightarrow> VerifyRequest" where
  "fixture_request p q = \<lparr>vr_X402Version = 0, vr_PaymentPayload = p, vr_PaymentRequirements = q\<rparr>"

lemma fixture_request_sel [simp]:
  "vr_PaymentPayload (fixture_request p q) = p" "vr_PaymentRequirements (fixture_request p q) = q"
  by (simp_all add: fixture_request_def)

lemma fixture_decodes:
  assumes "valid_Payload p" and "valid_Requirements q"
  shows "dec_struct VerifyRequest_fields (fixture_json p q) VerifyRequest_zero = Some (fixture_request p q)"
  using payload.decodes [OF assms(1)] requirements.decodes [OF assms(2)]
  by (simp add: fixture_json_def fixture_request_def dec_struct_def VerifyRequest_fields_def decode_simps)

lemma stop_newline: "num_stop (newline @ s)" "num_stop newline"
  by (simp_all add: num_stop_def newline_def is_digit_def byte_def)

lemma fixture_text_decodes:
  assumes "valid_Payload p" and "valid_Requirements q"
  shows "Decode VerifyRequest_fields VerifyRequest_zero (fixture_text p q @ newline) = Some (fixture_request p q)"
proof -
  have "json_Decode (fixture_text p q @ newline) = Some (fixture_json p q)"
    unfolding fixture_text_def
    by (rule json_indent_decodes [OF _ _ stop_newline(2)])
      (simp_all add: fixture_json_def payload.printable [OF assms(1)] requirements.printable [OF assms(2)]
        payload_depth requirements_depth [OF assms(2)] max_depth_def)
  with fixture_decodes [OF assms] show ?thesis by (simp add: Decode_def)
qed

text \<open>Posting the file is the settlement of the request.\<close>

lemma fixture_posted:
  assumes "valid_Payload p" and "valid_Requirements q" and "r_Method r = ''POST''" and "r_Body r = fixture_text p q @ newline"
    and "Settle S s (fixture_request p q) st = (resp, st1)"
  shows "settleHandler S s r st = (writeJSON 200 (SettleResponse_json resp) new_writer, st1)"
  using fixture_text_decodes [OF assms(1,2)] assms(3-5) by (simp add: settleHandler_def)

lemma fixture_main_run:
  assumes "ff_recipient f \<noteq> []" and "ff_facilitator f \<noteq> []" and "ff_payerMnemonic f \<noteq> []"
    and "fixture_deriveKey S (ff_payerMnemonic f) (ff_prefix f) = Inr (priv, addr)"
    and "fx_Now E y = (t, y1)" and "fx_rand E 32 y1 = (Inr b, y2)"
    and "auth = fixture_authorization f addr (''0x'' @ hex_EncodeToString b) (Unix t)"
    and "sign_authorization S priv auth = Inr (sg, pk)"
  shows "fixture_main S E f y =
    write_fixture E (ff_output f) (fixture_text (fixture_payload f addr auth sg pk) (fixture_requirements f)) y2"
proof -
  have "fixture_freshNonce E y1 = (Inr (''0x'' @ hex_EncodeToString b), y2)"
    using assms(6) by (auto simp: fixture_freshNonce_def fresh_nonce_Inr)
  then show ?thesis
    using assms(1-5,7,8) by (auto simp: fixture_main_def sign_authorization_Inr)
qed

section \<open>A facilitator accepts what the fixture says\<close>

lemma fixture_sel [simp]:
  "a_From (fixture_authorization f addr nonce now) = addr" "a_Nonce (fixture_authorization f addr nonce now) = nonce"
  "a_ChainID (fixture_authorization f addr nonce now) = ff_chainID f"
  "c_Authorization (pp_Payload (fixture_payload f addr a sg pk)) = a"
  "c_PublicKey (pp_Payload (fixture_payload f addr a sg pk)) = base64_Encode pk"
  "c_Signature (pp_Payload (fixture_payload f addr a sg pk)) = base64_Encode sg"
  "pp_Network (fixture_payload f addr a sg pk) = ff_network f"
  by (simp_all add: fixture_authorization_def fixture_payload_def)

lemma fixture_matches:
  "matches (fixture_request (fixture_payload f addr (fixture_authorization f addr nonce now) sg pk) (fixture_requirements f))"
  by (simp add: matches_def fixture_payload_def fixture_authorization_def fixture_requirements_def)

text \<open>
  With a validity of \<open>v\<close> seconds the window is open from five seconds before the signature to \<open>v\<close> seconds after it, provided
  that \<open>v + 5\<close> does not exceed the maximum that the fixture names.
\<close>

lemma fixture_window:
  assumes "5 \<le> unat now" and "unat now + unat (ff_validitySeconds f) < 18446744073709551616"
    and "unat (ff_validitySeconds f) + 5 \<le> unat (ff_maxTimeoutSeconds f)"
  shows "window_open t (fixture_request (fixture_payload f addr (fixture_authorization f addr nonce now) sg pk) (fixture_requirements f))
    \<longleftrightarrow> unat now - 5 \<le> t \<and> t < unat now + unat (ff_validitySeconds f)"
proof -
  have "unat (now - 5) = unat now - 5" using unat_minus_small [of 5 now] assms(1) by simp
  moreover have "unat (now + ff_validitySeconds f) = unat now + unat (ff_validitySeconds f)"
    using unat_plus_small [of now "unat (ff_validitySeconds f)"] assms(2) by simp
  ultimately show ?thesis
    using assms(1,3) by (auto simp: window_open_def fixture_authorization_def fixture_requirements_def Let_def)
qed

definition valid_fixture :: "fixture_flags \<Rightarrow> bool" where
  "valid_fixture f \<longleftrightarrow>
     list_all valid_utf8 [ff_recipient f, ff_facilitator f, ff_amount f, ff_asset f, ff_network f, ff_chainID f, ff_resource f]"

lemma fixture_valid:
  assumes "valid_fixture f" and "valid_utf8 addr"
  shows "valid_Payload (fixture_payload f addr (fixture_authorization f addr (''0x'' @ hex_EncodeToString b) now) sg pk)"
    and "valid_Requirements (fixture_requirements f)"
  using assms valid_nonce [of b]
  by (simp_all add: valid_fixture_def valid_Payload_def valid_CosmosPayload_def valid_Authorization_def valid_Requirements_def
      valid_Extra_def fixture_payload_def fixture_authorization_def fixture_requirements_def Scheme_def int64_range_def zero_defs)

lemma fixture_supported:
  assumes "ff_network f = ''cosmos:'' @ nc_chainID c" and "ff_chainID f = nc_chainID c"
  shows "supported (main_verifier S T N c) (fixture_requirements f) (noble_client S T N c)"
proof -
  have "trim_prefix (''cosmos:'' @ nc_chainID c) ''cosmos:'' = nc_chainID c" by (rule trim_prefix_append)
  then show ?thesis using assms by (simp add: supported_def fixture_requirements_def)
qed

text \<open>With the grant and the balance in place, posting the fixture within its window settles it.\<close>

lemma fixture_settles:
  fixes f addr b t
  defines "auth \<equiv> fixture_authorization f addr (''0x'' @ hex_EncodeToString b) (Unix t)"
  defines "q \<equiv> fixture_requirements f"
  assumes "ff_network f = ''cosmos:'' @ nc_chainID c" and "ff_chainID f = nc_chainID c" and "ff_prefix f = nc_prefix c"
    and "signature_scheme S" and "fixture_deriveKey S (ff_payerMnemonic f) (ff_prefix f) = Inr (priv, addr)"
    and "sign_authorization S priv auth = Inr (sg, pk)"
    and "5 \<le> unat (Unix t)" and "unat (Unix t) + unat (ff_validitySeconds f) < 18446744073709551616"
    and "unat (ff_validitySeconds f) + 5 \<le> unat (ff_maxTimeoutSeconds f)"
    and "time_Now N w = (t', w1)" and "unat (Unix t) - 5 \<le> unat (Unix t')"
    and "unat (Unix t') < unat (Unix t) + unat (ff_validitySeconds f)"
    and "map_of m (nonceKey addr (nc_chainID c) (''0x'' @ hex_EncodeToString b)) = None"
    and "grant_covers (main_verifier S T N c) (noble_client S T N c) (fixture_request (fixture_payload f addr auth sg pk) q) w1 w2"
    and "balance_covers (noble_client S T N c) auth w2 w3"
    and "BroadcastAuthzSend S T N c addr (ff_recipient f) (ff_asset f) (ff_amount f) w3 = ((h, None), w4)"
  shows "\<exists>m'. Settle S (NewSettler (main_verifier S T N c)) (fixture_request (fixture_payload f addr auth sg pk) q) (m, w) =
    (settle_paid h (ff_network f) addr, m', w4)"
proof -
  let ?req = "fixture_request (fixture_payload f addr auth sg pk) q"
  have win: "window_open (unat (Unix t')) ?req"
    using fixture_window [OF assms(9-11)] assms(13,14) by (simp add: auth_def q_def)
  have "Verify S (main_verifier S T N c) ?req (m, w) = (Inr (a_From (request_auth ?req)), m, w3)"
    by (rule matching_request_verifies [where client = "noble_client S T N c" and ?e1.0 = w1 and ?e2.0 = w2 and t = t'
          and sg = sg and pk = pk and priv = priv and mnemonic = "ff_payerMnemonic f" and invalid = "ErrNew ''invalid mnemonic''"])
      (use assms win fixture_supported [OF assms(3,4)] in
        \<open>simp_all add: fixture_matches fixture_deriveKey_def Exists_def auth_def q_def\<close>)
  then have verified: "Verify S (main_verifier S T N c) ?req (m, w) = (Inr addr, m, w3)"
    by (simp add: auth_def)
  have to: "a_To auth = ff_recipient f" "a_Denom auth = ff_asset f" "a_Amount auth = ff_amount f"
    by (simp_all add: auth_def fixture_authorization_def)
  show ?thesis
    using verified_settles [OF verified] assms(3,4,15,18) to by (simp add: auth_def)
qed

end
