(* ===== verification/Keygen.thy ===== *)
theory Keygen
  imports Noble Keys
begin

text \<open>
  \<open>tools/keygen/main.go\<close>: two fresh accounts, printed with their mnemonics. \<open>entropy\<close> is \<open>bip39.NewEntropy\<close>, which
  draws on the state. The result is the text on the standard output, with the panic that ended the program, if one did.
\<close>

definition newAccount ::
  "cosmos_sdk \<Rightarrow> (nat \<Rightarrow> 'y \<Rightarrow> (goerr + bytes) \<times> 'y) \<Rightarrow> string \<Rightarrow> 'y \<Rightarrow> (exit + string \<times> string) \<times> 'y" where
  "newAccount S entropy prefix y =
     (case entropy 256 y of
        (Inl err, y1) \<Rightarrow> (Inl (Panic err), y1)
      | (Inr e, y1) \<Rightarrow>
     (case NewMnemonic S e of
        Inl err \<Rightarrow> (Inl (Panic err), y1)
      | Inr mnemonic \<Rightarrow>
          let seed = NewSeed S mnemonic [];
              (master, ch) = ComputeMastersFromSeed S seed in
         (case DerivePrivateKeyForPath S master ch hd_path of
            Inl err \<Rightarrow> (Inl (Panic err), y1)
          | Inr keyBz \<Rightarrow>
              let priv = keyBz in
             (case ConvertAndEncode S prefix (Address S (PubKey S priv)) of
                Inl err \<Rightarrow> (Inl (Panic err), y1)
              | Inr addr \<Rightarrow> (Inr (mnemonic, addr), y1)))))"

definition account_text :: "string \<Rightarrow> string \<Rightarrow> string \<Rightarrow> string" where
  "account_text label mnemonic addr =
     ''=== '' @ label @ '' ==='' @ newline @ ''mnemonic: '' @ mnemonic @ newline
       @ ''address:  '' @ addr @ newline @ newline"

fun print_accounts ::
  "cosmos_sdk \<Rightarrow> (nat \<Rightarrow> 'y \<Rightarrow> (goerr + bytes) \<times> 'y) \<Rightarrow> string list \<Rightarrow> 'y \<Rightarrow> (exit option \<times> string) \<times> 'y" where
  "print_accounts S entropy [] y = ((None, []), y)"
| "print_accounts S entropy (label # labels) y =
     (case newAccount S entropy ''noble'' y of
        (Inl ex, y1) \<Rightarrow> ((Some ex, []), y1)
      | (Inr (mnemonic, addr), y1) \<Rightarrow>
          let ((ex, out), y2) = print_accounts S entropy labels y1
          in ((ex, account_text label mnemonic addr @ out), y2))"

definition keygen_main ::
  "cosmos_sdk \<Rightarrow> (nat \<Rightarrow> 'y \<Rightarrow> (goerr + bytes) \<times> 'y) \<Rightarrow> 'y \<Rightarrow> (exit option \<times> string) \<times> 'y" where
  "keygen_main S entropy y = print_accounts S entropy [''FACILITATOR'', ''PAYER''] y"

lemma newAccount_mnemonic:
  "newAccount S entropy prefix y = (Inr (mnemonic, addr), y1) \<Longrightarrow> \<exists>e. NewMnemonic S e = Inr mnemonic"
  by (auto simp: newAccount_def Let_def split: sum.splits prod.splits)

text \<open>A printed mnemonic derives to the printed address, in the facilitator and in the tools.\<close>

lemma newAccount_derives:
  assumes "newAccount S entropy prefix y = (Inr (mnemonic, addr), y1)" and "IsMnemonicValid S mnemonic"
  shows "\<exists>priv. deriveCosmosKey S mnemonic prefix = Inr (priv, addr)"
    and "trim_space mnemonic = mnemonic \<Longrightarrow> \<exists>priv. derive_trimmed invalid S mnemonic prefix = Inr (priv, addr)"
  using assms
  by (auto simp: newAccount_def deriveCosmosKey_def derive_trimmed_def Let_def split: sum.splits prod.splits)

lemma keygen_main_success:
  "keygen_main S entropy y = ((None, out), y2) \<longleftrightarrow>
    (\<exists>m1 a1 m2 a2 y1. newAccount S entropy ''noble'' y = (Inr (m1, a1), y1) \<and> newAccount S entropy ''noble'' y1 = (Inr (m2, a2), y2)
      \<and> out = account_text ''FACILITATOR'' m1 a1 @ account_text ''PAYER'' m2 a2)"
  by (auto simp: keygen_main_def Let_def split: sum.splits prod.splits)

end
