(* ===== verification/DemoTools.thy ===== *)
theory DemoTools
  imports DemoRun Grant Fixture Keygen
begin

text \<open>
  The command-line tools on the packages and endpoints of \<open>Instances\<close>: a payer who grants, a fixture that is posted to
  the facilitator, two fresh accounts, and the demo client with \<open>X402_EXPIRED=1\<close>.
\<close>

section \<open>grant\<close>

definition demo_grant_flags :: grant_flags where
  "demo_grant_flags =
     \<lparr>gf_mnemonic = ''k'', gf_grantee = ''noble1facilitator'', gf_spendLimit = ''1000000uusdc'', gf_expiration = 3600000000000,
      gf_chainID = ''grand-1'', gf_prefix = ''noble'', gf_grpcEndpoint = ''grpc'', gf_grpcTLS = False,
      gf_rpcEndpoint = ''rpc'', gf_gasDenom = ''uusdc''\<rparr>"

lemma demo_prefixes [simp]: "set_prefixes ''noble'' (demo_world t cs x) = demo_world t cs x"
  by (simp add: set_prefixes_def demo_world_def demo_config_def)

lemma demo_dials [simp]:
  "call c (NewGRPC demo_net a u) (demo_world t cs x) = (None, demo_world t (cs @ [c]) x)"
  "call c (NewRPC demo_net a b) (demo_world t cs x) = (None, demo_world t (cs @ [c]) x)"
  by (simp_all add: call_def demo_net_def demo_world_def)

lemma demo_derive_trimmed: "derive_trimmed invalid demo_sdk ''k'' ''noble'' = Inr (demo_key, demo_payer)"
proof -
  have "demo_getenv ''X402_PAYER_MNEMONIC'' = ''k''" by (simp add: demo_getenv_def)
  with demo_derived have "derive_trimmed (ErrNew ''invalid mnemonic'') demo_sdk ''k'' ''noble'' = Inr (demo_key, demo_payer)"
    by (simp add: deriveKey_def)
  then show ?thesis by (rule derive_trimmed_invalid)
qed

lemma demo_grant_built:
  "\<exists>t bz. build_grant_tx demo_sdk demo_tx demo_txConfig demo_grant_flags priv granter acc msg num seq = Inr (t, bz)"
  by (simp add: build_grant_tx_def Let_def SetMsgs_def SetSignatures_def) (simp add: demo_txConfig_def demo_tx_def demo_sdk_def)

lemma demo_grant_wait:
  "grant_waitForTx demo_net h (30 * second) (demo_world t cs (Suc x)) = (None, demo_world t (cs @ [CallTx h]) (Suc x))"
  by (simp add: grant_waitForTx_def wait_loop.simps included_def background_def)

lemma demo_grant_run: "\<exists>w'. grant_main demo_sdk demo_codec demo_tx demo_net demo_grant_flags (demo_world 1000 [] 1) = (None, w')"
proof -
  have flags: "gf_mnemonic demo_grant_flags = ''k''" "gf_prefix demo_grant_flags = ''noble''" "gf_grantee demo_grant_flags = ''noble1facilitator''"
    by (simp_all add: demo_grant_flags_def)
  have sdk: "ParseCoinsNormalized demo_tx s = Inr [\<lparr>coin_Denom = ''uusdc'', coin_Amount = takeWhile is_digit s\<rparr>]"
    "AccAddressFromBech32 demo_tx p a = Inr a" "NewMsgGrant demo_tx x y auth e = Inr (MsgGrant x y auth (Some e))"
    "UnpackAccount demo_cdc any = Inr (7, 3)" for s p a x y auth e any
    by (simp_all add: demo_tx_def demo_cdc_def)
  have codec: "grant_makeCodec demo_codec (gf_prefix demo_grant_flags) = Inr (demo_cdc, demo_txConfig)"
    by (simp add: grant_makeCodec_def demo_codec_def demo_grant_flags_def)
  have conn: "\<exists>w'. grant_on_conn demo_sdk demo_codec demo_tx demo_net demo_grant_flags priv granter acc msg (demo_world 1000 cs 1) = (Inr None, w')"
    for priv granter acc msg cs
  proof -
    obtain t bz where b: "build_grant_tx demo_sdk demo_tx demo_txConfig demo_grant_flags priv granter acc msg 7 3 = Inr (t, bz)"
      using demo_grant_built by blast
    show ?thesis
      by (simp add: grant_on_conn_def sdk codec b demo_grant_wait [of _ _ _ 0, simplified])
  qed
  have prefix: "fst (account_prefix demo_config) = ''noble''" by (simp add: demo_config_def)
  let ?msg = "MsgGrant demo_payer ''noble1facilitator'' (SendAuthorization [\<lparr>coin_Denom = ''uusdc'',
      coin_Amount = takeWhile is_digit (gf_spendLimit demo_grant_flags)\<rparr>])
    (Some (time_Add (gotime_of (1000 * second)) (gf_expiration demo_grant_flags)))"
  obtain w3 where c: "grant_on_conn demo_sdk demo_codec demo_tx demo_net demo_grant_flags demo_key demo_payer demo_payer ?msg
      (demo_world 1000 [CallNewGRPC (gf_grpcEndpoint demo_grant_flags) (gf_grpcTLS demo_grant_flags)] 1) = (Inr None, w3)"
    using conn by blast
  have "grant_run demo_sdk demo_codec demo_tx demo_net demo_grant_flags (demo_world 1000 [] 1) = (Inr None, Close w3)"
    by (simp add: grant_run_def grant_deriveKey_def demo_derive_trimmed grant_dialGRPC_def flags sdk prefix c [unfolded One_nat_def])
  then show ?thesis by (simp add: grant_main_def flags)
qed

section \<open>fixture\<close>

definition demo_fixture :: fixture_flags where
  "demo_fixture =
     \<lparr>ff_payerMnemonic = ''k'', ff_recipient = ''noble1seller'', ff_facilitator = ''noble1facilitator'', ff_amount = ''10000'',
      ff_asset = ''uusdc'', ff_network = ''cosmos:grand-1'', ff_chainID = ''grand-1'', ff_prefix = ''noble'',
      ff_resource = ''http://shop/premium'', ff_validitySeconds = 50, ff_maxTimeoutSeconds = 60, ff_output = ''-''\<rparr>"

definition demo_fixture_env :: "(nat world) fixture_env" where
  "demo_fixture_env = \<lparr>fx_rand = demo_rand, fx_Now = time_Now demo_net, fx_WriteFile = (\<lambda>p d m w. (None, w))\<rparr>"

abbreviation fixture_auth :: Authorization where
  "fixture_auth \<equiv> fixture_authorization demo_fixture demo_payer (''0x'' @ hex_EncodeToString (replicate 32 (CHR ''r''))) demo_now"

lemma demo_fixture_sel [simp]:
  "ff_payerMnemonic demo_fixture = ''k''" "ff_recipient demo_fixture = ''noble1seller''" "ff_facilitator demo_fixture = ''noble1facilitator''"
  "ff_amount demo_fixture = ''10000''" "ff_asset demo_fixture = ''uusdc''" "ff_network demo_fixture = ''cosmos:grand-1''"
  "ff_chainID demo_fixture = ''grand-1''" "ff_prefix demo_fixture = ''noble''" "ff_validitySeconds demo_fixture = 50"
  "ff_maxTimeoutSeconds demo_fixture = 60" "ff_output demo_fixture = ''-''"
  by (simp_all add: demo_fixture_def)

lemma demo_fixture_env_sel [simp]: "fx_rand demo_fixture_env = demo_rand" "fx_Now demo_fixture_env = time_Now demo_net"
  by (simp_all add: demo_fixture_env_def)

lemma demo_fixture_valid: "valid_fixture demo_fixture"
  by (simp add: valid_fixture_def demo_fixture_def)

lemma demo_fixture_signed: "\<exists>sg pk. sign_authorization demo_sdk demo_key fixture_auth = Inr (sg, pk)"
proof (rule demo_preimage_signed)
  show "valid_Authorization fixture_auth"
    using fixture_valid(1) [OF demo_fixture_valid demo_payer_valid, of "replicate 32 (CHR ''r'')" demo_now "[]" "[]"]
    by (simp add: valid_Payload_def valid_CosmosPayload_def)
  have "unat (demo_now - 5) = 1005" "unat (demo_now + 50) = 1060"
    using unat_minus_small [of 5 demo_now] unat_plus_small [of demo_now 50] by (simp_all add: demo_now_value)
  then show "exact_times fixture_auth" by (simp add: exact_times_def fixture_authorization_def)
qed

lemma demo_fixture_grant: "grant_covers demo_verifier demo_chain
    (fixture_request (fixture_payload demo_fixture demo_payer fixture_auth sg pk) (fixture_requirements demo_fixture))
    (demo_world t cs x) (demo_world t (cs @ [CallGrants demo_payer ''noble1facilitator'' (MsgSendTypeURL demo_tx)]) x)"
  by (simp add: grant_covers_def fixture_requirements_def fixture_authorization_def QuerySendAuthorization_def demo_tx_def
      demo_amounts check_expiry_def Let_def)

lemma demo_fixture_balance:
  "balance_covers demo_chain fixture_auth (demo_world t cs x) (demo_world t (cs @ [CallBalance demo_payer ''uusdc'']) x)"
  by (simp add: balance_covers_def fixture_authorization_def QueryBalance_def demo_amounts)

section \<open>keygen\<close>

definition demo_keygen_sdk :: cosmos_sdk where
  "demo_keygen_sdk = demo_sdk\<lparr>NewMnemonic := (\<lambda>e. Inr ''word'')\<rparr>"

lemma demo_keygen: "\<exists>out y. keygen_main demo_keygen_sdk (\<lambda>n y. (Inr [], y)) (0::nat) = ((None, out), y)"
  by (simp add: keygen_main_def newAccount_def Let_def demo_keygen_sdk_def demo_sdk_def)

section \<open>An expired payment\<close>

definition demo_getenv_expired :: "string \<Rightarrow> string" where
  "demo_getenv_expired k = (if k = ''X402_EXPIRED'' then ''1'' else demo_getenv k)"

lemma demo_signed_expired:
  "\<exists>sg pk. signAuth demo_sdk demo_key
     (make_authorization demo_requirements demo_payer (run_nonce demo_getenv_expired b) demo_now True) = Inr (sg, pk)"
  unfolding signAuth_def
proof (rule demo_preimage_signed)
  have "valid_Requirements demo_requirements"
    using demo_valid_request by (simp add: valid_Request_def)
  then show "valid_Authorization (make_authorization demo_requirements demo_payer (run_nonce demo_getenv_expired b) demo_now True)"
    using run_nonce_valid demo_payer_valid by (simp add: valid_Authorization_def valid_Requirements_def valid_Extra_def)
  show "exact_times (make_authorization demo_requirements demo_payer (run_nonce demo_getenv_expired b) demo_now True)"
    using expired_window [of demo_now] demo_now_value by (simp add: exact_times_def)
qed

end
