(* ===== verification/Traffic.thy ===== *)
theory Traffic
  imports Payer
begin

text \<open>
  The whole program in operation: requests reach the facilitator directly, requests reach shops (servers with the middleware, each with
  a configuration of its own) that ask this facilitator, and the collector ticks, in any order and any number. Every event
  is a course of the ledger, so what the ledger says of courses holds for the traffic.
\<close>

datatype traffic = ToFacilitator http_request | ToShop Config http_request | Tick

fun handle ::
  "cosmos_sdk \<Rightarrow> tx_sdk \<Rightarrow> 'x network \<Rightarrow> NobleClient \<Rightarrow> (string \<Rightarrow> string) \<Rightarrow> ('x \<Rightarrow> delivery) \<Rightarrow> traffic \<Rightarrow>
    MemoryNonceStore \<times> 'x world \<Rightarrow> http_response option \<times> MemoryNonceStore \<times> 'x world" where
  "handle S T N c jerr link (ToFacilitator r) y =
     (let (wr, y1) = serve_http S jerr (main_verifier S T N c) r y in (Some (response wr), y1))"
| "handle S T N c jerr link (ToShop cfg r) y =
     (let (wr, y1) = shop S T N c jerr link cfg r y in (Some (response wr), y1))"
| "handle S T N c jerr link Tick y = (let (n, y1) = gc_tick N y in (None, y1))"

fun operate ::
  "cosmos_sdk \<Rightarrow> tx_sdk \<Rightarrow> 'x network \<Rightarrow> NobleClient \<Rightarrow> (string \<Rightarrow> string) \<Rightarrow> ('x \<Rightarrow> delivery) \<Rightarrow> traffic list \<Rightarrow>
    MemoryNonceStore \<times> 'x world \<Rightarrow> (traffic \<times> http_response option) list \<times> MemoryNonceStore \<times> 'x world" where
  "operate S T N c jerr link [] y = ([], y)"
| "operate S T N c jerr link (ev # evs) y =
     (let (a, y1) = handle S T N c jerr link ev y; (log, y2) = operate S T N c jerr link evs y1 in ((ev, a) # log, y2))"

text \<open>A shop's configuration and a request are text.\<close>

fun proper :: "traffic \<Rightarrow> bool" where
  "proper (ToShop cfg r) = proper_request cfg r"
| "proper _ = True"

text \<open>The settlement that a request to a shop asks for, and those whose resource was delivered: status 200 on the protected path.\<close>

definition asked_settlement :: "(string \<Rightarrow> string) \<Rightarrow> Config \<Rightarrow> http_request \<Rightarrow> VerifyRequest option" where
  "asked_settlement jerr cfg r =
     (case decodePayload jerr (header_Get (r_Header r) ''PAYMENT-SIGNATURE'') of
        Inl _ \<Rightarrow> None
      | Inr p \<Rightarrow> Some (settle_request p (buildRequirements (with_defaults cfg) r)))"

fun delivered :: "(string \<Rightarrow> string) \<Rightarrow> traffic \<times> http_response option \<Rightarrow> (Config \<times> VerifyRequest option) list" where
  "delivered jerr (ToShop cfg r, Some a) =
     (if r_Path r = ''/premium'' \<and> hr_Status a = 200 then [(cfg, asked_settlement jerr cfg r)] else [])"
| "delivered jerr _ = []"

definition deliveries :: "(string \<Rightarrow> string) \<Rightarrow> (traffic \<times> http_response option) list \<Rightarrow> (Config \<times> VerifyRequest option) list" where
  "deliveries jerr log = concat (map (delivered jerr) log)"

lemma deliveries_simps [simp]:
  "deliveries jerr [] = []" "deliveries jerr (x # log) = delivered jerr x @ deliveries jerr log"
  by (simp_all add: deliveries_def)

section \<open>What an event does\<close>

lemma serve_http_does:
  assumes "serve_http S jerr (main_verifier S T N c) r (m, w) = (wr, m', w')" and "mem_invar m"
  shows "\<exists>d. program.does d (m, w) (m', w')"
proof -
  have idle: "program.does Quiet (m, w) (m, w)" by (rule program.idle_does) (simp_all add: assms(2))
  consider "(m', w') = (m, w)"
    | req q where "Verify S (main_verifier S T N c) req (m, w) = (q, m', w')"
    | req q where "Settle S (NewSettler (main_verifier S T N c)) req (m, w) = (q, m', w')"
    using assms(1)
    by (auto simp: serve_http_def verifyHandler_def settleHandler_def Let_def
        split: if_splits option.splits sum.splits prod.splits)
  then show ?thesis
  proof cases
    case 1
    with idle show ?thesis by auto
  next
    case 2
    from program.Verify_does [OF 2 assms(2)] show ?thesis by blast
  next
    case 3
    from program.Settle_does [OF 3 assms(2)] show ?thesis by blast
  qed
qed

text \<open>The middleware: what it asked for is what was done, unless the request was lost.\<close>

lemma Paid_does:
  assumes "proper_request cfg r" and "mem_invar m"
    and "admitted (facilitator_env S T N c jerr (mw_FacilitatorURL cfg) link) cfg r (m, w) = None"
    and "Paid (facilitator_env S T N c jerr (mw_FacilitatorURL cfg) link) cfg next rw r (m, w) = (wr, m', w')"
  shows "\<exists>d. program.does d (m, w) (m', w')"
proof -
  have "program.does Quiet (m, w) (m, w)" by (rule program.idle_does) (simp_all add: assms(2))
  moreover obtain p resp st1 where "(m', w') = (m, w) \<or> (m', w') = st1"
    and "Settle S (NewSettler (main_verifier S T N c)) (settle_request p (buildRequirements (with_defaults cfg) r)) (m, w) = (resp, st1)"
    using service.service_refuses [OF assms(3,1,4)] by (metis prod.collapse)
  ultimately show ?thesis using program.Settle_does [OF _ assms(2)] by (metis prod.collapse)
qed

text \<open>What a shop may be paid: the recipient, the denomination and at most the amount of its configuration.\<close>

definition charged :: "Config \<Rightarrow> VerifyRequest \<Rightarrow> bool" where
  "charged cfg req \<longleftrightarrow>
     a_To (request_auth req) = mw_PayTo cfg \<and> a_Denom (request_auth req) = mw_Asset cfg
     \<and> at_most (a_Amount (request_auth req)) (mw_Amount cfg)"

lemma settled_charged:
  assumes "Settle S (NewSettler (main_verifier S T N c)) (settle_request p (buildRequirements (with_defaults cfg) r)) (m, w) = (resp, m', w')"
    and "s_Success resp" and "mem_invar m"
  shows "charged cfg (settle_request p (buildRequirements (with_defaults cfg) r))"
  using settled_facts(4) [OF assms]
  by (simp add: requirements_met_def charged_def buildRequirements_def Let_def)

lemma does_then_idle:
  "program.does d st (m, w1) \<Longrightarrow> sent_payments w2 = sent_payments w1 \<Longrightarrow> program.does d st (m, w2)"
  by (cases st) (auto simp: program.does_def split: deed.splits)

lemma time_Now_sent: "time_Now N w = (t, w1) \<Longrightarrow> sent_payments w1 = sent_payments w"
  using w_calls_time_Now [of N w] by (simp add: sent_payments_def)

lemma premium_sent:
  "premium (\<lambda>(m, w). let (t, w1) = time_Now N w in (t, m, w1)) wr r (m, w) = (wr', m', w') \<Longrightarrow>
    m' = m \<and> sent_payments w' = sent_payments w"
  by (auto simp: premium_def time_Now_sent Let_def split: prod.splits)

lemma shop_does:
  assumes "shop S T N c jerr link cfg r (m, w) = (wr, m', w')" and "proper (ToShop cfg r)" and "mem_invar m"
  shows "\<exists>d. program.does d (m, w) (m', w') \<and>
    (r_Path r = ''/premium'' \<and> hr_Status (response wr) = 200 \<longrightarrow>
      (\<exists>req. asked_settlement jerr cfg r = Some req \<and> d = PaidFor req \<and> charged cfg req))"
proof (cases "r_Path r = ''/premium''")
  case False
  moreover have "program.does Quiet (m, w) (m, w)" by (rule program.idle_does) (simp_all add: assms(3))
  ultimately show ?thesis using assms(1) by (auto simp: shop_def server_mux_def split: if_splits)
next
  case True
  let ?H = "facilitator_env S T N c jerr (mw_FacilitatorURL cfg) link"
  let ?Now = "\<lambda>(m, w). let (t, w1) = time_Now N w in (t, m, w1)"
  let ?q = "buildRequirements (with_defaults cfg) r"
  have run: "Paid ?H cfg (premium ?Now) new_writer r (m, w) = (wr, m', w')"
    using assms(1) True by (simp add: shop_def server_mux_def)
  show ?thesis
  proof (cases "admitted ?H cfg r (m, w)")
    case None
    have "rw_sent new_writer = None" by simp
    from Paid_refused [OF None this] have "hr_Status (response wr) = 402"
      using run by (metis fst_conv)
    with Paid_does [OF _ assms(3) None run] assms(2) show ?thesis by auto
  next
    case (Some x)
    then obtain resp m1 w1 where adm: "admitted ?H cfg r (m, w) = Some (resp, m1, w1)" by (cases x) auto
    obtain p where p: "decodePayload jerr (header_Get (r_Header r) ''PAYMENT-SIGNATURE'') = Inr p"
      and settle: "Settle S (NewSettler (main_verifier S T N c)) (settle_request p ?q) (m, w) = (resp, m1, w1)"
      and ok: "s_Success resp"
      using admitted_settled [OF adm] assms(2) by auto
    have "premium ?Now (setResponseHeader resp new_writer) r (m1, w1) = (wr, m', w')"
      using run Paid_admitted [OF adm] by metis
    then have "m' = m1" "sent_payments w' = sent_payments w1" by (simp_all add: premium_sent)
    with program.Settle_does [OF settle assms(3)] does_then_idle
    have "program.does (PaidFor (settle_request p ?q)) (m, w) (m', w')"
      using ok by (metis settle_deed_def)
    with p settled_charged [OF settle ok assms(3)] show ?thesis by (auto simp: asked_settlement_def)
  qed
qed

lemma handle_does:
  assumes "handle S T N c jerr link ev (m, w) = (a, m', w')" and "proper ev" and "mem_invar m"
  shows "\<exists>d. program.does d (m, w) (m', w') \<and>
    (delivered jerr (ev, a) = [] \<or>
     (\<exists>cfg req. delivered jerr (ev, a) = [(cfg, Some req)] \<and> d = PaidFor req \<and> charged cfg req))"
proof (cases ev)
  case (ToFacilitator r)
  with assms show ?thesis using serve_http_does [of S jerr T N c r m w] by (auto split: prod.splits)
next
  case (ToShop cfg r)
  with assms obtain wr where "shop S T N c jerr link cfg r (m, w) = (wr, m', w')" "a = Some (response wr)"
    by (auto split: prod.splits)
  with shop_does [OF this(1)] assms ToShop show ?thesis by auto
next
  case Tick
  then obtain n where tick: "gc_tick N (m, w) = (n, m', w')" using assms(1) by (auto split: prod.splits)
  obtain now w1 where now: "time_Now N w = (now, w1)" by fastforce
  from program.gc_does [OF time_Now_sent [OF this] assms(3), of now] tick now have "program.does Quiet (m, w) (m', w')"
    by (auto simp: gc_tick_def split: prod.splits)
  with Tick show ?thesis by auto
qed

section \<open>Any traffic\<close>

lemma operate_course:
  assumes "operate S T N c jerr link evs (m, w) = (log, m', w')" and "list_all proper evs" and "mem_invar m"
  shows "\<exists>ds reqs. program.course ds (m, w) (m', w')
    \<and> map snd (deliveries jerr log) = map Some reqs
    \<and> list_all2 charged (map fst (deliveries jerr log)) reqs
    \<and> subseq reqs (concat (map paid_deed ds))"
  using assms
proof (induction evs arbitrary: m w log)
  case Nil
  then show ?case by (intro exI [of _ "[]"]) simp
next
  case (Cons ev evs)
  obtain a m1 w1 where ev: "handle S T N c jerr link ev (m, w) = (a, m1, w1)" by (metis prod.exhaust)
  obtain rest where rest: "operate S T N c jerr link evs (m1, w1) = (rest, m', w')" and log: "log = (ev, a) # rest"
    using Cons.prems(1) ev by (auto split: prod.splits)
  obtain d where d: "program.does d (m, w) (m1, w1)"
    and del: "delivered jerr (ev, a) = [] \<or>
      (\<exists>cfg req. delivered jerr (ev, a) = [(cfg, Some req)] \<and> d = PaidFor req \<and> charged cfg req)"
    using handle_does [OF ev _ Cons.prems(3)] Cons.prems(2) by auto
  obtain ds reqs where tail: "program.course ds (m1, w1) (m', w')"
    "map snd (deliveries jerr rest) = map Some reqs"
    "list_all2 charged (map fst (deliveries jerr rest)) reqs"
    "subseq reqs (concat (map paid_deed ds))"
    using Cons.IH [OF rest _ program.does_keeps(1) [OF d]] Cons.prems(2) by auto
  have course: "program.course (d # ds) (m, w) (m', w')" by (rule program.course.go [OF d tail(1)])
  from del show ?case
  proof (elim disjE exE conjE)
    assume "delivered jerr (ev, a) = []"
    with course tail show ?thesis
      by (intro exI [of _ "d # ds"] exI [of _ reqs]) (auto simp: log intro: list_emb_append2)
  next
    fix cfg req
    assume "delivered jerr (ev, a) = [(cfg, Some req)]" "d = PaidFor req" "charged cfg req"
    with course tail show ?thesis
      by (intro exI [of _ "d # ds"] exI [of _ "req # reqs"]) (auto simp: log)
  qed
qed

text \<open>From the store of \<open>main\<close>: the deliveries are payments of their own, all different.\<close>

lemma operate_delivers:
  assumes "operate S T N c jerr link evs (NewMemoryNonceStore, w) = (log, m', w')" and "list_all proper evs"
  shows "\<exists>reqs new. map snd (deliveries jerr log) = map Some reqs
    \<and> list_all2 charged (map fst (deliveries jerr log)) reqs
    \<and> distinct (map (\<lambda>req. request_id req) reqs)
    \<and> sent_payments w' = sent_payments w @ new \<and> subseq (map payment_of reqs) new"
proof -
  obtain ds reqs where course: "program.course ds (NewMemoryNonceStore, w) (m', w')"
    and del: "map snd (deliveries jerr log) = map Some reqs"
      "list_all2 charged (map fst (deliveries jerr log)) reqs"
    and sub: "subseq reqs (concat (map paid_deed ds))"
    using operate_course [OF assms mem_invar_new] by blast
  let ?key = "\<lambda>req. nonceKey (a_From (request_auth req)) (a_ChainID (request_auth req)) (a_Nonce (request_auth req))"
  have "distinct (map ?key reqs)"
    using program.course_pays_once [OF course] subseq_map [OF sub, of ?key] distinct_subseq by blast
  then have "distinct (map (\<lambda>(p, c, n). nonceKey p c n) (map (\<lambda>req. request_id req) reqs))" by (simp add: o_def)
  then have "distinct (map (\<lambda>req. request_id req) reqs)" using distinct_map by blast
  moreover obtain new where "sent_payments w' = sent_payments w @ new" "subseq (map payment_of (concat (map paid_deed ds))) new"
    using program.course_sent [OF course] by auto
  moreover have "subseq (map payment_of reqs) new"
    using subseq_map [OF sub, of payment_of] calculation(3) by (rule subseq_order.order_trans)
  ultimately show ?thesis using del by blast
qed

end
