(* ===== verification/Accounts.thy ===== *)
theory Accounts
  imports Concurrency "HOL-Library.Multiset"
begin

text \<open>
  The books of interleaved settlements. \<open>balanced\<close>: the payments handed over since the start are between those of the settlements whose broadcast
  succeeded and those of the settlements that broadcast at all, counted with multiplicity; this needs no restriction on the collector.

  \<open>account_step\<close> is the abstract specification of the nonce: an account that is free, held by one
  settlement, sent with its result, or settled for good. As long as no collection drops a reservation in flight, the interleaved
  settlements implement it, and the collector cannot be seen (\<open>implements_step\<close>).
\<close>

section \<open>Payments of interleaved settlements\<close>

lemma subset_add_mset: "A \<subseteq># B \<Longrightarrow> A \<subseteq># add_mset x B"
  by (metis add_mset_add_single mset_subset_eq_add_left subset_mset.order_trans)

lemma add_mset_subset: "add_mset x A \<subseteq># B \<Longrightarrow> A \<subseteq># B"
  by (metis add_mset_add_single mset_subset_eq_add_left subset_mset.order_trans)

fun broadcast_ok :: "phase \<Rightarrow> bool" where
  "broadcast_ok (Broadcast _ r) = (snd r = None)"
| "broadcast_ok (Answered r) = s_Success r"
| "broadcast_ok _ = False"

fun broadcast_made :: "phase \<Rightarrow> bool" where
  "broadcast_made (Broadcast _ _) = True"
| "broadcast_made (Answered r) = (s_Success r \<or> s_ErrorReason r = ErrBroadcastFailed)"
| "broadcast_made _ = False"

definition payments_of :: "(phase \<Rightarrow> bool) \<Rightarrow> (VerifyRequest \<times> phase) list \<Rightarrow> payment multiset" where
  "payments_of P ts = mset (map (\<lambda>(req, ph). payment_of req) (filter (\<lambda>(req, ph). P ph) ts))"

lemma payments_of_simps [simp]:
  "payments_of P [] = {#}"
  "payments_of P ((req, ph) # ts) = (if P ph then {#payment_of req#} else {#}) + payments_of P ts"
  "payments_of P (ts @ us) = payments_of P ts + payments_of P us"
  by (simp_all add: payments_of_def)

text \<open>The requests whose settlement is under way are for a network the facilitator serves.\<close>

definition under_way :: "('s, 'e) Verifier \<Rightarrow> VerifyRequest \<times> phase \<Rightarrow> bool" where
  "under_way v = (\<lambda>(req, ph). case ph of Arrived \<Rightarrow> True | Answered _ \<Rightarrow> True
     | _ \<Rightarrow> map_of (vf_chains v) (pp_Network (vr_PaymentPayload req)) \<noteq> None)"

lemma under_way_Arrived [simp]: "under_way v (req, Arrived)"
  by (simp add: under_way_def)

lemma advance_under_way:
  "advance S v req (ph, s, e) = (ph', s', e') \<Longrightarrow> under_way v (req, ph) \<Longrightarrow> under_way v (req, ph')"
  by (cases ph) (auto simp: under_way_def check_request_Inr requirements_met_def Let_def
      split: sum.splits option.splits prod.splits)

context local_facilitator
begin

text \<open>What one move sends: nothing, unless it is the broadcast.\<close>

lemma advance_quiet:
  assumes "advance S v req (ph, s, e) = (ph', s', e')" and "under_way v (req, ph)" and "\<forall>payer. ph \<noteq> Holding payer"
  shows "sent e' = sent e" and "broadcast_ok ph' \<Longrightarrow> broadcast_ok ph" and "broadcast_made ph \<Longrightarrow> broadcast_made ph'"
proof -
  have "sent e' = sent e \<and> (broadcast_ok ph' \<longrightarrow> broadcast_ok ph) \<and> (broadcast_made ph \<longrightarrow> broadcast_made ph')"
  proof (cases ph)
    case Arrived
    with assms check_request_sends_nothing [of req e] show ?thesis by (auto split: sum.splits prod.splits)
  next
    case Checked
    with assms show ?thesis by (auto split: option.splits prod.splits)
  next
    case Fresh
    then obtain client where client: "map_of (vf_chains v) (pp_Network (vr_PaymentPayload req)) = Some client"
      using assms(2) by (auto simp: under_way_def)
    from check_chain_sends_nothing [OF known_client [OF this], of req e] Fresh client assms(1) show ?thesis
      by (auto split: sum.splits prod.splits)
  next
    case (Verified payer)
    with assms show ?thesis by (auto split: option.splits prod.splits)
  next
    case (Broadcast payer r)
    with assms show ?thesis by (auto simp: broadcast_response_def split: option.splits prod.splits)
  qed (use assms in auto)
  then show "sent e' = sent e" and "broadcast_ok ph' \<Longrightarrow> broadcast_ok ph" and "broadcast_made ph \<Longrightarrow> broadcast_made ph'"
    by simp_all
qed

lemma advance_broadcasts:
  assumes "advance S v req (Holding payer, s, e) = (ph', s', e')" and "under_way v (req, Holding payer)"
  obtains h err where "ph' = Broadcast payer (h, err)" and "s' = s"
    and "sent e' \<in> {sent e, sent e @ [payment_of req]}" and "err = None \<Longrightarrow> sent e' = sent e @ [payment_of req]"
proof -
  obtain client where client: "map_of (vf_chains v) (pp_Network (vr_PaymentPayload req)) = Some client"
    using assms(2) by (auto simp: under_way_def)
  obtain h err e2 where b: "cl_BroadcastAuthzSend client (a_From (request_auth req)) (a_To (request_auth req))
      (a_Denom (request_auth req)) (a_Amount (request_auth req)) e = ((h, err), e2)" by (metis surj_pair)
  note contract = chain_client.broadcast_sends_one [OF known_client [OF client], of "a_From (request_auth req)" "a_To (request_auth req)"
      "a_Denom (request_auth req)" "a_Amount (request_auth req)" e]
    chain_client.success_sends [OF known_client [OF client], of "a_From (request_auth req)" "a_To (request_auth req)"
      "a_Denom (request_auth req)" "a_Amount (request_auth req)" e]
  have "ph' = Broadcast payer (h, err)" "s' = s" "e' = e2" using assms(1) client b by (auto simp: Let_def)
  with contract b that [of h err] show ?thesis by (auto simp: payment_of_def Let_def)
qed

definition balanced :: "payment multiset \<Rightarrow> ('s, 'e) config \<Rightarrow> bool" where
  "balanced base = (\<lambda>(ts, s, e). list_all (under_way v) ts \<and>
     base + payments_of broadcast_ok ts \<subseteq># mset (sent e) \<and> mset (sent e) \<subseteq># base + payments_of broadcast_made ts)"

lemma balanced_step:
  assumes "step S v gc sent guard c c'" and "balanced base c"
  shows "balanced base c'"
  using assms(1)
proof cases
  case (run i ts req ph s e ph' s' e')
  define us where "us = take i ts"
  define vs where "vs = drop (Suc i) ts"
  have ts: "ts = us @ (req, ph) # vs" "ts[i := (req, ph')] = us @ (req, ph') # vs"
    unfolding us_def vs_def using run(3,4) by (metis id_take_nth_drop, metis upd_conv_take_nth_drop)
  from assms(2) have way: "list_all (under_way v) ts" and bal: "base + payments_of broadcast_ok ts \<subseteq># mset (sent e)"
    "mset (sent e) \<subseteq># base + payments_of broadcast_made ts" by (auto simp: balanced_def run)
  then have here: "under_way v (req, ph)" by (simp add: ts)
  have way': "list_all (under_way v) (us @ (req, ph') # vs)"
    using way advance_under_way [OF run(5) here] by (simp add: ts)
  show ?thesis
  proof (cases "\<exists>payer. ph = Holding payer")
    case True
    then obtain payer where ph: "ph = Holding payer" by blast
    obtain h err where "ph' = Broadcast payer (h, err)" "sent e' \<in> {sent e, sent e @ [payment_of req]}"
      "err = None \<Longrightarrow> sent e' = sent e @ [payment_of req]"
      using advance_broadcasts [OF run(5) [unfolded ph]] here ph by metis
    with bal [unfolded ts(1)] way' ph show ?thesis
      unfolding run(2) balanced_def ts(2) by (auto intro: subset_add_mset)
  next
    case False
    note quiet = advance_quiet [OF run(5) here, simplified, OF this [simplified]]
    with bal [unfolded ts(1)] way' show ?thesis
      unfolding run(2) balanced_def ts(2)
      by (auto intro: subset_add_mset add_mset_subset split: if_splits)
  qed
qed (use assms(2) in \<open>auto simp: balanced_def under_way_def\<close>)

lemma balanced_reachable:
  "(step S v gc sent guard)\<^sup>*\<^sup>* c c' \<Longrightarrow> balanced base c \<Longrightarrow> balanced base c'"
  by (induction rule: rtranclp_induct) (auto intro: balanced_step)

end

section \<open>The account of a nonce\<close>

datatype account = Unspent | HeldBy VerifyRequest | SentBy VerifyRequest bool | SpentBy VerifyRequest

text \<open>The specification: a state is the account of every nonce, by its key, and the payments handed over.\<close>

inductive account_step ::
  "(VerifyRequest \<Rightarrow> 'k) \<Rightarrow> ('k \<Rightarrow> account) \<times> payment list \<Rightarrow> ('k \<Rightarrow> account) \<times> payment list \<Rightarrow> bool"
  for key where
  hold: "f (key req) = Unspent \<Longrightarrow> account_step key (f, ps) (f(key req := HeldBy req), ps)"
| send: "f (key req) = HeldBy req \<Longrightarrow>
    account_step key (f, ps) (f(key req := SentBy req True), ps @ [payment_of req])"
| fail: "f (key req) = HeldBy req \<Longrightarrow> ps' \<in> {ps, ps @ [payment_of req]} \<Longrightarrow>
    account_step key (f, ps) (f(key req := SentBy req False), ps')"
| spend: "f (key req) = SentBy req True \<Longrightarrow> account_step key (f, ps) (f(key req := SpentBy req), ps)"
| free: "f (key req) = SentBy req False \<Longrightarrow> account_step key (f, ps) (f(key req := Unspent), ps)"

text \<open>In the specification, what is spent stays spent, and has been paid for.\<close>

inductive_cases account_stepE: "account_step key c c'"

lemma spent_for_good:
  "(account_step key)\<^sup>*\<^sup>* c c' \<Longrightarrow> fst c k = SpentBy req \<Longrightarrow> fst c' k = SpentBy req"
  by (induction rule: rtranclp_induct) (auto elim!: account_stepE)

lemma accounts_paid:
  assumes "(account_step key)\<^sup>*\<^sup>* (\<lambda>_. Unspent, ps0) c"
  shows "\<exists>new. snd c = ps0 @ new \<and> (\<forall>k req. fst c k \<in> {SpentBy req, SentBy req True} \<longrightarrow> payment_of req \<in> set new)"
  using assms
proof (induction rule: rtranclp_induct)
  case (step c1 c2)
  then obtain new where new: "snd c1 = ps0 @ new"
    "\<And>k req. fst c1 k \<in> {SpentBy req, SentBy req True} \<Longrightarrow> payment_of req \<in> set new" by auto
  from step.hyps(2) show ?case
  proof cases
    case (send f req ps)
    with new show ?thesis by (intro exI [of _ "new @ [payment_of req]"]) (auto split: if_splits)
  next
    case (fail f req ps' ps)
    then obtain more where more: "ps' = ps0 @ new @ more" using new(1) by auto
    have "payment_of r \<in> set (new @ more)" if "f k \<in> {SpentBy r, SentBy r True}" for k r
      using new(2) [of k r] that by (auto simp: fail(1))
    with more show ?thesis unfolding fail(2) by (intro exI [of _ "new @ more"]) auto
  next
    case (spend f req ps)
    with new(1) new(2) [of "key req" req] new(2) show ?thesis by (intro exI [of _ new]) (auto split: if_splits)
  qed (use new in \<open>auto split: if_splits\<close>)
qed simp

text \<open>What an account says of the settlements and of the status in the store.\<close>

definition agrees ::
  "(VerifyRequest \<Rightarrow> 'k) \<Rightarrow> (VerifyRequest \<times> phase) list \<Rightarrow> nonce_status \<Rightarrow> 'k \<Rightarrow> account \<Rightarrow> bool" where
  "agrees key ts st k a =
     (case a of
        Unspent \<Rightarrow> st = Unseen
      | HeldBy req \<Rightarrow> key req = k \<and> (\<exists>p. (req, Holding p) \<in> set ts)
      | SentBy req ok \<Rightarrow> key req = k \<and> (\<exists>p r. (req, Broadcast p r) \<in> set ts \<and> ok = (snd r = None))
      | SpentBy req \<Rightarrow> key req = k \<and> (\<exists>r. (req, Answered r) \<in> set ts \<and> s_Success r))"

lemma agrees_simps [simp]:
  "agrees key ts st k Unspent \<longleftrightarrow> st = Unseen"
  "agrees key ts st k (HeldBy req) \<longleftrightarrow> key req = k \<and> (\<exists>p. (req, Holding p) \<in> set ts)"
  "agrees key ts st k (SentBy req ok) \<longleftrightarrow> key req = k \<and> (\<exists>p r. (req, Broadcast p r) \<in> set ts \<and> ok = (snd r = None))"
  "agrees key ts st k (SpentBy req) \<longleftrightarrow> key req = k \<and> (\<exists>r. (req, Answered r) \<in> set ts \<and> s_Success r)"
  by (simp_all add: agrees_def)

lemma in_set_update:
  "i < length ts \<Longrightarrow> ts ! i = x \<Longrightarrow> z \<in> set ts \<Longrightarrow> z \<noteq> x \<or> y = x \<Longrightarrow> z \<in> set (ts[i := y])"
  by (metis in_set_conv_nth length_list_update list_update_id nth_list_update_neq)

lemma agrees_update:
  assumes "agrees key ts st k a" and "i < length ts" and "ts ! i = (req, ph)"
    and "key req = k \<Longrightarrow> \<not> held ph \<and> (succeeded ph \<longrightarrow> ph' = ph)"
  shows "agrees key (ts[i := (req, ph')]) st k a"
proof -
  have kept: "z \<in> set (ts[i := (req, ph')])" if "z \<in> set ts" "z \<noteq> (req, ph) \<or> ph' = ph" for z
    using in_set_update [OF assms(2,3) that(1)] that(2) by blast
  show ?thesis
    using assms(1,4) kept by (cases a) (auto, (metis held.simps succeeded.simps prod.inject)+)
qed

lemma agrees_more: "agrees key ts st k a \<Longrightarrow> agrees key (ts @ us) st k a"
  by (cases a) auto

context local_facilitator
begin

definition implements :: "('s, 'e) config \<Rightarrow> ('k \<Rightarrow> account) \<times> payment list \<Rightarrow> bool" where
  "implements = (\<lambda>(ts, s, e) (f, ps). exclusive (ts, s, e) \<and> list_all (under_way v) ts \<and> ps = sent e
     \<and> (\<forall>k. agrees request_key ts (status s k) k (f k)))"

lemma agrees_status:
  assumes "exclusive (ts, s, e)" and "agrees request_key ts (status s k) k a"
  shows "case a of Unspent \<Rightarrow> status s k = Unseen | SpentBy _ \<Rightarrow> is_Consumed (status s k) | _ \<Rightarrow> \<exists>t. status s k = Reserved t"
proof -
  have "own req ph s" if "(req, ph) \<in> set ts" for req ph
    using that exclusiveD(2) [OF assms(1)] by (metis fst_conv in_set_conv_nth snd_conv)
  with assms(2) show ?thesis by (cases a) fastforce+
qed

lemma held_alone:
  assumes "exclusive (ts, s, e)" and "i < length ts" and "ts ! i = (req, ph)" and "held ph"
    and "(req', ph') \<in> set ts" and "held ph'" and "request_key req' = request_key req"
  shows "req' = req \<and> ph' = ph"
proof -
  obtain j where j: "j < length ts" "ts ! j = (req', ph')" using assms(5) by (metis in_set_conv_nth)
  have "j = i" using exclusiveD(3) [OF assms(1) j(1) assms(2)] assms j by auto
  with assms j show ?thesis by simp
qed

lemma advance_free:
  assumes "advance S v req (ph, s, e) = (ph', s', e')" and "invar s" and "\<not> held ph" and "\<not> held ph'"
  shows "status s' k = status s k" and "succeeded ph \<Longrightarrow> ph' = ph"
proof -
  have "status s' k = status s k"
  proof (cases ph)
    case Checked
    obtain u s1 where u: "check_nonce v (request_auth req) s = (u, s1)" by fastforce
    with Checked assms check_nonce_keeps(2) [OF assms(2) u] show ?thesis by (auto split: option.splits)
  next
    case (Verified payer)
    obtain u s1 where u: "reserve_nonce v (request_auth req) s = (u, s1)" by fastforce
    with Verified assms reserve_frame [OF u assms(2), of k] reserve_code(1) [OF _ assms(2), of "request_auth req" _ s1]
    show ?thesis by (cases "k = request_key req") (auto split: option.splits)
  qed (use assms in \<open>auto split: sum.splits prod.splits\<close>)
  then show "status s' k = status s k" .
  show "succeeded ph \<Longrightarrow> ph' = ph" using assms(1) by (cases ph) auto
qed

text \<open>A move of a settlement is a move of its account, or none.\<close>

lemma implements_run:
  assumes im: "implements (ts, s, e) (f, sent e)" and i: "i < length ts" "ts ! i = (req, ph)"
    and adv: "advance S v req (ph, s, e) = (ph', s', e')"
  shows "\<exists>a'. (account_step request_key)\<^sup>=\<^sup>= (f, sent e) a' \<and> implements (ts[i := (req, ph')], s', e') a'"
proof -
  let ?ts = "ts[i := (req, ph')]" and ?k = "request_key req"
  have ex: "exclusive (ts, s, e)" and way: "list_all (under_way v) ts"
    and ag: "agrees request_key ts (status s k) k (f k)" for k
    using im by (simp_all add: implements_def)
  have here: "under_way v (req, ph)" using way i by (metis list_all_length)
  have inv: "invar s" and own: "own req ph s" using exclusiveD(1,2) [OF ex i(1)] i(2) by auto
  have ex': "exclusive (?ts, s', e')" using exclusive_run [OF ex i adv] .
  have way': "list_all (under_way v) ?ts"
    using way advance_under_way [OF adv here] by (auto simp: list_all_length nth_list_update i(1))
  have mem: "(req, ph') \<in> set ?ts" using i(1) by (rule set_update_memI)
  note A = advance_store [OF adv inv own]
  have other: "agrees request_key ?ts (status s' k) k (f k)" if "k \<noteq> ?k" for k
    using agrees_update [OF ag i, of k ph'] A that by auto
  have change: "implements (?ts, s', e') (f(?k := a), sent e')" if "agrees request_key ?ts (status s' ?k) ?k a" for a
    using other that ex' way' by (simp add: implements_def)
  consider "\<not> held ph" "\<not> held ph'" | payer where "ph = Verified payer" "held ph'" | payer where "ph = Holding payer"
    | payer r where "ph = Broadcast payer r"
    using adv by (cases ph) (auto split: sum.splits option.splits prod.splits)
  then show ?thesis
  proof cases
    case 1
    have "\<forall>payer. ph \<noteq> Holding payer" using 1(1) by auto
    then have "sent e' = sent e" by (rule advance_quiet(1) [OF adv here])
    moreover have "agrees request_key ?ts (status s' ?k) ?k (f ?k)"
      using agrees_update [OF ag i, of ?k ph'] 1 advance_free [OF adv inv 1] by auto
    ultimately show ?thesis using change [of "f ?k"] by auto
  next
    case 2
    then have "status s ?k = Unseen" using A by auto
    then have "f ?k = Unspent" using agrees_status [OF ex ag, of ?k] by (auto split: account.splits)
    moreover have "sent e' = sent e" using advance_quiet(1) [OF adv here] 2 by auto
    moreover have "agrees request_key ?ts (status s' ?k) ?k (HeldBy req)"
      using mem 2 adv by (auto split: option.splits prod.splits)
    ultimately show ?thesis using change [of "HeldBy req"] account_step.hold [of f request_key req "sent e"] by auto
  next
    case 3
    then obtain h err where bc: "ph' = Broadcast payer (h, err)" "sent e' \<in> {sent e, sent e @ [payment_of req]}"
        "err = None \<Longrightarrow> sent e' = sent e @ [payment_of req]"
      using advance_broadcasts [OF adv [unfolded 3]] here by metis
    obtain t where "status s ?k = Reserved t" using own 3 by auto
    then have fk: "f ?k = HeldBy req"
      using agrees_status [OF ex ag, of ?k] ag [of ?k] held_alone [OF ex i] 3
      by (cases "f ?k") (fastforce+)
    have "agrees request_key ?ts (status s' ?k) ?k (SentBy req (err = None))"
      using mem bc(1) by auto
    then have im': "implements (?ts, s', e') (f(?k := SentBy req (err = None)), sent e')" by (rule change)
    have "account_step request_key (f, sent e) (f(?k := SentBy req (err = None)), sent e')"
      using account_step.send [of f request_key req "sent e", OF fk] account_step.fail [of f request_key req "sent e'" "sent e", OF fk]
        bc(2,3) by (cases err) simp_all
    with im' show ?thesis by blast
  next
    case 4
    obtain h err where r: "r = (h, err)" by fastforce
    obtain t where t: "status s ?k = Reserved t" using own 4 by auto
    then have fk: "f ?k = SentBy req (err = None)"
      using agrees_status [OF ex ag, of ?k] ag [of ?k] held_alone [OF ex i] 4 r
      by (cases "f ?k") (fastforce+)
    have s': "s' = finish_nonce v (request_auth req) r s" "sent e' = sent e"
        "ph' = Answered (broadcast_response (pp_Network (vr_PaymentPayload req)) payer r)"
      using adv 4 by auto
    show ?thesis
    proof (cases err)
      case None
      then have "agrees request_key ?ts (status s' ?k) ?k (SpentBy req)"
        using mem s'(3) r by (auto simp: broadcast_response_def)
      from change [OF this] account_step.spend [of f request_key req "sent e"] fk None s'(2) show ?thesis by auto
    next
      case (Some x)
      then have "agrees request_key ?ts (status s' ?k) ?k Unspent"
        using finish_status [OF inv t, of r] s'(1) r by simp
      from change [OF this] account_step.free [of f request_key req "sent e"] fk Some s'(2) show ?thesis by auto
    qed
  qed
qed

lemma implements_step:
  assumes "step S v gc sent spares_in_flight c c'" and "implements c a"
  shows "\<exists>a'. (account_step request_key)\<^sup>=\<^sup>= a a' \<and> implements c' a'"
proof -
  obtain f where a: "a = (f, sent (snd (snd c)))" using assms(2) by (auto simp: implements_def split: prod.splits)
  have ex: "exclusive c" using assms(2) by (auto simp: implements_def)
  note ex' = exclusive_step [OF assms(1) ex]
  from assms(1) show ?thesis
  proof cases
    case (arrive ts s e req)
    then have "implements c' a"
      using assms(2) ex' by (auto simp: implements_def intro: agrees_more)
    then show ?thesis by (intro exI [of _ a]) simp
  next
    case (run i ts req ph s e ph' s' e')
    with implements_run [of ts s e f i req ph ph' s' e'] assms(2) a show ?thesis by auto
  next
    case (collect ts now s e)
    have inv: "invar s" using ex collect by (simp add: exclusive_def)
    have "agrees request_key ts (status (snd (gc now s)) k) k (f k)" for k
    proof -
      have "agrees request_key ts (status s k) k (f k)" using assms(2) a collect by (simp add: implements_def)
      then show ?thesis using gc_status [OF inv, of now k] by (cases "f k") simp_all
    qed
    then have "implements c' a"
      using assms(2) ex' a collect by (auto simp: implements_def)
    then show ?thesis by (intro exI [of _ a]) simp
  next
    case (elapse e' e ts s)
    then have "implements c' a" using assms(2) ex' by (auto simp: implements_def)
    then show ?thesis by (intro exI [of _ a]) simp
  qed
qed

lemma implements_reachable:
  assumes "(step S v gc sent spares_in_flight)\<^sup>*\<^sup>* c c'" and "implements c a"
  shows "\<exists>a'. (account_step request_key)\<^sup>*\<^sup>* a a' \<and> implements c' a'"
  using assms(1)
proof (induction rule: rtranclp_induct)
  case base
  with assms(2) show ?case by blast
next
  case (step c1 c2)
  then obtain a1 where a1: "(account_step request_key)\<^sup>*\<^sup>* a a1" "implements c1 a1" by blast
  from implements_step [OF step.hyps(2) a1(2)] obtain a2 where
    "(account_step request_key)\<^sup>=\<^sup>= a1 a2" and a2: "implements c2 a2" by blast
  then have "a2 = a1 \<or> account_step request_key a1 a2" by blast
  with a1(1) have "(account_step request_key)\<^sup>*\<^sup>* a a2" by (elim disjE) (simp, rule rtranclp.rtrancl_into_rtrancl)
  with a2 show ?case by blast
qed

end

end
