(* ===== verification/Spec2Isabelle.thy ===== *)
theory Spec2Isabelle
  imports DemoTools Traffic Accounts
begin

text \<open>
  A model of \<open>x402-cosmos\<close>, a payment gate for HTTP resources: a client pays for a request with a signed authorization, a
  facilitator checks it and pulls the money on a Cosmos chain with an authz grant. The sources are Go, under \<open>src/\<close>;
  the specification is \<open>src/specs/scheme_exact_cosmos_authz.md\<close>.

  \<^bold>\<open>The program.\<close> The client (\<open>examples/client\<close>) asks a resource server (\<open>examples/server\<close>) and gets 402 with
  \<open>PaymentRequirements\<close> in a header. It signs an \<open>Authorization\<close> under ADR-036 and asks again with the \<open>PaymentPayload\<close> in a header. The
  middleware (\<open>middleware\<close>) posts both to \<open>/settle\<close> of the facilitator (\<open>facilitator/cmd\<close>), which verifies
  (\<open>verify.go\<close>), reserves the nonce (\<open>store.go\<close>), broadcasts (\<open>chain_noble.go\<close>), and commits or releases the nonce (\<open>settle.go\<close>). A
  goroutine collects stale reservations. The tools make keys (\<open>keygen\<close>), the grant (\<open>grant\<close>) and test bodies (\<open>fixture\<close>).

  \<^bold>\<open>Theories and sources.\<close>
  \<^item> \<open>Prelude\<close>, \<open>GoStrings\<close>, \<open>GoTime\<close>, \<open>GoErrors\<close>, \<open>GoFloat\<close>, \<open>Base64\<close>, \<open>Utf8\<close>, \<open>Sha256\<close>, \<open>Http\<close>: what the program uses of
    Go's standard library. A string is its bytes, a machine integer a word, an error a value of \<open>goerr\<close>, a fallible function a sum.
  \<^item> \<open>Json\<close>, \<open>JsonParse\<close>, \<open>JsonIndent\<close>, \<open>JsonStruct\<close>, \<open>JsonUtf8\<close>: \<open>encoding/json\<close>: printing, reading, indenting, structs by table.
  \<^item> \<open>Types\<close>, \<open>Wire\<close>: \<open>types.go\<close>; the locale \<open>wire_type\<close> (decoding what was encoded) is interpreted for each of the eight structs.
  \<^item> \<open>Sdk\<close>: the third-party packages as the records of parameters \<open>cosmos_sdk\<close>, \<open>tx_sdk\<close> and \<open>codec_sdk\<close> (from which \<open>makeCodec\<close> builds a
    \<open>codec\<close> and a \<open>tx_config\<close>); the endpoints of a chain as \<open>network\<close>; the \<open>world\<close> with its clock, the process-wide bech32 prefixes, the log of remote calls, and the outside \<open>'x\<close>.
  \<^item> \<open>Adr036\<close>: \<open>adr036.go\<close>. \<open>Chain\<close>: \<open>chain.go\<close>, the locale \<open>chain_client\<close> (only a broadcast sends a payment, and at most one).
  \<^item> \<open>Store\<close>: \<open>store.go\<close>; the locales \<open>nonce_store\<close>, \<open>reliable_store\<close> and \<open>collected_store\<close> state the contract of a store over the abstract status
    of a nonce (unseen, reserved, consumed), and the in-memory store interprets them.
  \<^item> \<open>Verify\<close>, \<open>Settle\<close>: \<open>verify.go\<close>, \<open>settle.go\<close>; the relation \<open>settles\<close> is the abstract specification of a settlement, the locales
    \<open>facilitator\<close> and \<open>local_facilitator\<close> hold what follows from the contracts alone.
  \<^item> \<open>Ledger\<close>: the deeds of a facilitator (\<open>does\<close>) and their sequences (\<open>course\<close>), on which every statement about payments of a history rests.
  \<^item> \<open>Noble\<close>: \<open>chain_noble.go\<close>. \<open>FacilitatorCmd\<close>: \<open>cmd/main.go\<close>, with the interpretation of \<open>local_facilitator\<close> on the verifier of \<open>main\<close>.
  \<^item> \<open>Concurrency\<close>: the step relation of interleaved settlements and collections; a settlement is cut where it touches shared state.
    \<open>Progress\<close>: the same steps with their labels, and their traces. \<open>Accounts\<close>: the account of a nonce as an abstract step relation, and the books of
    interleaved settlements. \<open>Broadcasts\<close>: the pieces of \<open>BroadcastAuthzSend\<close> between which other settlements can come.
  \<^item> \<open>Middleware\<close>: \<open>middleware.go\<close>; the locale \<open>settle_service\<close> (a call of \<open>/settle\<close> is a settlement, whose answer may be lost) is what it relies on.
    \<open>EndToEnd\<close>: middleware and facilitator joined by a connection \<open>link\<close> that may lose the request or the reply, and the interpretation of
    \<open>settle_service\<close> by the facilitator behind it.
  \<^item> \<open>Keys\<close>, \<open>Client\<close>, \<open>Server\<close>, \<open>Payer\<close>: the demo client and server, and a run of client, server and facilitator together.
    \<open>Traffic\<close>: any number of shops and clients in front of one facilitator.
  \<^item> \<open>Grant\<close>, \<open>Fixture\<close>, \<open>Keygen\<close>: \<open>tools/\<close>.
  \<^item> \<open>Instances\<close>, \<open>Hazards\<close>, \<open>DemoRun\<close>, \<open>DemoTools\<close>: concrete packages, endpoints and runs, on which the theorems with hypotheses are applied,
    and the executions in which a nonce is paid twice.

  \<^bold>\<open>State and operations.\<close> The nonce store is an association list (the Go map), its methods are atomic (the mutex). A method that talks to the
  chain takes and returns the world. \<open>Settle\<close>, the handlers, the middleware and the client pass the pair of store and world on. \<open>log.Fatal\<close> and
  panics of the commands are the values of \<open>exit\<close>.

  \<^bold>\<open>What is shown.\<close>
  \<^item> Payment: each response with the protected resource has its own payment, for all traffic (\<open>one_payment_per_delivery\<close>); no two successful settlements of the same nonce, for every sequence of requests (\<open>program_pays_once\<close>) and every interleaving in which no
    collection drops a reservation in flight (\<open>interleaved_settlements_exclude\<close>); the payments and the answers of a history match, in order for a
    sequence (\<open>history_is_accounted\<close>) and in number for an interleaving (\<open>interleaving_is_accounted\<close>); settlements end and leave no reservation behind
    (\<open>settlements_end_cleanly\<close>); what a settlement checks, does to the store and sends
    (\<open>settle_checks_everything\<close>, \<open>settle_effect\<close>, \<open>broadcast_submits_the_payment\<close>).
  \<^item> Refinement: \<open>Verify\<close> against the list of checks of the specification, settlements in one piece against settlements in steps,
    interleaved settlements against the account of a nonce (\<open>interleaving_refines_accounts\<close>), asking over HTTP
    against calling \<open>Settle\<close>, a client's run against one \<open>Settle\<close>.
  \<^item> The gate: the protected handler runs only for a request that was settled; an honest client is served; an expired one is refused.
  \<^item> Signatures, encodings and round trips; bounds and wrap-around of times and amounts; the number of polls.
  \<^item> The guards that cannot be dropped: \<open>collection_breaks_exclusion\<close>, \<open>late_confirmation_pays_twice\<close> and \<open>lost_reply_is_paid_but_refused\<close> are runs of
    the program in which something is paid twice, or paid and refused; \<open>shared_sequence_is_refused\<close> is about broadcasts that race.
  \<^item> The tools: what a successful grant has put on the chain, that a printed fixture settles, that printed accounts work.

  \<^bold>\<open>Fuel and bounds.\<close> The JSON reader has a fuel; the entry points give it one more than the length of the text. Every reader consumes a character, so
  that whatever some fuel reads this fuel reads (\<open>parse_consumes\<close>, \<open>parse_value_fuel\<close>), and everything that was printed is read back. The limit of
  10000 levels is Go's. The polling loop is a total function: the ticker fires once a second, so 30 seconds leave at most 32 polls
  (\<open>wait_is_bounded\<close>). Clock readings are nanoseconds since 1970; theorems on \<open>time.Unix\<close> name the bound \<open>unix_limit\<close> from which
  the conversion wraps.

  \<^bold>\<open>Hypotheses on other code.\<close> \<open>sorts_json\<close> (\<open>sdk.SortJSON\<close> sorts keys; numbers up to \<open>2^53\<close> survive, \<open>exact_times\<close>),
  \<open>signature_scheme\<close> (a signature verifies under its own key), in \<open>keygen_accounts_work\<close> that a new mnemonic is valid,
  and \<open>takes_sequence_once\<close> (the chain takes a sequence number once). Where a theorem has none of
  them, it holds for every behaviour of the packages.

  \<^bold>\<open>Not modelled.\<close> Log lines, the path cleaning and redirects of \<open>http.ServeMux\<close> (routes are matched exactly), the parsing of command lines
  (package \<open>flag\<close>), the text of JSON errors (a parameter), a body that breaks off while it is read, the decoding of non-integer numbers, and the tests.
  \<open>ListenAndServe\<close> either fails at once or serves. The order of \<open>/supported\<close> follows the model's list where Go's map has none.
\<close>

section \<open>Settlements\<close>

text \<open>
  C3. However the requests to \<open>/verify\<close> and \<open>/settle\<close> and the collections of the nonce store follow each other,
  from the empty store of \<open>main\<close> no two settlements of the same payer, chain and nonce succeed.
\<close>

theorem program_pays_once:
  "distinct (map (\<lambda>req. request_id req)
     (paid_requests (fst (serve_all S (main_verifier S T N c) GC evs (NewMemoryNonceStore, w)))))"
proof -
  obtain log m' w' where log: "serve_all S (main_verifier S T N c) GC evs (NewMemoryNonceStore, w) = (log, m', w')"
    by (metis surj_pair)
  from program.paid_once [OF this mem_invar_new]
  have "distinct (map (\<lambda>(p, c, n). nonceKey p c n) (map (\<lambda>req. request_id req) (paid_requests log)))"
    by (simp add: o_def)
  then have "distinct (map (\<lambda>req. request_id req) (paid_requests log))"
    using distinct_map by blast
  then show ?thesis by (simp add: log)
qed

text \<open>
  C4. The books are in order: of the payments that a history of requests and collections hands to the chain, in their order, each belongs to
  a settlement that was answered with a success or with \<open>broadcast_failed\<close>, no two to the same answer, and
  every success has its own.
\<close>

theorem history_is_accounted:
  assumes "serve_all S (main_verifier S T N c) GC evs (m, w) = (log, m', w')" and "mem_invar m"
  shows "\<exists>new. sent_payments w' = sent_payments w @ new
    \<and> subseq (map payment_of (paid_requests log)) new \<and> subseq new (map payment_of (broadcast_requests log))"
  using program.serve_all_sent [OF assms] .

theorem history_is_accounted_witness:
  "let (log, m', w') = serve_all demo_sdk demo_verifier GC [EvSettle demo_request, EvSettle demo_request] (NewMemoryNonceStore, demo_world 1010 [] 0) in
    paid_requests log = [demo_request] \<and> broadcast_requests log = [demo_request, demo_request]
    \<and> set (sent_payments w') = {payment_of demo_request}"
proof -
  obtain log m' w' where run: "serve_all demo_sdk demo_verifier GC [EvSettle demo_request, EvSettle demo_request]
      (NewMemoryNonceStore, demo_world 1010 [] 0) = (log, m', w')" by (metis surj_pair)
  then have log: "paid_requests log = [demo_request]" "broadcast_requests log = [demo_request, demo_request]"
    using demo_Settle [of 1010 "[]" 0] demo_Settle [of 1041 _ 1]
    by (auto simp: broadcast_requests_def settle_deed_def Let_def)
  from history_is_accounted [OF run mem_invar_new] obtain new where
    "sent_payments w' = sent_payments (demo_world 1010 [] 0) @ new"
    "subseq [payment_of demo_request] new" "subseq new [payment_of demo_request, payment_of demo_request]"
    by (auto simp: log)
  moreover from this have "set new = {payment_of demo_request}"
    by (auto simp: subseq_singleton_left dest: subseq_set)
  ultimately have "set (sent_payments w') = {payment_of demo_request}" by (simp add: sent_payments_def demo_world_def)
  with run log show ?thesis by simp
qed
text \<open>
  C5. A settlement hands at most its own payment to the chain, and only when it answers with a success or with
  \<open>broadcast_failed\<close>; after a success the nonce is consumed under the transaction hash, after
  \<open>broadcast_failed\<close> it is free again.
\<close>

theorem settle_effect:
  assumes "Settle S (NewSettler (main_verifier S T N c)) req (m, w) = (r, m', w')" and "mem_invar m"
  shows "let k = nonceKey (a_From (request_auth req)) (a_ChainID (request_auth req)) (a_Nonce (request_auth req)) in
    if s_Success r then
      sent_payments w' = sent_payments w @ [payment_of req] \<and> mem_status m k = Unseen
      \<and> mem_status m' k = Consumed (s_Transaction r)
    else if s_ErrorReason r = ErrBroadcastFailed then
      (sent_payments w' = sent_payments w \<or> sent_payments w' = sent_payments w @ [payment_of req])
      \<and> mem_status m' k = Unseen
    else sent_payments w' = sent_payments w"
proof -
  obtain oc where oc: "settles S (main_verifier S T N c) req oc (m, w) r (m', w')"
    using assms(1) by (rule Settle_outcome)
  note sent = program.settles_sent [OF oc assms(2)] and answer = outcome_answer [OF oc]
  show ?thesis
  proof (cases oc)
    case Failed
    with answer sent(2) program.failed_unseen [OF oc [unfolded Failed] assms(2)] show ?thesis
      by (simp add: Let_def)
  next
    case Settled
    with answer sent(3) program.paid_consumed [OF oc [unfolded Settled] assms(2)]
      program.paid_unseen [OF oc [unfolded Settled] assms(2)] show ?thesis
      by (simp add: Let_def)
  qed (use answer sent(1) in \<open>simp_all add: Let_def\<close>)
qed

theorem settle_effect_witness:
  "let k = nonceKey demo_payer ''grand-1'' ''0x01'' in
    mem_status (demo_store (demo_state True ''4A'')) k = Consumed ''4A''
    \<and> sent_payments (demo_world 1010 (demo_queries @ demo_sends) 1) = [payment_of demo_request]"
  using settle_effect [OF demo_Settle [of 1010 "[]" 1, simplified] mem_invar_new]
  by (simp add: Let_def sent_payments_def demo_auth_def)




text \<open>
  C31. A verification changes neither the nonce store's statuses nor the payments handed to the chain, whatever its result.
\<close>

theorem verify_is_harmless:
  assumes "Verify S (main_verifier S T N c) req (m, w) = (r, m', w')" and "mem_invar m"
  shows "mem_status m' k = mem_status m k \<and> sent_payments w' = sent_payments w"
  using program.Verify_keeps(2,3) [OF assms] by blast

theorem verify_is_harmless_witness:
  "sent_payments (demo_world 1010 demo_queries 1) = sent_payments (demo_world 1010 [] 1)"
  using verify_is_harmless [OF demo_Verify [of 1010 "[]" 1, simplified] mem_invar_new, of "[]"] by simp

text \<open>
  C25. A consumed nonce is refused for good: after any further history, settling a request that carries it
  fails and hands nothing to the chain.
\<close>

theorem replay_is_refused:
  assumes "is_Consumed (mem_status m (nonceKey (a_From (request_auth req)) (a_ChainID (request_auth req)) (a_Nonce (request_auth req))))"
    and "mem_invar m"
    and "serve_all S (main_verifier S T N c) GC evs (m, w) = (log, m1, w1)"
    and "Settle S (NewSettler (main_verifier S T N c)) req (m1, w1) = (r, m2, w2)"
  shows "\<not> s_Success r \<and> s_ErrorReason r \<noteq> ErrBroadcastFailed \<and> sent_payments w2 = sent_payments w1"
proof -
  let ?k = "nonceKey (a_From (request_auth req)) (a_ChainID (request_auth req)) (a_Nonce (request_auth req))"
  have inv: "mem_invar m1 \<and> is_Consumed (mem_status m1 ?k)"
    using program.serve_all_keeps [OF assms(3,2)] assms(1) by blast
  obtain oc where oc: "settles S (main_verifier S T N c) req oc (m1, w1) r (m2, w2)"
    using assms(4) by (rule Settle_outcome)
  have "oc = Rejected"
    using program.consumed_rejected [OF oc] inv by blast
  with outcome_answer [OF oc] program.settles_sent(1) [OF oc] inv show ?thesis by simp
qed

theorem replay_is_refused_witness:
  "\<exists>r m2 w2. Settle demo_sdk (NewSettler demo_verifier) demo_request
      (snd (GC (time_Unix 2000) (demo_store (demo_state True ''4A''))), demo_world 1010 [] 1) = (r, m2, w2)
    \<and> \<not> s_Success r \<and> sent_payments w2 = []"
proof -
  obtain r m2 w2 where run: "Settle demo_sdk (NewSettler demo_verifier) demo_request
      (snd (GC (time_Unix 2000) (demo_store (demo_state True ''4A''))), demo_world 1010 [] 1) = (r, m2, w2)"
    by (metis prod.exhaust)
  have "is_Consumed (mem_status (demo_store (demo_state True ''4A''))
      (nonceKey (a_From (request_auth demo_request)) (a_ChainID (request_auth demo_request)) (a_Nonce (request_auth demo_request))))"
    by (simp add: demo_store_def demo_state_def mem_status_def demo_auth_def)
  moreover have "mem_invar (demo_store (demo_state True ''4A''))"
    by (simp add: mem_invar_def demo_store_def)
  moreover have "serve_all demo_sdk demo_verifier GC [EvGC (time_Unix 2000)] (demo_store (demo_state True ''4A''), demo_world 1010 [] 1)
      = ([(EvGC (time_Unix 2000), None)], snd (GC (time_Unix 2000) (demo_store (demo_state True ''4A''))), demo_world 1010 [] 1)"
    by simp
  ultimately have "\<not> s_Success r \<and> s_ErrorReason r \<noteq> ErrBroadcastFailed
      \<and> sent_payments w2 = sent_payments (demo_world 1010 [] 1)"
    using run by (rule replay_is_refused)
  with run show ?thesis by (simp add: sent_payments_def demo_world_def)
qed

section \<open>Settlements that interleave\<close>

text \<open>
  C10. When settlements run concurrently, piece by piece, and no collection of the store drops the reservation of one in
  flight, then of two settlements for the same nonce never both succeed, never both hold the reservation, and
  none holds it once the other has succeeded.
\<close>

theorem interleaved_settlements_exclude:
  assumes "(step S (main_verifier S T N c) GC sent_payments spares_in_flight)\<^sup>*\<^sup>* ([], NewMemoryNonceStore, w) (ts, m, w')"
    and "i < length ts" and "j < length ts" and "i \<noteq> j"
    and "request_id (fst (ts ! i)) = request_id (fst (ts ! j))"
  shows "\<not> (succeeded (snd (ts ! i)) \<and> succeeded (snd (ts ! j)))
    \<and> \<not> (held (snd (ts ! i)) \<and> held (snd (ts ! j)))
    \<and> \<not> (held (snd (ts ! i)) \<and> succeeded (snd (ts ! j)))"
proof -
  have "nonceKey (a_From (request_auth (fst (ts ! i)))) (a_ChainID (request_auth (fst (ts ! i)))) (a_Nonce (request_auth (fst (ts ! i))))
    = nonceKey (a_From (request_auth (fst (ts ! j)))) (a_ChainID (request_auth (fst (ts ! j)))) (a_Nonce (request_auth (fst (ts ! j))))"
    using assms(5) by simp
  from program.interleaved_once [OF assms(1) mem_invar_new assms(2-4) this] show ?thesis by blast
qed

theorem interleaved_settlements_exclude_witness:
  "\<exists>r m w. trace demo_sdk demo_verifier GC sent_payments spares_in_flight demo_labels ([], NewMemoryNonceStore, demo_world 1010 [] 1)
      ([(demo_request, Answered demo_paid), (demo_request, Answered r)], m, w) \<and> \<not> s_Success r"
proof -
  obtain r m w where run: "trace demo_sdk demo_verifier GC sent_payments spares_in_flight demo_labels
      ([], NewMemoryNonceStore, demo_world 1010 [] 1) ([(demo_request, Answered demo_paid), (demo_request, Answered r)], m, w)"
    using demo_twice by blast
  from interleaved_settlements_exclude [OF trace_reaches [OF run], of 0 1] have "\<not> s_Success r" by simp
  with run show ?thesis by blast
qed

text \<open>
  C11. Interleaved settlements implement the account of a nonce: as long as no collection drops a reservation in flight, every run of them is a
  run of the specification \<open>account_step\<close>, in which an account is unspent, held by one settlement, sent, and then spent for good or free again;
  every account agrees with the settlements and with the store; what is spent has been paid for; and the collector is not seen at all.
\<close>

theorem interleaving_refines_accounts:
  assumes "(step S (main_verifier S T N c) GC sent_payments spares_in_flight)\<^sup>*\<^sup>* ([], NewMemoryNonceStore, w) (ts, m, w')"
  defines "key \<equiv> \<lambda>req. nonceKey (a_From (request_auth req)) (a_ChainID (request_auth req)) (a_Nonce (request_auth req))"
  shows "\<exists>f new. (account_step key)\<^sup>*\<^sup>* (\<lambda>_. Unspent, sent_payments w) (f, sent_payments w')
    \<and> (\<forall>k. agrees key ts (mem_status m k) k (f k))
    \<and> sent_payments w' = sent_payments w @ new \<and> (\<forall>k req. f k = SpentBy req \<longrightarrow> payment_of req \<in> set new)"
proof -
  have "program.implements S T N c ([], NewMemoryNonceStore, w) (\<lambda>_. Unspent, sent_payments w)"
    by (simp add: program.implements_def program.exclusive_def mem_status_def NewMemoryNonceStore_def mem_invar_def)
  from program.implements_reachable [OF assms(1) this] obtain f where
    f: "(account_step key)\<^sup>*\<^sup>* (\<lambda>_. Unspent, sent_payments w) (f, sent_payments w')"
    and agrees: "\<And>k. agrees key ts (mem_status m k) k (f k)"
    unfolding key_def by (auto simp: program.implements_def)
  from accounts_paid [OF f] obtain new where "sent_payments w' = sent_payments w @ new"
    "\<And>k req. f k = SpentBy req \<Longrightarrow> payment_of req \<in> set new" by auto
  with f agrees show ?thesis by blast
qed

theorem interleaving_refines_accounts_witness:
  "\<exists>f. (account_step (\<lambda>req. nonceKey (a_From (request_auth req)) (a_ChainID (request_auth req)) (a_Nonce (request_auth req))))\<^sup>*\<^sup>*
      (\<lambda>_. Unspent, []) (f, [payment_of demo_request])
    \<and> f (nonceKey demo_payer ''grand-1'' ''0x01'') = SpentBy demo_request"
proof -
  have "Settle demo_sdk (NewSettler demo_verifier) demo_request (NewMemoryNonceStore, demo_world 1010 [] 1) =
      (demo_paid, demo_store (demo_state True ''4A''), demo_world 1010 (demo_queries @ demo_sends) 1)"
    using demo_Settle [of 1010 "[]" 1] by simp
  from trace_reaches [OF trace_Settle [OF this, of GC sent_payments spares_in_flight "[]"]]
  have run: "(step demo_sdk demo_verifier GC sent_payments spares_in_flight)\<^sup>*\<^sup>* ([], NewMemoryNonceStore, demo_world 1010 [] 1)
      ([(demo_request, Answered demo_paid)], demo_store (demo_state True ''4A''), demo_world 1010 (demo_queries @ demo_sends) 1)"
    by simp
  have sent: "sent_payments (demo_world 1010 [] 1) = []"
    "sent_payments (demo_world 1010 (demo_queries @ demo_sends) 1) = [payment_of demo_request]"
    by (simp_all add: sent_payments_def demo_world_def)
  let ?k = "nonceKey demo_payer ''grand-1'' ''0x01''"
  have "mem_status (demo_store (demo_state True ''4A'')) ?k = Consumed ''4A''"
    by (simp add: mem_status_def demo_store_def demo_state_def)
  then have spent: "f ?k = SpentBy demo_request"
    if "\<forall>k. agrees (\<lambda>req. nonceKey (a_From (request_auth req)) (a_ChainID (request_auth req)) (a_Nonce (request_auth req)))
        [(demo_request, Answered demo_paid)] (mem_status (demo_store (demo_state True ''4A'')) k) k (f k)" for f
    using that [rule_format, of ?k] by (cases "f ?k") auto
  from interleaving_refines_accounts [OF run] spent show ?thesis unfolding sent by blast
qed

text \<open>
  C13. The books of interleaved settlements: whatever interleaves, and whatever the collector drops, the payments handed to the chain are, counted with
  multiplicity, at least one for every settlement whose broadcast succeeded and at most one for every settlement that broadcast.
\<close>

theorem interleaving_is_accounted:
  assumes "(step S (main_verifier S T N c) GC sent_payments guard)\<^sup>*\<^sup>* ([], m, w) (ts, m', w')"
  shows "mset (sent_payments w) + payments_of broadcast_ok ts \<subseteq># mset (sent_payments w')
    \<and> mset (sent_payments w') \<subseteq># mset (sent_payments w) + payments_of broadcast_made ts"
proof -
  have "program.balanced S T N c (mset (sent_payments w)) ([], m, w)" by (simp add: program.balanced_def)
  with assms have "program.balanced S T N c (mset (sent_payments w)) (ts, m', w')" by (rule program.balanced_reachable)
  then show ?thesis by (simp add: program.balanced_def)
qed

theorem interleaving_is_accounted_witness:
  "\<exists>ts m w'. (step demo_sdk demo_verifier GC sent_payments any_time)\<^sup>*\<^sup>* ([], NewMemoryNonceStore, demo_world 1050 [] 1) (ts, m, w')
    \<and> mset (sent_payments w') = {#payment_of demo_request, payment_of demo_request#}"
proof -
  note run = both_succeed [unfolded Let_def]
  from interleaving_is_accounted [OF run] run show ?thesis
    by (intro exI conjI) (assumption, auto simp: sent_payments_def demo_world_def subset_mset.eq_iff)
qed

text \<open>
  C12. Settlements end, and leave nothing behind: whatever other settlements and the collector do in between, a settlement is answered
  after six moves of its own, and a reservation in the store always belongs to a settlement that still has to make such a move.
\<close>

theorem settlements_end_cleanly:
  assumes "trace S (main_verifier S T N c) GC sent_payments guard ls ([], NewMemoryNonceStore, w) (ts, m, w')"
  shows "(\<forall>i < length ts. 6 \<le> count_list ls (Runs i) \<longrightarrow> (\<exists>r. snd (ts ! i) = Answered r))
    \<and> (\<forall>p c n t. mem_status m (nonceKey p c n) = Reserved t \<longrightarrow>
        (\<exists>i < length ts. held (snd (ts ! i)) \<and> count_list ls (Runs i) < 6
          \<and> (case request_id (fst (ts ! i)) of (p', c', n') \<Rightarrow> nonceKey p' c' n' = nonceKey p c n)))"
proof (intro conjI allI impI)
  fix i assume "i < length ts" "6 \<le> count_list ls (Runs i)"
  with assms show "\<exists>r. snd (ts ! i) = Answered r" by (rule trace_finishes)
next
  fix p c n t assume t: "mem_status m (nonceKey p c n) = Reserved t"
  have "mem_status NewMemoryNonceStore k = Unseen" for k by (simp add: mem_status_def NewMemoryNonceStore_def)
  from program.leaves_no_reservation [OF assms mem_invar_new this t]
  show "\<exists>i < length ts. held (snd (ts ! i)) \<and> count_list ls (Runs i) < 6
      \<and> (case request_id (fst (ts ! i)) of (p', c', n') \<Rightarrow> nonceKey p' c' n' = nonceKey p c n)" by auto
qed

theorem settlements_end_cleanly_witness:
  "\<exists>ts m w. trace demo_sdk demo_verifier GC sent_payments any_time demo_labels ([], NewMemoryNonceStore, demo_world 1010 [] 1) (ts, m, w)
    \<and> length ts = 2 \<and> (\<forall>p c n t. mem_status m (nonceKey p c n) \<noteq> Reserved t)"
proof -
  obtain r m w where run: "trace demo_sdk demo_verifier GC sent_payments any_time demo_labels
      ([], NewMemoryNonceStore, demo_world 1010 [] 1) ([(demo_request, Answered demo_paid), (demo_request, Answered r)], m, w)"
    using demo_twice by blast
  have "\<not> held (snd ([(demo_request, Answered demo_paid), (demo_request, Answered r)] ! i))"
    if "i < length [(demo_request, Answered demo_paid), (demo_request, Answered r)]" for i
    using that by (auto simp: less_Suc_eq)
  with settlements_end_cleanly [OF run] have "mem_status m (nonceKey p c n) \<noteq> Reserved t" for p c n t by blast
  with run show ?thesis by (intro exI conjI) auto
qed





section \<open>The middleware and the facilitator together\<close>





text \<open>
  C15. The gate: the middleware calls the protected handler for an admitted request, after it has put the receipt into the header,
  and answers every other request itself, with status 402 and the requirements, in the same way whatever that handler is.
\<close>

theorem gate_guards_the_handler:
  "case admitted H cfg r y of
     Some (resp, y1) \<Rightarrow> Paid H cfg next new_writer r y = next (setResponseHeader resp new_writer) r y1
   | None \<Rightarrow> \<exists>w'. (\<forall>handler. fst (Paid H cfg handler new_writer r y) = w')
       \<and> hr_Status (response w') = 402
       \<and> header_Get (hr_Header (response w')) ''PAYMENT-REQUIRED''
           = base64_Encode (json_print (PaymentRequirements_json (buildRequirements (with_defaults cfg) r)))"
  using Paid_admitted [of H cfg r y] Paid_refused [of H cfg r y new_writer]
  by (auto split: option.splits)

text \<open>
  C29. A client that decodes the header of a 402 response gets the requirements that the middleware will check the payment against.
\<close>

theorem requirements_reach_the_client:
  assumes "valid_config cfg" and "valid_utf8 (r_Host r)" and "valid_utf8 (r_Path r)" and "admitted H cfg r y = None"
  shows "Option.bind (base64_Decode (header_Get (hr_Header (response (fst (Paid H cfg next new_writer r y)))) ''PAYMENT-REQUIRED''))
    (Unmarshal PaymentRequirements_fields PaymentRequirements_zero) = Some (buildRequirements (with_defaults cfg) r)"
proof -
  have "header_Get (hr_Header (response (fst (Paid H cfg next new_writer r y)))) ''PAYMENT-REQUIRED''
      = base64_Encode (json_print (PaymentRequirements_json (buildRequirements (with_defaults cfg) r)))"
    using Paid_refused [OF assms(4), of new_writer] by auto
  then show ?thesis
    using requirements.header_roundtrip [OF buildRequirements_valid [OF assms(1-3)]] by simp
qed

theorem requirements_reach_the_client_witness:
  "Option.bind (base64_Decode (header_Get (hr_Header (response (fst (Paid (demo_env (\<lambda>_. Delivered)) demo_cfg
      (\<lambda>w r y. (w, y)) new_writer (demo_get\<lparr>r_Header := []\<rparr>) (NewMemoryNonceStore, demo_world 1010 [] 1))))) ''PAYMENT-REQUIRED''))
    (Unmarshal PaymentRequirements_fields PaymentRequirements_zero)
    = Some (buildRequirements (with_defaults demo_cfg) (demo_get\<lparr>r_Header := []\<rparr>))"
  by (rule requirements_reach_the_client) (use demo_cfg_valid in \<open>simp_all add: admitted_def Let_def\<close>)

text \<open>
  C16. Asking the facilitator over HTTP is the same as calling \<open>Settle\<close>: for every payload and requirements with valid strings, \<open>callSettle\<close>
  against the facilitator's handlers gives the response, the store and the world of \<open>Settle\<close>, and an error only if the
  connection loses the request (then nothing has happened) or the reply (then all of it has).
\<close>

theorem asking_over_HTTP_is_Settle:
  assumes "valid_Payload p" and "valid_Requirements q"
  shows "callSettle (facilitator_env S T N c jerr (mw_FacilitatorURL cfg) link) cfg p q (m, w) =
    (let (resp, st1) = Settle S (NewSettler (main_verifier S T N c)) (settle_request p q) (m, w) in
     case link (w_ext w) of
       Delivered \<Rightarrow> (Inr resp, st1) | RequestLost err \<Rightarrow> (Inl err, m, w) | ReplyLost err \<Rightarrow> (Inl err, st1))"
  using callSettle_is_Settle [OF assms, of S T N c m w]
  by (cases "Settle S (NewSettler (main_verifier S T N c)) (settle_request p q) (m, w)") (simp add: Let_def)

theorem asking_over_HTTP_is_Settle_witness:
  "fst (callSettle (demo_env (\<lambda>_. Delivered)) demo_cfg demo_payload demo_requirements (NewMemoryNonceStore, demo_world 1010 [] 1))
    = Inr (settle_paid ''4A'' ''cosmos:grand-1'' demo_payer)"
proof -
  have "valid_Payload demo_payload" "valid_Requirements demo_requirements"
    using demo_valid_request by (simp_all add: valid_Request_def)
  from asking_over_HTTP_is_Settle [OF this, of demo_sdk demo_tx demo_net demo_client "\<lambda>_. []" demo_cfg "\<lambda>_. Delivered"
      NewMemoryNonceStore "demo_world 1010 [] 1"]
  show ?thesis using demo_Settle [of 1010 "[]" 1] by simp
qed

text \<open>
  C24. A reply that is lost costs the payer: if the settlement succeeds and its answer does not reach the middleware (whose client waits for
  30 seconds, while a broadcast may take longer), the request is refused although it was paid, and its nonce is
  consumed, so that sending it again cannot succeed either.
\<close>

theorem lost_reply_is_paid_but_refused:
  assumes "decodePayload jerr (header_Get (r_Header r) ''PAYMENT-SIGNATURE'') = Inr p"
    and "valid_config cfg" and "valid_utf8 (r_Host r)" and "valid_utf8 (r_Path r)" and "mem_invar m"
    and "Settle S (NewSettler (main_verifier S T N c)) (settle_request p (buildRequirements (with_defaults cfg) r)) (m, w)
      = (resp, m', w')" and "s_Success resp"
    and "link (w_ext w) = ReplyLost err"
  shows "Paid (facilitator_env S T N c jerr (mw_FacilitatorURL cfg) link) cfg next rw r (m, w) =
      (writeFailure (buildRequirements (with_defaults cfg) r) ErrUnexpected rw, m', w')
    \<and> sent_payments w' = sent_payments w @ [payment_of (settle_request p (buildRequirements (with_defaults cfg) r))]
    \<and> (let a = c_Authorization (pp_Payload p) in is_Consumed (mem_status m' (nonceKey (a_From a) (a_ChainID a) (a_Nonce a))))"
  using lost_reply_refused [OF assms(1-4,6), of link err "next" rw] assms(8) settled_facts(1,3) [OF assms(6,7,5)]
  by (simp add: Let_def)

theorem lost_reply_is_paid_but_refused_witness:
  "\<exists>m' w'. Paid (demo_env (\<lambda>_. ReplyLost (Foreign ''timeout''))) demo_cfg (\<lambda>w r y. (w, y)) new_writer demo_get
      (NewMemoryNonceStore, demo_world 1010 [] 1) = (writeFailure demo_requirements ErrUnexpected new_writer, m', w')
    \<and> sent_payments w' = [payment_of demo_request]"
proof -
  have settled: "Settle demo_sdk (NewSettler demo_verifier) (settle_request demo_payload (buildRequirements (with_defaults demo_cfg) demo_get))
      (NewMemoryNonceStore, demo_world 1010 [] 1) = (settle_paid ''4A'' ''cosmos:grand-1'' demo_payer,
        demo_store (demo_state True ''4A''), demo_world 1010 (demo_queries @ demo_sends) 1)"
    using demo_Settle [of 1010 "[]" 1] by simp
  from lost_reply_is_paid_but_refused [OF demo_decodes demo_cfg_valid mem_invar_new settled, of "\<lambda>_. ReplyLost (Foreign ''timeout'')"]
  show ?thesis by (simp add: sent_payments_def)
qed

section \<open>The client\<close>

text \<open>
  C14. A run of the demo client against the demo server and the facilitator is one settlement: with the key derived from its
  mnemonic, it asks, signs what it was asked for, and sends it back, and what it reports is the outcome of \<open>Settle\<close> on that
  authorization and the server's requirements: the receipt and the protected body after a success, otherwise the reason and status 402.
\<close>

theorem client_run_is_Settle:
  assumes "valid_config cfg" and "valid_utf8 host" and "valid_utf8 addr"
    and "envOr Getenv ''X402_SERVER_URL'' ''http://localhost:8080/premium'' = shop_url host"
    and "Getenv ''X402_PAYER_MNEMONIC'' \<noteq> []"
    and "deriveKey S (Getenv ''X402_PAYER_MNEMONIC'') (envOr Getenv ''X402_NOBLE_PREFIX'' ''noble'') = Inr (priv, addr)"
    and "rand 32 w = (Inr b, w1)" and "time_Now N w1 = (t, w2)" and "link (w_ext w2) = Delivered"
    and "auth = make_authorization (shop_requirements cfg host) addr (run_nonce Getenv b) (Unix t) (Getenv ''X402_EXPIRED'' = ''1'')"
    and "signAuth S priv auth = Inr (sg, pk)"
  shows "client_main S (shop_client S T N c jerr link cfg host Getenv rand) (m, w) =
    (let (resp, st) = Settle S (NewSettler (main_verifier S T N c))
           (settle_request (make_payload (shop_requirements cfg host) auth sg pk) (shop_requirements cfg host)) (m, w2) in
     if s_Success resp then
       let (t', w') = time_Now N (snd st) in ((Some resp, Inr (json_print (premium_json t') @ newline)), fst st, w')
     else
       ((Some (settle_failed (s_ErrorReason resp) (mw_Network cfg) []),
         Inl (Fatal (Errorf ''paid request returned status %d, body=%s'' [AInt 402, AStr []]))), st))"
proof -
  obtain resp m' w' where settle: "Settle S (NewSettler (main_verifier S T N c))
      (settle_request (make_payload (shop_requirements cfg host) auth sg pk) (shop_requirements cfg host)) (m, w2) = (resp, m', w')"
    by (metis surj_pair)
  from client_main_run [where rand = rand and link = link, OF assms settle] settle show ?thesis
    by (simp add: client_view_def split: prod.splits)
qed

theorem client_run_is_Settle_witness:
  "\<exists>sg pk. client_main demo_sdk (shop_client demo_sdk demo_tx demo_net demo_client (\<lambda>_. []) (\<lambda>_. Delivered) demo_cfg ''shop'' demo_getenv demo_rand)
      (NewMemoryNonceStore, demo_world 1010 [] 1) =
    (let (resp, st) = Settle demo_sdk (NewSettler demo_verifier)
           (settle_request (make_payload demo_requirements fresh_auth sg pk) demo_requirements)
           (NewMemoryNonceStore, demo_world 1010 [] 1) in
     if s_Success resp then
       let (t', w') = time_Now demo_net (snd st) in ((Some resp, Inr (json_print (premium_json t') @ newline)), fst st, w')
     else
       ((Some (settle_failed (s_ErrorReason resp) (mw_Network demo_cfg) []),
         Inl (Fatal (Errorf ''paid request returned status %d, body=%s'' [AInt 402, AStr []]))), st))"
proof -
  have expired: "(demo_getenv ''X402_EXPIRED'' = ''1'') = False" by (simp add: demo_getenv_def)
  obtain sg pk where "signAuth demo_sdk demo_key fresh_auth = Inr (sg, pk)"
    using demo_signed_fresh by blast
  then have sg: "signAuth demo_sdk demo_key (make_authorization (shop_requirements demo_cfg ''shop'') demo_payer
      (run_nonce demo_getenv (replicate 32 (CHR ''r''))) demo_now (demo_getenv ''X402_EXPIRED'' = ''1'')) = Inr (sg, pk)"
    by (simp only: expired demo_shop_requirements)
  have payer: "valid_utf8 demo_payer"
    using demo_payer_text by (intro valid_utf8_ascii) (simp add: list_all_iff)
  have env: "envOr demo_getenv ''X402_SERVER_URL'' ''http://localhost:8080/premium'' = shop_url ''shop''"
    "demo_getenv ''X402_PAYER_MNEMONIC'' \<noteq> []" "envOr demo_getenv ''X402_NOBLE_PREFIX'' ''noble'' = ''noble''"
    by (simp_all add: envOr_def demo_getenv_def shop_url_def)
  have rand: "demo_rand 32 (demo_world 1010 [] 1) = (Inr (replicate 32 (CHR ''r'')), demo_world 1010 [] 1)"
    by (simp add: demo_rand_def)
  have host: "valid_utf8 ''shop''" by simp
  have derived: "deriveKey demo_sdk (demo_getenv ''X402_PAYER_MNEMONIC'') (envOr demo_getenv ''X402_NOBLE_PREFIX'' ''noble'')
      = Inr (demo_key, demo_payer)" by (simp only: env(3) demo_derived)
  note run = client_run_is_Settle [where link = "\<lambda>_. Delivered" and rand = demo_rand, OF demo_cfg_valid(1) host payer env(1,2)
      derived rand demo_clock refl refl sg, of demo_tx demo_client "\<lambda>_. []" NewMemoryNonceStore]
  show ?thesis
    using run unfolding expired demo_shop_requirements by blast
qed

text \<open>
  C7. An honest client is served: with a key whose grant and balance cover the price, a clock that agrees with the facilitator's within
  the window, a nonce not used before, a connection that delivers and a broadcast that is confirmed, the run ends with the protected
  body and a receipt for the transaction.
\<close>

theorem honest_client_is_served:
  fixes cfg host Getenv b t addr
  defines "q \<equiv> shop_requirements cfg host"
  defines "auth \<equiv> make_authorization q addr (run_nonce Getenv b) (Unix t) False"
  assumes "valid_config cfg" and "valid_utf8 host" and "valid_utf8 addr"
    and "envOr Getenv ''X402_SERVER_URL'' ''http://localhost:8080/premium'' = shop_url host"
    and "Getenv ''X402_PAYER_MNEMONIC'' \<noteq> []" and "Getenv ''X402_EXPIRED'' \<noteq> ''1''"
    and "envOr Getenv ''X402_NOBLE_PREFIX'' ''noble'' = nc_prefix c"
    and "deriveKey S (Getenv ''X402_PAYER_MNEMONIC'') (nc_prefix c) = Inr (priv, addr)"
    and "signature_scheme S" and "signAuth S priv auth = Inr (sg, pk)"
    and "mw_Network cfg = ''cosmos:'' @ nc_chainID c" and "nc_chainID c \<noteq> []"
    and "mw_MaxTimeoutSeconds cfg = 0 \<or> 35 \<le> unat (mw_MaxTimeoutSeconds cfg)"
    and "rand 32 w = (Inr b, w1)" and "time_Now N w1 = (t, w2)" and "link (w_ext w2) = Delivered"
    and "time_Now N w2 = (t', w3)" and "5 \<le> unat (Unix t)" and "unat (Unix t) + 30 < 18446744073709551616"
    and "unat (Unix t) - 5 \<le> unat (Unix t')" and "unat (Unix t') < unat (Unix t) + 30"
    and "map_of m (nonceKey addr (nc_chainID c) (run_nonce Getenv b)) = None"
    and "grant_covers (main_verifier S T N c) (noble_client S T N c) (settle_request (make_payload q auth sg pk) q) w3 w4"
    and "balance_covers (noble_client S T N c) auth w4 w5"
    and "BroadcastAuthzSend S T N c addr (mw_PayTo cfg) (mw_Asset cfg) (mw_Amount cfg) w5 = ((h, None), w6)"
  shows "\<exists>m' t'' w7. client_main S (shop_client S T N c jerr link cfg host Getenv rand) (m, w) =
      ((Some (settle_paid h (mw_Network cfg) addr), Inr (json_print (premium_json t'') @ newline)), m', w7)"
proof -
  have q: "pr_Network q = mw_Network cfg" "pr_PayTo q = mw_PayTo cfg" "pr_Asset q = mw_Asset cfg"
    "pr_MaxAmountRequired q = mw_Amount cfg" "pr_MaxTimeoutSeconds q = mw_MaxTimeoutSeconds (with_defaults cfg)"
    by (simp_all add: q_def buildRequirements_def Let_def)
  have supp: "supported (main_verifier S T N c) q (noble_client S T N c)"
    unfolding q_def using assms(13,14) by (rule shop_supported)
  then have chain: "x_ChainID (pr_Extra q) = nc_chainID c" by (auto simp: supported_def)
  have limit: "pr_MaxTimeoutSeconds q = 0 \<or> 35 \<le> unat (pr_MaxTimeoutSeconds q)"
    using assms(15) by (auto simp: q)
  have unused: "ns_Exists (vf_nonces (main_verifier S T N c)) addr (x_ChainID (pr_Extra q)) (run_nonce Getenv b) m = (Inr False, m)"
    using assms(24) by (simp add: Exists_def chain)
  have derived: "deriveKey S (Getenv ''X402_PAYER_MNEMONIC'') (cl_AccountPrefix (noble_client S T N c)) = Inr (priv, addr)"
    using assms(10) by simp
  have clock: "vf_clock (main_verifier S T N c) w2 = (t', w3)" using assms(19) by simp
  have verified: "Verify S (main_verifier S T N c) (settle_request (make_payload q auth sg pk) q) (m, w2) = (Inr addr, m, w5)"
    using made_request_verifies [OF supp assms(11) derived assms(12) [unfolded auth_def] assms(20,21) clock assms(22,23) limit unused
        assms(25,26) [unfolded auth_def]] by (simp add: auth_def)
  obtain m' where settled: "Settle S (NewSettler (main_verifier S T N c)) (settle_request (make_payload q auth sg pk) q) (m, w2) =
      (settle_paid h (mw_Network cfg) addr, m', w6)"
    using verified_settles [OF verified] assms(13,24,27) by (auto simp: auth_def q chain)
  have run: "client_main S (shop_client S T N c jerr link cfg host Getenv rand) (m, w) =
      client_view N (mw_Network cfg) (settle_paid h (mw_Network cfg) addr) (m', w6)"
    by (rule client_main_run [where link = link and rand = rand, OF assms(3-7) _ assms(16-18) _ assms(12) settled [unfolded q_def]])
      (use assms(8-10) in \<open>simp_all add: auth_def q_def\<close>)
  then show ?thesis by (auto simp: client_view_def split: prod.splits)
qed

theorem honest_client_is_served_witness:
  "\<exists>m' t w. client_main demo_sdk (shop_client demo_sdk demo_tx demo_net demo_client (\<lambda>_. []) (\<lambda>_. Delivered) demo_cfg ''shop'' demo_getenv demo_rand)
      (NewMemoryNonceStore, demo_world 1010 [] 1) =
    ((Some (settle_paid ''4A'' ''cosmos:grand-1'' demo_payer), Inr (json_print (premium_json t) @ newline)), m', w)"
proof -
  obtain sg pk where "signAuth demo_sdk demo_key fresh_auth = Inr (sg, pk)"
    using demo_signed_fresh by blast
  then have sg: "signAuth demo_sdk demo_key (make_authorization (shop_requirements demo_cfg ''shop'') demo_payer
      (run_nonce demo_getenv (replicate 32 (CHR ''r''))) demo_now False) = Inr (sg, pk)"
    by (simp only: demo_shop_requirements)
  have payer: "valid_utf8 demo_payer"
    using demo_payer_text by (intro valid_utf8_ascii) (simp add: list_all_iff)
  have env: "envOr demo_getenv ''X402_SERVER_URL'' ''http://localhost:8080/premium'' = shop_url ''shop''"
    "demo_getenv ''X402_PAYER_MNEMONIC'' \<noteq> []" "demo_getenv ''X402_EXPIRED'' \<noteq> ''1''"
    "envOr demo_getenv ''X402_NOBLE_PREFIX'' ''noble'' = nc_prefix demo_client"
    by (simp_all add: envOr_def demo_getenv_def shop_url_def demo_client_def)
  have derived: "deriveKey demo_sdk (demo_getenv ''X402_PAYER_MNEMONIC'') (nc_prefix demo_client) = Inr (demo_key, demo_payer)"
    using demo_derived by (simp add: demo_client_def)
  have rand: "demo_rand 32 (demo_world 1010 [] 1) = (Inr (replicate 32 (CHR ''r'')), demo_world 1010 [] 1)"
    by (simp add: demo_rand_def)
  have host: "valid_utf8 ''shop''" by simp
  have cfg: "mw_Network demo_cfg = ''cosmos:'' @ nc_chainID demo_client" "nc_chainID demo_client \<noteq> []"
    "mw_MaxTimeoutSeconds demo_cfg = 0 \<or> 35 \<le> unat (mw_MaxTimeoutSeconds demo_cfg)"
    by (simp_all add: demo_cfg_def demo_client_def)
  have times: "5 \<le> unat demo_now" "unat demo_now + 30 < 18446744073709551616" "unat demo_now - 5 \<le> unat demo_now"
    "unat demo_now < unat demo_now + 30"
    by (simp_all add: demo_now_value)
  have unused: "map_of NewMemoryNonceStore (nonceKey demo_payer (nc_chainID demo_client) (run_nonce demo_getenv (replicate 32 (CHR ''r'')))) = None"
    by (simp add: NewMemoryNonceStore_def)
  note grant = demo_grant [of sg pk 1010 "[]" 1, folded demo_shop_requirements]
  note balance = demo_balance [of 1010 _ 1, folded demo_shop_requirements]
  have broadcast: "BroadcastAuthzSend demo_sdk demo_tx demo_net demo_client demo_payer (mw_PayTo demo_cfg) (mw_Asset demo_cfg) (mw_Amount demo_cfg)
      (demo_world 1010 cs 1) = ((''4A'', None), demo_world 1010 (cs @ demo_sends) 1)" for cs
    using demo_broadcast [of 1010 cs 1] by (simp add: demo_cfg_def)
  have net: "mw_Network demo_cfg = ''cosmos:grand-1''" by (simp add: demo_cfg_def)
  show ?thesis
    using honest_client_is_served [where link = "\<lambda>_. Delivered" and rand = demo_rand and jerr = "\<lambda>_. []",
      OF demo_cfg_valid(1) host payer env derived demo_signature_scheme sg cfg rand demo_clock refl demo_clock times unused grant balance broadcast]
    unfolding net .
qed

section \<open>The nonce store\<close>

text \<open>
  The keys of the store tell nonces apart, as long as neither a payer's address nor a chain id contains
  the separator.
\<close>

theorem nonceKey_injective:
  assumes "good_key (p, c, n)" and "good_key (p', c', n')" and "nonceKey p c n = nonceKey p' c' n'"
  shows "p = p' \<and> c = c' \<and> n = n'"
  using assms by (simp add: nonceKey_eq)

theorem nonceKey_injective_witness: "nonceKey ''a'' ''b'' ''c|d'' = nonceKey ''a'' ''b'' ''c|d'' \<and> ''c|d'' = ''c|d''"
  using nonceKey_injective [of "''a''" "''b''" "''c|d''" "''a''" "''b''" "''c|d''"] by (simp add: good_key_def)

text \<open>
  C34. A collection removes exactly the expired reservations, counts them, and leaves every other entry as it is; a sequence of
  collections, at whatever times and in whatever order, leaves the store that a single one at the latest of the times would leave.
\<close>

theorem GC_removes_expired_reservations:
  "GC now m =
    (length (filter (\<lambda>(k, st). \<not> st_committed st \<and> After now (st_validBefore st)) m),
     filter (\<lambda>(k, st). \<not> (\<not> st_committed st \<and> After now (st_validBefore st))) m)
    \<and> fold (\<lambda>now m. snd (GC now m)) (now # ts) m = snd (GC (fold max ts now) m)"
proof
  show "GC now m = (length (filter (\<lambda>(k, st). \<not> st_committed st \<and> After now (st_validBefore st)) m),
     filter (\<lambda>(k, st). \<not> (\<not> st_committed st \<and> After now (st_validBefore st))) m)"
    unfolding GC_def GC_loop_filter by (auto intro!: filter_cong)
qed (rule GC_absorbs_all)

text \<open>
  A nonce that was committed is refused by every later reservation, whatever the store did in between,
  collections included.
\<close>

theorem committed_refuses_reserve:
  assumes "mem_invar m" and "Commit p c n h m = (None, m')"
  shows "fst (Reserve p c n vb (snd (GC now (fold (run_op MemoryNonceStore_ops) run m')))) = Some ErrNonceUsed"
proof -
  have inv: "mem_invar m'" using mem.invar_commit [OF assms(1), of p c n h] assms(2) by simp
  have "is_Consumed (mem_status m' (nonceKey p c n))"
    using mem.commit_ok [OF assms(1)] assms(2) by auto
  then have "is_Consumed (mem_status (fold (run_op MemoryNonceStore_ops) run m') (nonceKey p c n))"
    using inv by (intro mem.consumed_forever)
  then have "is_Consumed (mem_status (snd (GC now (fold (run_op MemoryNonceStore_ops) run m'))) (nonceKey p c n))"
    using mem.gc_keeps_consumed [OF mem.invar_run [OF inv]] by (metis is_Consumed_def)
  from mem.consumed_refuses [OF mem.gc_invar [OF mem.invar_run [OF inv]] this] show ?thesis by simp
qed

theorem committed_refuses_reserve_witness:
  "fst (Reserve ''a'' ''b'' ''c'' (time_Unix 5) (snd (GC (time_Unix 9)
    (snd (Commit ''a'' ''b'' ''c'' ''H'' (snd (Reserve ''a'' ''b'' ''c'' (time_Unix 4) NewMemoryNonceStore))))))) = Some ErrNonceUsed"
  using committed_refuses_reserve [of "snd (Reserve ''a'' ''b'' ''c'' (time_Unix 4) NewMemoryNonceStore)" "''a''" "''b''" "''c''" "''H''" _ "time_Unix 5" "time_Unix 9" "[]"]
  by (simp add: store_defs NewMemoryNonceStore_def mem_invar_def)

section \<open>Signatures\<close>

text \<open>
  C20. Two well-formed authorizations with the same bytes to sign are equal: the signature covers every field.
\<close>

theorem signed_bytes_determine_authorization:
  assumes "sorts_json (SortJSON S)" and "valid_Authorization a" and "exact_times a"
    and "valid_Authorization b" and "exact_times b"
    and "ADR036Preimage S a = ADR036Preimage S b"
  shows "a = b"
  using assms adr036Preimage_eq [OF assms(1)] preimage_text_inject by (simp add: ADR036Preimage_def)

theorem signed_bytes_determine_authorization_witness:
  "ADR036Preimage demo_sdk demo_auth = ADR036Preimage demo_sdk demo_auth \<and> demo_auth = demo_auth"
  using signed_bytes_determine_authorization [of demo_sdk demo_auth demo_auth] demo_valid_auth
  by (simp add: demo_sdk_def sorts_json_sort_text)




section \<open>Amounts and times\<close>

text \<open>
  C35. The validity check on 64-bit words neither wraps nor truncates: it passes exactly if, as natural numbers, the clock is
  inside the window and the window is no longer than the limit (a limit of zero is no limit).
\<close>

theorem window_check_is_exact:
  "check_window now req = None \<longleftrightarrow>
    (let a = request_auth req; limit = unat (pr_MaxTimeoutSeconds (vr_PaymentRequirements req)) in
     unat (a_ValidAfter a) \<le> unat now \<and> unat now < unat (a_ValidBefore a)
     \<and> (limit = 0 \<or> unat (a_ValidBefore a) \<le> unat (a_ValidAfter a) + limit))"
  unfolding check_window_None window_open_def Let_def by simp




section \<open>The wire\<close>

text \<open>
  A settlement request whose strings are valid UTF-8 arrives as it was sent: the facilitator's decoder reads
  it back from the text the middleware posts, whatever follows that text on the connection (an object or array end
  is where a JSON value stops).
\<close>

theorem settle_request_arrives:
  assumes "valid_Request r" and "num_stop rest"
  shows "Decode VerifyRequest_fields VerifyRequest_zero (json_print (VerifyRequest_json r) @ rest) = Some r"
  using assms by (rule request.Decode_Marshal)

theorem settle_request_arrives_witness:
  "Decode VerifyRequest_fields VerifyRequest_zero (json_print (VerifyRequest_json demo_request) @ newline) = Some demo_request"
  by (rule settle_request_arrives) (simp_all add: demo_valid_request newline_def num_stop_def is_digit_def byte_def)

text \<open>
  The settlement receipt in the response header is read back by the client as the facilitator's answer.
\<close>

theorem receipt_header_reads_back:
  assumes "valid_SettleResponse resp"
  shows "Option.bind (base64_Decode (header_Get (rw_header (setResponseHeader resp w)) ''PAYMENT-RESPONSE''))
    (Unmarshal SettleResponse_fields SettleResponse_zero) = Some resp"
  using settle_response.header_roundtrip [OF assms] by (simp add: setResponseHeader_def Let_def)

theorem receipt_header_reads_back_witness:
  "Option.bind (base64_Decode (header_Get (rw_header (setResponseHeader (settle_paid ''4A'' ''cosmos:grand-1'' ''noble1x'') new_writer)) ''PAYMENT-RESPONSE''))
    (Unmarshal SettleResponse_fields SettleResponse_zero) = Some (settle_paid ''4A'' ''cosmos:grand-1'' ''noble1x'')"
  by (rule receipt_header_reads_back) (simp add: valid_SettleResponse_def)

text \<open>
  C28. Whatever bytes a client puts into its header: a payload that the middleware accepts has only valid strings, a version in the range of \<open>int\<close> and the
  scheme of the gate, and it can be sent on: encoded again, it is read as the same payload.
\<close>

theorem accepted_payload_is_well_formed:
  assumes "decodePayload jerr hdr = Inr p"
  shows "valid_Payload p \<and> pp_Scheme p = Scheme \<and> decodePayload jerr (encodeHeader (PaymentPayload_json p)) = Inr p"
  using decodePayload_valid [OF assms] header_decodes by blast

theorem accepted_payload_is_well_formed_witness:
  "valid_Payload demo_payload \<and> decodePayload (\<lambda>_. []) (encodeHeader (PaymentPayload_json demo_payload)) = Inr demo_payload"
  using accepted_payload_is_well_formed [OF demo_decodes [of "\<lambda>_. []"]] by blast

section \<open>The chain client\<close>

text \<open>
  C30. Waiting for a transaction ends: it polls at least once and at most two times more than the seconds allowed (32 times for
  the 30 seconds of a broadcast). It ends without an error only if the chain reported the transaction in a block,
  executed with code 0, and with one only if the chain reported another code, the request's context ended, or
  the time allowed has passed.
\<close>

theorem wait_is_bounded:
  "\<exists>k r w'. waitForTx N hash timeout w = (r, w') \<and> 0 < k \<and> k \<le> timeout div second + 2
    \<and> w_calls w' = w_calls w @ replicate k (CallTx hash)
    \<and> (case r of
         None \<Rightarrow> tx_confirmed N hash
       | Some err \<Rightarrow>
           tx_failed N hash \<or> (\<exists>tick x. fst (ctx_Done N tick x) = Some err) \<or> w_clock w + timeout < w_clock w')"
proof -
  obtain r w' where run: "waitForTx N hash timeout w = (r, w')" by fastforce
  from waitForTx_polls [OF run] waitForTx_result [OF run] run show ?thesis
    unfolding wait_result_def by blast
qed

text \<open>
  C9. Of all calls a broadcast makes, at most one submits a transaction, and that transaction is one \<open>MsgExec\<close> of
  one \<open>MsgSend\<close> from the payer to the recipient of the coin parsed from the amount and the denomination; success
  means the chain has confirmed it.
\<close>

theorem broadcast_submits_the_payment:
  assumes "BroadcastAuthzSend S T N c from to denom amount w = ((h, err), w')"
  shows "(err \<noteq> None \<and> (w' = w \<or> w_calls w' = w_calls w @ [CallAccount (nc_address c)])) \<or>
    (\<exists>t coin acc k hash. k \<le> 32
      \<and> w_calls w' = w_calls w @ [CallAccount (nc_address c),
          CallBroadcast (Some \<lparr>pay_from = from, pay_to = to, pay_text = amount @ denom\<rparr>) t] @ replicate k (CallTx hash)
      \<and> ParseCoinNormalized T (amount @ denom) = Inr coin
      \<and> tx_Msgs t = [MsgExec acc [MsgSend from to (NewCoins T [coin])]] \<and> tx_FeeAmount t = fee_of T c
      \<and> (err = None \<longrightarrow> h = to_upper (hex_EncodeToString hash) \<and> tx_confirmed N hash))"
  using BroadcastAuthzSend_calls [OF assms] unfolding exec_send_def by metis

theorem broadcast_submits_the_payment_witness:
  "\<exists>coin. ParseCoinNormalized demo_tx ''10000uusdc'' = Inr coin \<and> tx_confirmed demo_net ''J''"
  using broadcast_submits_the_payment [OF demo_broadcast [of 1010 "[]" 1, simplified]]
  by (auto simp: demo_sends_def singleton_replicate demo_coin)


text \<open>
  C38. A query for a grant reports \<open>ErrNoGrant\<close> exactly if the endpoint's error names a missing authorization, or no
  \<open>SendAuthorization\<close> among the grants has a limit in the denomination; a result is the limit of the first one that has.
\<close>

theorem grant_query_result:
  "fst (QuerySendAuthorization T N c granter grantee denom w) =
    (case fst (Grants N granter grantee (MsgSendTypeURL T) (w_ext w)) of
       Inl err \<Rightarrow>
         if (\<exists>a b. err = a @ ''authorization not found'' @ b) \<or> (\<exists>a b. err = a @ ''NotFound'' @ b) then Inl ErrNoGrant
         else Inl (Errorf ''%w: %v'' [AErrW ErrChainRPC, AErrV (Foreign err)])
     | Inr grants \<Rightarrow>
         (case matching_limits (nc_cdc c) denom grants of
            [] \<Rightarrow> Inl ErrNoGrant
          | r # _ \<Rightarrow> Inr r))"
  by (auto simp: QuerySendAuthorization_def call_def Let_def contains_iff scan_grants_first
      split: sum.splits prod.splits list.splits option.splits)

section \<open>The command-line tools\<close>

text \<open>
  C17. A run of \<open>grant\<close> that ends without an error has put one transaction on the chain: its only message is the grant, from the payer
  whose key the mnemonic gives to the grantee of the flags, of the parsed spending limit, up to the clock's reading plus the expiration;
  the payer pays its fee, and the chain has reported the transaction as included.
\<close>

theorem grant_publishes_the_grant:
  assumes "grant_main S K T N g w = (None, w')"
  shows "\<exists>priv granter coins acc grantee msg t k hash.
    grant_deriveKey S (gf_mnemonic g) (gf_prefix g) = Inr (priv, granter)
    \<and> ParseCoinsNormalized T (gf_spendLimit g) = Inr coins
    \<and> AccAddressFromBech32 T (gf_prefix g) granter = Inr acc
    \<and> AccAddressFromBech32 T (gf_prefix g) (gf_grantee g) = Inr grantee
    \<and> NewMsgGrant T acc grantee (SendAuthorization coins)
        (time_Add (fst (time_Now N (set_prefixes (gf_prefix g) w))) (gf_expiration g)) = Inr msg
    \<and> w_calls w' = w_calls w @ [CallNewGRPC (gf_grpcEndpoint g) (gf_grpcTLS g),
        CallNewRPC (gf_rpcEndpoint g) ''/websocket'', CallAccount granter, CallBroadcast None t] @ replicate k (CallTx hash) @ [CallClose]
    \<and> tx_Msgs t = [msg] \<and> tx_FeeAmount t = NewCoins T [NewInt64Coin T (gf_gasDenom g) 20000] \<and> tx_FeePayer t = Some acc
    \<and> 0 < k \<and> k \<le> 32 \<and> tx_confirmed N hash"
proof (rule grant_run_success)
  show "grant_run S K T N g w = (Inr None, w')"
    using assms by (auto simp: grant_main_def split: if_splits prod.splits sum.splits)
qed

theorem grant_publishes_the_grant_witness:
  "\<exists>w' msg t. grant_main demo_sdk demo_codec demo_tx demo_net demo_grant_flags (demo_world 1000 [] 1) = (None, w')
    \<and> NewMsgGrant demo_tx demo_payer ''noble1facilitator''
        (SendAuthorization [\<lparr>coin_Denom = ''uusdc'', coin_Amount = ''1000000''\<rparr>])
        (time_Add (gotime_of (1000 * second)) 3600000000000) = Inr msg
    \<and> tx_Msgs t = [msg] \<and> CallBroadcast None t \<in> set (w_calls w')"
proof -
  obtain w' where run: "grant_main demo_sdk demo_codec demo_tx demo_net demo_grant_flags (demo_world 1000 [] 1) = (None, w')"
    using demo_grant_run by blast
  have flags: "gf_mnemonic demo_grant_flags = ''k''" "gf_prefix demo_grant_flags = ''noble''" "gf_grantee demo_grant_flags = ''noble1facilitator''"
    "gf_spendLimit demo_grant_flags = ''1000000uusdc''" "gf_expiration demo_grant_flags = 3600000000000"
    by (simp_all add: demo_grant_flags_def)
  have coins: "ParseCoinsNormalized demo_tx ''1000000uusdc'' = Inr [\<lparr>coin_Denom = ''uusdc'', coin_Amount = ''1000000''\<rparr>]"
    by (simp add: demo_tx_def is_digit_def byte_def)
  have acc: "AccAddressFromBech32 demo_tx p a = Inr a" for p a by (simp add: demo_tx_def)
  from grant_publishes_the_grant [OF run] obtain msg t rest where
    "NewMsgGrant demo_tx demo_payer ''noble1facilitator'' (SendAuthorization [\<lparr>coin_Denom = ''uusdc'', coin_Amount = ''1000000''\<rparr>])
        (time_Add (gotime_of (1000 * second)) 3600000000000) = Inr msg" "tx_Msgs t = [msg]"
    "w_calls w' = [CallNewGRPC (gf_grpcEndpoint demo_grant_flags) (gf_grpcTLS demo_grant_flags),
        CallNewRPC (gf_rpcEndpoint demo_grant_flags) ''/websocket'', CallAccount demo_payer, CallBroadcast None t] @ rest"
    by (auto simp: flags coins acc grant_deriveKey_def demo_derive_trimmed)
  moreover from this(3) have "CallBroadcast None t \<in> set (w_calls w')" by simp
  ultimately show ?thesis using run by blast
qed

text \<open>
  C32. However \<open>grant\<close> ends, it has moved no payment, it has opened at most one connection, and one that is open is closed, once and
  as the last thing it does with the network.
\<close>

theorem grant_closes_its_connection:
  "\<exists>cs. w_calls (snd (grant_main S K T N g w)) = w_calls w @ cs \<and> sent_in cs = []
    \<and> (cs = [] \<or> cs = [CallNewGRPC (gf_grpcEndpoint g) (gf_grpcTLS g)]
      \<or> (\<exists>ds. cs = CallNewGRPC (gf_grpcEndpoint g) (gf_grpcTLS g) # ds @ [CallClose] \<and> CallClose \<notin> set ds))"
proof -
  obtain r w' where run: "grant_run S K T N g w = (r, w')" by (metis surj_pair)
  have "w_calls (snd (grant_main S K T N g w)) \<in> {w_calls w, w_calls w'}" by (simp add: grant_main_def run split: sum.splits)
  then show ?thesis using grant_run_calls [OF run] by fastforce
qed

text \<open>
  C18. The body that \<open>fixture\<close> prints settles when it is posted to \<open>/settle\<close>: within the window that the flags describe, with a key
  whose grant and balance cover the amount, a nonce not used before and a broadcast that is confirmed, the facilitator
  reads the indented text back as the signed request and answers with the transaction.
\<close>

theorem fixture_body_settles:
  fixes f addr b t
  defines "auth \<equiv> fixture_authorization f addr (''0x'' @ hex_EncodeToString b) (Unix t)"
  defines "q \<equiv> fixture_requirements f"
  assumes "valid_fixture f" and "valid_utf8 addr" and "ff_output f = ''-''"
    and "ff_recipient f \<noteq> []" and "ff_facilitator f \<noteq> []" and "ff_payerMnemonic f \<noteq> []"
    and "fx_Now E y = (t, y1)" and "fx_rand E 32 y1 = (Inr b, y2)"
    and "ff_network f = ''cosmos:'' @ nc_chainID c" and "ff_chainID f = nc_chainID c" and "ff_prefix f = nc_prefix c"
    and "signature_scheme S" and "fixture_deriveKey S (ff_payerMnemonic f) (ff_prefix f) = Inr (priv, addr)"
    and "sign_authorization S priv auth = Inr (sg, pk)"
    and "5 \<le> unat (Unix t)" and "unat (Unix t) + unat (ff_validitySeconds f) < 18446744073709551616"
    and "unat (ff_validitySeconds f) + 5 \<le> unat (ff_maxTimeoutSeconds f)"
    and "time_Now N w = (t', w1)" and "unat (Unix t) - 5 \<le> unat (Unix t')"
    and "unat (Unix t') < unat (Unix t) + unat (ff_validitySeconds f)"
    and "map_of m (nonceKey addr (nc_chainID c) (''0x'' @ hex_EncodeToString b)) = None"
    and "grant_covers (main_verifier S T N c) (noble_client S T N c) (fixture_request (fixture_payload f addr auth sg pk) q) w1 w2"
    and "balance_covers (noble_client S T N c) auth w2 w3"
    and "BroadcastAuthzSend S T N c addr (ff_recipient f) (ff_asset f) (ff_amount f) w3 = ((h, None), w4)"
    and "r_Method r = ''POST''" and "r_Path r = ''/settle''"
  shows "\<exists>out m'. fixture_main S E f y = (Inr out, y2) \<and>
    serve_http S jerr (main_verifier S T N c) (r\<lparr>r_Body := out\<rparr>) (m, w) =
      (writeJSON 200 (SettleResponse_json (settle_paid h (ff_network f) addr)) new_writer, m', w4)"
proof -
  let ?p = "fixture_payload f addr auth sg pk"
  have out: "fixture_main S E f y = (Inr (fixture_text ?p q @ newline), y2)"
    using fixture_main_run [OF assms(6,7,8) assms(15) assms(9,10) auth_def [THEN meta_eq_to_obj_eq] assms(16)] assms(5)
    by (simp add: write_fixture_def q_def)
  obtain m' where settled: "Settle S (NewSettler (main_verifier S T N c)) (fixture_request ?p q) (m, w) =
      (settle_paid h (ff_network f) addr, m', w4)"
    using fixture_settles [OF assms(11-15) assms(16) [unfolded auth_def] assms(17-23) assms(24) [unfolded auth_def q_def]
        assms(25) [unfolded auth_def] assms(26)] by (auto simp: auth_def q_def)
  have "settleHandler S (NewSettler (main_verifier S T N c)) (r\<lparr>r_Body := fixture_text ?p q @ newline\<rparr>) (m, w) =
      (writeJSON 200 (SettleResponse_json (settle_paid h (ff_network f) addr)) new_writer, m', w4)"
    using fixture_valid [OF assms(3,4)] assms(27)
    by (intro fixture_posted [OF _ _ _ _ settled]) (simp_all add: auth_def q_def)
  with out assms(28) show ?thesis by (simp add: serve_http_def)
qed

theorem fixture_body_settles_witness:
  "\<exists>out m' w'. fixture_main demo_sdk demo_fixture_env demo_fixture (demo_world 1010 [] 1) = (Inr out, demo_world 1010 [] 1) \<and>
    serve_http demo_sdk (\<lambda>_. []) demo_verifier
      (\<lparr>r_Method = ''POST'', r_Host = ''f'', r_Path = ''/settle'', r_TLS = False, r_Header = [], r_Body = []\<rparr>\<lparr>r_Body := out\<rparr>)
      (NewMemoryNonceStore, demo_world 1010 [] 1) =
      (writeJSON 200 (SettleResponse_json (settle_paid ''4A'' ''cosmos:grand-1'' demo_payer)) new_writer, m', w')"
proof -
  obtain sg pk where sg: "sign_authorization demo_sdk demo_key fixture_auth = Inr (sg, pk)"
    using demo_fixture_signed by blast
  have client: "ff_network demo_fixture = ''cosmos:'' @ nc_chainID demo_client" "ff_chainID demo_fixture = nc_chainID demo_client"
    "ff_prefix demo_fixture = nc_prefix demo_client" by (simp_all add: demo_client_def)
  have derived: "fixture_deriveKey demo_sdk (ff_payerMnemonic demo_fixture) (ff_prefix demo_fixture) = Inr (demo_key, demo_payer)"
    by (simp add: fixture_deriveKey_def demo_derive_trimmed)
  have given: "ff_output demo_fixture = ''-''" "ff_recipient demo_fixture \<noteq> []" "ff_facilitator demo_fixture \<noteq> []"
    "ff_payerMnemonic demo_fixture \<noteq> []" by simp_all
  have now: "fx_Now demo_fixture_env (demo_world 1010 [] 1) = (gotime_of (1010 * second), demo_world 1010 [] 1)" by simp
  have rand: "fx_rand demo_fixture_env 32 (demo_world 1010 [] 1) = (Inr (replicate 32 (CHR ''r'')), demo_world 1010 [] 1)"
    by (simp add: demo_rand_def)
  have times: "5 \<le> unat demo_now" "unat demo_now + unat (ff_validitySeconds demo_fixture) < 18446744073709551616"
    "unat (ff_validitySeconds demo_fixture) + 5 \<le> unat (ff_maxTimeoutSeconds demo_fixture)"
    "unat demo_now - 5 \<le> unat demo_now" "unat demo_now < unat demo_now + unat (ff_validitySeconds demo_fixture)"
    by (simp_all add: demo_now_value)
  have unused: "map_of NewMemoryNonceStore (nonceKey demo_payer (nc_chainID demo_client) (''0x'' @ hex_EncodeToString (replicate 32 (CHR ''r'')))) = None"
    by (simp add: NewMemoryNonceStore_def)
  have broadcast: "BroadcastAuthzSend demo_sdk demo_tx demo_net demo_client demo_payer (ff_recipient demo_fixture) (ff_asset demo_fixture)
      (ff_amount demo_fixture) (demo_world 1010 cs 1) = ((''4A'', None), demo_world 1010 (cs @ demo_sends) 1)" for cs
    using demo_broadcast [of 1010 cs 1] by simp
  let ?r = "\<lparr>r_Method = ''POST'', r_Host = ''f'', r_Path = ''/settle'', r_TLS = False, r_Header = [], r_Body = []\<rparr>"
  have r: "r_Method ?r = ''POST''" "r_Path ?r = ''/settle''" by simp_all
  have net: "ff_network demo_fixture = ''cosmos:grand-1''" by simp
  show ?thesis
    using fixture_body_settles [where jerr = "\<lambda>_. []", OF demo_fixture_valid demo_payer_valid given now rand client demo_signature_scheme derived sg times(1-3)
        demo_clock times(4,5) unused demo_fixture_grant demo_fixture_balance broadcast r]
    unfolding net by blast
qed



text \<open>
  C26. The client's test mode \<open>X402_EXPIRED=1\<close>: the run ends with a receipt that says \<open>expired_authorization\<close>. Nothing was asked of the chain, nothing
  was paid, and the nonce store is as it was.
\<close>

theorem expired_run_is_refused:
  fixes cfg host Getenv b t addr
  defines "q \<equiv> shop_requirements cfg host"
  defines "auth \<equiv> make_authorization q addr (run_nonce Getenv b) (Unix t) True"
  assumes "valid_config cfg" and "valid_utf8 host" and "valid_utf8 addr"
    and "envOr Getenv ''X402_SERVER_URL'' ''http://localhost:8080/premium'' = shop_url host"
    and "Getenv ''X402_PAYER_MNEMONIC'' \<noteq> []" and "Getenv ''X402_EXPIRED'' = ''1''"
    and "deriveKey S (Getenv ''X402_PAYER_MNEMONIC'') (envOr Getenv ''X402_NOBLE_PREFIX'' ''noble'') = Inr (priv, addr)"
    and "signAuth S priv auth = Inr (sg, pk)"
    and "mw_Network cfg = ''cosmos:'' @ nc_chainID c" and "nc_chainID c \<noteq> []"
    and "rand 32 w = (Inr b, w1)" and "time_Now N w1 = (t, w2)" and "link (w_ext w2) = Delivered"
    and "time_Now N w2 = (t', w3)" and "60 \<le> unat (Unix t)" and "unat (Unix t) - 10 \<le> unat (Unix t')"
  shows "client_main S (shop_client S T N c jerr link cfg host Getenv rand) (m, w) =
    ((Some (settle_failed ErrExpiredAuthorization (mw_Network cfg) []),
      Inl (Fatal (Errorf ''paid request returned status %d, body=%s'' [AInt 402, AStr []]))), m, w3)"
proof -
  have supp: "supported (main_verifier S T N c) q (noble_client S T N c)"
    unfolding q_def using assms(11,12) by (rule shop_supported)
  have clock: "vf_clock (main_verifier S T N c) w2 = (t', w3)" using assms(16) by simp
  have net: "pr_Network q = mw_Network cfg" by (simp add: q_def buildRequirements_def Let_def)
  obtain err where "Verify S (main_verifier S T N c) (settle_request (make_payload q auth sg pk) q) (m, w2) = (Inl err, m, w3)"
    and "ErrorCode err = ErrExpiredAuthorization"
    using made_expired_refused [OF supp assms(17) clock assms(18)] unfolding auth_def by blast
  then have settled: "Settle S (NewSettler (main_verifier S T N c)) (settle_request (make_payload q auth sg pk) q) (m, w2) =
      (settle_failed ErrExpiredAuthorization (mw_Network cfg) [], m, w3)"
    by (simp add: Settle_def NewSettler_def net)
  have auth: "auth = make_authorization (shop_requirements cfg host) addr (run_nonce Getenv b) (Unix t) (Getenv ''X402_EXPIRED'' = ''1'')"
    using assms(8) by (simp add: auth_def q_def)
  show ?thesis
    using client_main_run [where link = link and rand = rand, OF assms(3-7) assms(9) assms(13-15) auth assms(10) settled [unfolded q_def]]
    by (simp add: client_view_def)
qed

theorem expired_run_is_refused_witness:
  "client_main demo_sdk (shop_client demo_sdk demo_tx demo_net demo_client (\<lambda>_. []) (\<lambda>_. Delivered) demo_cfg ''shop'' demo_getenv_expired demo_rand)
      (NewMemoryNonceStore, demo_world 1010 [] 1) =
    ((Some (settle_failed ErrExpiredAuthorization ''cosmos:grand-1'' []),
      Inl (Fatal (Errorf ''paid request returned status %d, body=%s'' [AInt 402, AStr []]))), NewMemoryNonceStore, demo_world 1010 [] 1)"
proof -
  obtain sg pk where sg: "signAuth demo_sdk demo_key (make_authorization (shop_requirements demo_cfg ''shop'') demo_payer
      (run_nonce demo_getenv_expired (replicate 32 (CHR ''r''))) demo_now True) = Inr (sg, pk)"
    using demo_signed_expired by (metis demo_shop_requirements)
  have env: "envOr demo_getenv_expired ''X402_SERVER_URL'' ''http://localhost:8080/premium'' = shop_url ''shop''"
    "demo_getenv_expired ''X402_PAYER_MNEMONIC'' \<noteq> []" "demo_getenv_expired ''X402_EXPIRED'' = ''1''"
    "envOr demo_getenv_expired ''X402_NOBLE_PREFIX'' ''noble'' = ''noble''"
    "demo_getenv_expired ''X402_PAYER_MNEMONIC'' = demo_getenv ''X402_PAYER_MNEMONIC''"
    by (simp_all add: envOr_def demo_getenv_def demo_getenv_expired_def shop_url_def)
  have derived: "deriveKey demo_sdk (demo_getenv_expired ''X402_PAYER_MNEMONIC'') (envOr demo_getenv_expired ''X402_NOBLE_PREFIX'' ''noble'')
      = Inr (demo_key, demo_payer)" by (simp only: env(4,5) demo_derived)
  have rand: "demo_rand 32 (demo_world 1010 [] 1) = (Inr (replicate 32 (CHR ''r'')), demo_world 1010 [] 1)"
    by (simp add: demo_rand_def)
  have host: "valid_utf8 ''shop''" by simp
  have cfg: "mw_Network demo_cfg = ''cosmos:'' @ nc_chainID demo_client" "nc_chainID demo_client \<noteq> []"
    by (simp_all add: demo_cfg_def demo_client_def)
  have times: "60 \<le> unat demo_now" "unat demo_now - 10 \<le> unat demo_now" by (simp_all add: demo_now_value)
  have net: "mw_Network demo_cfg = ''cosmos:grand-1''" by (simp add: demo_cfg_def)
  show ?thesis
    using expired_run_is_refused [where link = "\<lambda>_. Delivered" and rand = demo_rand and jerr = "\<lambda>_. []" and T = demo_tx and m = NewMemoryNonceStore,
      OF demo_cfg_valid(1) host demo_payer_valid env(1-3) derived sg cfg rand demo_clock refl demo_clock times]
    unfolding net .
qed

text \<open>
  A server that starts has an account to be paid to and a facilitator; it answers a request for the resource without payment with 402 and the requirements of
  its environment.
\<close>

theorem server_asks_for_its_price:
  assumes "server_main Getenv listen H Now = Inr handler" and "r_Path r = ''/premium''"
    and "header_Get (r_Header r) ''PAYMENT-SIGNATURE'' = []"
  shows "\<exists>req. handler r y = (writeRequired req new_writer, y)
    \<and> pr_PayTo req = Getenv ''X402_PAY_TO'' \<and> Getenv ''X402_PAY_TO'' \<noteq> []
    \<and> pr_MaxAmountRequired req = envOr Getenv ''X402_AMOUNT'' ''10000'' \<and> pr_MaxTimeoutSeconds req = 60
    \<and> x_Facilitator (pr_Extra req) = Getenv ''X402_FACILITATOR_GRANTEE''"
proof -
  from assms(1) obtain addr cfg where cfg: "server_config Getenv = Inr (addr, cfg)" and "handler = server_mux H Now cfg"
    by (auto simp: returns)
  with assms(2,3) server_config_Inr [OF cfg] show ?thesis
    by (intro exI [of _ "buildRequirements (with_defaults cfg) r"])
      (simp add: server_mux_def Paid_def buildRequirements_def with_defaults_def Let_def)
qed

theorem server_asks_for_its_price_witness:
  "\<exists>handler req. server_main (\<lambda>k. if k \<in> {''X402_PAY_TO'', ''X402_FACILITATOR_GRANTEE''} then ''noble1x'' else []) (\<lambda>addr. None)
      (demo_env (\<lambda>_. Delivered)) (\<lambda>(m, w). let (t, w1) = time_Now demo_net w in (t, m, w1)) = Inr handler
    \<and> fst (handler (premium_request ''shop'' []) (NewMemoryNonceStore, demo_world 1010 [] 1)) = writeRequired req new_writer
    \<and> pr_PayTo req = ''noble1x'' \<and> pr_MaxTimeoutSeconds req = 60"
proof -
  let ?env = "\<lambda>k. if k \<in> {''X402_PAY_TO'', ''X402_FACILITATOR_GRANTEE''} then ''noble1x'' else []"
  obtain handler where run: "server_main ?env (\<lambda>addr. None) (demo_env (\<lambda>_. Delivered))
      (\<lambda>(m, w). let (t, w1) = time_Now demo_net w in (t, m, w1)) = Inr handler"
    by (auto simp: returns server_config_def mustEnv_def Let_def)
  have r: "r_Path (premium_request ''shop'' []) = ''/premium''" "header_Get (r_Header (premium_request ''shop'' [])) ''PAYMENT-SIGNATURE'' = []"
    by (simp_all add: premium_request_def)
  from server_asks_for_its_price [OF run r, of "(NewMemoryNonceStore, demo_world 1010 [] 1)"] run show ?thesis by fastforce
qed

text \<open>
  A fresh nonce is \<open>0x\<close> with 64 hexadecimal digits when the generator fills its buffer, and different random bytes give different nonces.
\<close>

theorem fresh_nonces_differ:
  assumes "freshNonce E y = (Inr n, y1)" and "freshNonce E z = (Inr n', z1)"
    and "cl_rand E 32 y = (Inr b, y1)" and "cl_rand E 32 z = (Inr b', z1)" and "length b = 32"
  shows "length n = 66 \<and> (n = n' \<longleftrightarrow> b = b')"
  using assms by (auto simp: freshNonce_def fresh_nonce_Inr hex_EncodeToString_inject)

theorem fresh_nonces_differ_witness:
  "length (''0x'' @ hex_EncodeToString (replicate 32 (CHR ''r''))) = 66 \<and>
    (''0x'' @ hex_EncodeToString (replicate 32 (CHR ''r'')) = ''0x'' @ hex_EncodeToString (replicate 32 (CHR ''r''))
      \<longleftrightarrow> replicate 32 (CHR ''r'') = replicate 32 (CHR ''r''))"
proof -
  let ?E = "shop_client demo_sdk demo_tx demo_net demo_client (\<lambda>_. []) (\<lambda>_. Delivered) demo_cfg ''shop'' demo_getenv demo_rand"
  let ?y = "(NewMemoryNonceStore, demo_world 1010 [] 1)"
  have rand: "cl_rand ?E 32 ?y = (Inr (replicate 32 (CHR ''r'')), ?y)" by (simp add: demo_rand_def)
  then have "freshNonce ?E ?y = (Inr (''0x'' @ hex_EncodeToString (replicate 32 (CHR ''r''))), ?y)"
    by (auto simp: freshNonce_def fresh_nonce_Inr)
  from fresh_nonces_differ [OF this this rand rand length_replicate] show ?thesis .
qed

end
